(* ===== verification/Prelude.thy ===== *)
theory Prelude
  imports Main "HOL-Library.Word" "HOL-Library.Multiset" "HOL-Library.AList"
begin

text \<open>
  What every component of the development shares: the byte and tag types, the lemma
  collections, Go slices used as unordered arrays, Go maps as association lists with
  distinct keys, Go buffered channels, and Go's truncating integer division.
\<close>

named_theorems db_keeps \<open>facts that a statement or a transaction body keeps an invariant\<close>

type_synonym byte = "8 word"
type_synonym bytes = "byte list"
type_synonym tag4cc = "32 word"

section \<open>Slices as unordered arrays\<close>

text \<open>
  The code removes an element from an unordered array in one shape everywhere: find the
  first match, overwrite it by the last element, drop the last element, leave the loop
  (\<open>closePeer\<close>, \<open>closeHandler\<close> and \<open>seedFromDNS\<close> in \<open>internal/netsvc/service.go\<close>).
\<close>

fun find_index :: "('a \<Rightarrow> bool) \<Rightarrow> 'a list \<Rightarrow> nat option" where
  "find_index p [] = None"
| "find_index p (x # xs) = (if p x then Some 0 else map_option Suc (find_index p xs))"

definition swap_remove :: "nat \<Rightarrow> 'a list \<Rightarrow> 'a list" where
  "swap_remove i xs = butlast (xs[i := last xs])"

definition remove_unordered :: "'a \<Rightarrow> 'a list \<Rightarrow> 'a list" where
  "remove_unordered x xs =
     (case find_index ((=) x) xs of
        None \<Rightarrow> xs
      | Some i \<Rightarrow> swap_remove i xs)"

lemma find_index_Some:
  "find_index p xs = Some i \<Longrightarrow> i < length xs \<and> p (xs ! i)"
  by (induction xs arbitrary: i) (auto split: if_splits)

lemma find_index_None: "find_index p xs = None \<longleftrightarrow> (\<forall>x\<in>set xs. \<not> p x)"
  by (induction xs) auto

lemma mset_butlast: "xs \<noteq> [] \<Longrightarrow> mset (butlast xs) = mset xs - {#last xs#}"
  by (induction xs rule: rev_induct) auto

lemma mset_swap_remove:
  assumes "i < length xs"
  shows "mset (swap_remove i xs) = mset xs - {#xs ! i#}"
proof -
  have ne: "xs[i := last xs] \<noteq> []"
    using assms by auto
  have "last (xs[i := last xs]) = last xs"
    using assms ne by (simp add: last_conv_nth nth_list_update)
  then have "mset (swap_remove i xs) = mset (xs[i := last xs]) - {#last xs#}"
    by (simp add: swap_remove_def mset_butlast [OF ne])
  also have "\<dots> = mset xs - {#xs ! i#}"
    using assms by (simp add: mset_update)
  finally show ?thesis .
qed

lemma length_swap_remove [simp]: "length (swap_remove i xs) = length xs - 1"
  by (simp add: swap_remove_def)

lemma mset_remove_unordered [simp]:
  "mset (remove_unordered x xs) = mset xs - {#x#}"
proof (cases "find_index ((=) x) xs")
  case None
  then have "x \<notin># mset xs"
    by (auto simp: find_index_None)
  with None show ?thesis
    by (simp add: remove_unordered_def diff_single_trivial)
next
  case (Some i)
  then have "i < length xs" and "x = xs ! i"
    using find_index_Some [OF Some] by auto
  with Some show ?thesis
    by (simp add: remove_unordered_def mset_swap_remove)
qed

lemma set_remove_unordered_subset: "set (remove_unordered x xs) \<subseteq> set xs"
  by (metis in_diffD mset_remove_unordered set_mset_mset subsetI)

lemma in_set_remove_unordered:
  "y \<noteq> x \<Longrightarrow> y \<in> set (remove_unordered x xs) \<longleftrightarrow> y \<in> set xs"
  using in_diff_count [of y "mset xs" "{#x#}"]
  by (metis count_single count_greater_zero_iff mset_remove_unordered set_mset_mset)

lemma distinct_remove_unordered [simp]:
  assumes "distinct xs"
  shows "distinct (remove_unordered x xs)"
    and "set (remove_unordered x xs) = set xs - {x}"
proof -
  have m: "mset (remove_unordered x xs) = mset (remove1 x xs)"
    by simp
  show "distinct (remove_unordered x xs)"
    using assms m by (metis distinct_remove1 mset_eq_imp_distinct_iff)
  show "set (remove_unordered x xs) = set xs - {x}"
    using assms m by (metis mset_eq_setD set_remove1_eq)
qed

section \<open>Go maps\<close>

text \<open>
  A Go map that the code also iterates over is an association list with distinct keys:
  its order is one of the orders \<open>range\<close> may choose. \<open>AList.update\<close> inserts or
  overwrites, \<open>AList.delete\<close> deletes, \<open>map_of\<close> looks up.
\<close>

abbreviation keys :: "('k \<times> 'v) list \<Rightarrow> 'k set" where
  "keys m \<equiv> fst ` set m"

lemma map_of_update_conv [simp]: "map_of (AList.update k v m) = (map_of m)(k \<mapsto> v)"
  by (rule update_conv')

lemma map_of_delete_conv [simp]: "map_of (AList.delete k m) = (map_of m)(k := None)"
  by (rule delete_conv')

lemma distinct_keys_update [simp]:
  "distinct (map fst m) \<Longrightarrow> distinct (map fst (AList.update k v m))"
  by (rule distinct_update)

lemma distinct_keys_delete [simp]:
  "distinct (map fst m) \<Longrightarrow> distinct (map fst (AList.delete k m))"
  by (rule distinct_delete)

section \<open>Go channels\<close>

text \<open>
  A buffered channel of capacity \<open>cap\<close> is the list of the values in its buffer. A send in
  a \<open>select\<close> with a \<open>default\<close> case (\<open>chan_try_send\<close>) drops the value when the buffer is
  full; a plain send (\<open>chan_send\<close>) blocks, which is \<open>None\<close>.
\<close>

definition chan_try_send :: "nat \<Rightarrow> 'a \<Rightarrow> 'a list \<Rightarrow> 'a list" where
  "chan_try_send cap v q = (if length q < cap then q @ [v] else q)"

definition chan_send :: "nat \<Rightarrow> 'a \<Rightarrow> 'a list \<Rightarrow> 'a list option" where
  "chan_send cap v q = (if length q < cap then Some (q @ [v]) else None)"

lemma length_chan_try_send:
  "length q \<le> cap \<Longrightarrow> length (chan_try_send cap v q) \<le> cap"
  by (simp add: chan_try_send_def)

lemma chan_try_send_prefix: "\<exists>vs. chan_try_send cap v q = q @ vs \<and> set vs \<subseteq> {v}"
  by (simp add: chan_try_send_def)

section \<open>Integer division\<close>

text \<open>Go's \<open>/\<close> on signed integers truncates towards zero.\<close>

definition go_div :: "int \<Rightarrow> int \<Rightarrow> int" where
  "go_div a b = sgn a * sgn b * (\<bar>a\<bar> div \<bar>b\<bar>)"

lemma go_div_nonneg: "0 \<le> a \<Longrightarrow> 0 < b \<Longrightarrow> go_div a b = a div b"
  by (cases "a = 0") (simp_all add: go_div_def)

end
