(* ===== verification/GoNet.thy ===== *)
theory GoNet
  imports Prelude
begin

unbundle bit_operations_syntax

text \<open>
  The part of Go's standard library the code's decisions rest on: \<open>net.IP\<close> (a byte slice
  of length 4 or 16; the empty list is the nil slice), \<open>encoding/hex\<close> and \<open>copy\<close> into a
  fixed-size array.
\<close>

section \<open>net.IP\<close>

type_synonym ip = bytes

definition v4InV6Prefix :: bytes where
  "v4InV6Prefix = replicate 10 0 @ [255, 255]"

definition IPv4 :: "byte \<Rightarrow> byte \<Rightarrow> byte \<Rightarrow> byte \<Rightarrow> ip" where
  "IPv4 a b c d = v4InV6Prefix @ [a, b, c, d]"

definition To4 :: "ip \<Rightarrow> ip" where
  "To4 i = (if length i = 4 then i
            else if length i = 16 \<and> take 12 i = v4InV6Prefix then drop 12 i
            else [])"

definition To16 :: "ip \<Rightarrow> ip" where
  "To16 i = (if length i = 4 then v4InV6Prefix @ i
             else if length i = 16 then i
             else [])"

definition ip_Equal :: "ip \<Rightarrow> ip \<Rightarrow> bool" where
  "ip_Equal i x =
     (if length i = length x then i = x
      else if length i = 4 \<and> length x = 16 then take 12 x = v4InV6Prefix \<and> i = drop 12 x
      else if length i = 16 \<and> length x = 4 then take 12 i = v4InV6Prefix \<and> drop 12 i = x
      else False)"

definition IsUnspecified :: "ip \<Rightarrow> bool" where
  "IsUnspecified i = (ip_Equal i (IPv4 0 0 0 0) \<or> ip_Equal i (replicate 16 0))"

definition IsLoopback :: "ip \<Rightarrow> bool" where
  "IsLoopback i = (if To4 i \<noteq> [] then To4 i ! 0 = 127
                   else ip_Equal i (replicate 15 0 @ [1]))"

definition IsMulticast :: "ip \<Rightarrow> bool" where
  "IsMulticast i = (if To4 i \<noteq> [] then To4 i ! 0 AND 240 = 224
                    else length i = 16 \<and> i ! 0 = 255)"

definition IsLinkLocalUnicast :: "ip \<Rightarrow> bool" where
  "IsLinkLocalUnicast i =
     (if To4 i \<noteq> [] then To4 i ! 0 = 169 \<and> To4 i ! 1 = 254
      else length i = 16 \<and> i ! 0 = 254 \<and> i ! 1 AND 192 = 128)"

definition IsGlobalUnicast :: "ip \<Rightarrow> bool" where
  "IsGlobalUnicast i =
     ((length i = 4 \<or> length i = 16) \<and> \<not> ip_Equal i (IPv4 255 255 255 255) \<and>
      \<not> IsUnspecified i \<and> \<not> IsLoopback i \<and> \<not> IsMulticast i \<and> \<not> IsLinkLocalUnicast i)"

definition IsPrivate :: "ip \<Rightarrow> bool" where
  "IsPrivate i =
     (if To4 i \<noteq> [] then
        To4 i ! 0 = 10 \<or> (To4 i ! 0 = 172 \<and> To4 i ! 1 AND 240 = 16) \<or>
        (To4 i ! 0 = 192 \<and> To4 i ! 1 = 168)
      else length i = 16 \<and> i ! 0 AND 254 = 252)"

lemma length_v4InV6Prefix [simp]: "length v4InV6Prefix = 12"
  by (simp add: v4InV6Prefix_def)

lemma length_To16: "length (To16 i) = (if length i = 4 \<or> length i = 16 then 16 else 0)"
  by (simp add: To16_def)

lemma To4_To16: "length i = 4 \<Longrightarrow> To4 (To16 i) = i"
  by (simp add: To4_def To16_def)

lemma To4_cases: "To4 i = [] \<or> length (To4 i) = 4"
  by (auto simp: To4_def)

lemma To16_To4:
  assumes "To4 i \<noteq> []"
  shows "To16 (To4 i) = To16 i"
proof (cases "length i = 4")
  case True
  then show ?thesis by (simp add: To4_def)
next
  case False
  with assms have l: "length i = 16" and p: "take 12 i = v4InV6Prefix" and d: "To4 i = drop 12 i"
    by (auto simp: To4_def split: if_splits)
  have "v4InV6Prefix @ drop 12 i = i"
    using append_take_drop_id [of 12 i] by (simp add: p)
  with l d show ?thesis by (simp add: To16_def)
qed

lemma IsGlobalUnicast_To4: "To4 i \<noteq> [] \<Longrightarrow> IsPrivate (To4 i) = IsPrivate i"
  using To4_cases [of i] by (auto simp: IsPrivate_def To4_def)

section \<open>encoding/hex\<close>

definition hextable :: string where
  "hextable = ''0123456789abcdef''"

definition EncodeToString :: "bytes \<Rightarrow> string" where
  "EncodeToString src =
     concat (map (\<lambda>v. [hextable ! (unat v div 16), hextable ! (unat v mod 16)]) src)"

definition fromHexChar :: "char \<Rightarrow> nat option" where
  "fromHexChar c =
     (let n = of_char c :: nat in
      if 48 \<le> n \<and> n \<le> 57 then Some (n - 48)
      else if 97 \<le> n \<and> n \<le> 102 then Some (n - 97 + 10)
      else if 65 \<le> n \<and> n \<le> 70 then Some (n - 65 + 10)
      else None)"

text \<open>
  \<open>hex.DecodeString\<close>: the decoded prefix and whether an error was met (an invalid
  character, or an odd length).
\<close>

fun DecodeString :: "string \<Rightarrow> bytes \<times> bool" where
  "DecodeString [] = ([], False)"
| "DecodeString [c] = ([], True)"
| "DecodeString (c # d # cs) =
     (case (fromHexChar c, fromHexChar d) of
        (Some a, Some b) \<Rightarrow>
          (let (r, e) = DecodeString cs in (of_nat (a * 16 + b) # r, e))
      | _ \<Rightarrow> ([], True))"

lemma fromHexChar_hextable: "n < 16 \<Longrightarrow> fromHexChar (hextable ! n) = Some n"
proof -
  have "\<forall>n\<in>set [0..<16]. fromHexChar (hextable ! n) = Some n"
    by code_simp
  then show "n < 16 \<Longrightarrow> fromHexChar (hextable ! n) = Some n" by simp
qed

lemma DecodeString_EncodeToString [simp]: "DecodeString (EncodeToString bs) = (bs, False)"
proof (induction bs)
  case Nil
  show ?case by (simp add: EncodeToString_def)
next
  case (Cons b bs)
  have lt: "unat b < 256" using unsigned_less [of b] by simp
  then have "unat b div 16 < 16" by simp
  moreover have "unat b div 16 * 16 + unat b mod 16 = unat b" by simp
  ultimately show ?case
    using Cons by (simp add: EncodeToString_def fromHexChar_hextable)
qed

lemma length_EncodeToString [simp]: "length (EncodeToString bs) = 2 * length bs"
  by (induction bs) (simp_all add: EncodeToString_def)

lemma EncodeToString_inj: "EncodeToString a = EncodeToString b \<longleftrightarrow> a = b"
  by (metis DecodeString_EncodeToString prod.inject)

section \<open>Arrays\<close>

text \<open>\<open>copy(dst[off:lim], src)\<close>: copies \<open>min (lim - off) (len src)\<close> elements.\<close>

definition go_copy :: "'a list \<Rightarrow> nat \<Rightarrow> nat \<Rightarrow> 'a list \<Rightarrow> 'a list" where
  "go_copy dst off lim src =
     (let n = min (lim - off) (length src) in take off dst @ take n src @ drop (off + n) dst)"

lemma length_go_copy:
  "off \<le> lim \<Longrightarrow> lim \<le> length dst \<Longrightarrow> length (go_copy dst off lim src) = length dst"
  by (simp add: go_copy_def Let_def)

text \<open>\<open>binary.BigEndian.PutUint16\<close> into the array at \<open>off\<close>.\<close>

definition PutUint16 :: "bytes \<Rightarrow> nat \<Rightarrow> 16 word \<Rightarrow> bytes" where
  "PutUint16 dst off v = dst[off := ucast (drop_bit 8 v), Suc off := ucast v]"

lemma length_PutUint16 [simp]: "length (PutUint16 dst off v) = length dst"
  by (simp add: PutUint16_def)

lemma uint16_bytes_inj:
  fixes v w :: "16 word"
  assumes "(ucast (drop_bit 8 v) :: byte) = ucast (drop_bit 8 w)"
    and "(ucast v :: byte) = ucast w"
  shows "v = w"
proof (rule bit_word_eqI)
  fix n assume "n < LENGTH(16)"
  then have n: "n < 16" by simp
  show "bit v n = bit w n"
  proof (cases "n < 8")
    case True
    then show ?thesis
      using arg_cong [OF assms(2), of "\<lambda>x. bit x n"] by (simp add: bit_ucast_iff)
  next
    case False
    then obtain m where m: "n = 8 + m" using le_Suc_ex by (metis not_less)
    with n have "m < 8" by simp
    with m show ?thesis
      using arg_cong [OF assms(1), of "\<lambda>x. bit x m"]
      by (simp add: bit_ucast_iff bit_drop_bit_eq)
  qed
qed

section \<open>strconv.Itoa\<close>

fun nat_digits :: "nat \<Rightarrow> string" where
  "nat_digits n = (if n < 10 then [char_of (48 + n)]
                   else nat_digits (n div 10) @ [char_of (48 + n mod 10)])"

declare nat_digits.simps [simp del]

definition itoa :: "int \<Rightarrow> string" where
  "itoa i = (if i < 0 then CHR ''-'' # nat_digits (nat (- i)) else nat_digits (nat i))"

end
