(* ===== verification/SpecErrors.thy ===== *)
theory SpecErrors
  imports Prelude
begin

text \<open>
  The errors of the program (\<open>pkg/spec/errors.go\<close>) together with the two kinds of
  driver errors the code inspects: \<open>sqlite3.Error\<close>, of which only \<open>Code\<close> is read, and
  \<open>sql.ErrNoRows\<close>. An error made by \<open>fmt.Errorf\<close> with \<open>%v\<close> keeps the text of its
  argument and does not wrap it.
\<close>

type_synonym errorCode = string

definition NotFound :: errorCode where "NotFound = ''not-found''"
definition AlreadyExists :: errorCode where "AlreadyExists = ''already-exists''"
definition DBConflict :: errorCode where "DBConflict = ''db-conflict''"
definition DBProblem :: errorCode where "DBProblem = ''db-problem''"

datatype sqlite_code = ErrBusy | ErrLocked | ErrConstraint | ErrCode nat

datatype goerr =
    SqliteError sqlite_code string
  | ErrNoRows
  | ErrorInfo errorCode string "goerr option"
  | OpaqueError string

fun Error :: "goerr \<Rightarrow> string" where
  "Error (SqliteError c s) = s"
| "Error ErrNoRows = ''sql: no rows in result set''"
| "Error (ErrorInfo c m (Some w)) = m @ '': '' @ Error w"
| "Error (ErrorInfo c m None) = m"
| "Error (OpaqueError s) = s"

definition Errorf :: "string \<Rightarrow> goerr \<Rightarrow> goerr" where
  "Errorf prefix e = OpaqueError (prefix @ Error e)"

fun Is :: "goerr \<Rightarrow> goerr \<Rightarrow> bool" where
  "Is (ErrorInfo c m w) (ErrorInfo c' m' w') = (c = c')"
| "Is e target = False"

fun Unwrap :: "goerr \<Rightarrow> goerr option" where
  "Unwrap (ErrorInfo c m w) = w"
| "Unwrap e = None"

text \<open>
  \<open>errors.Is\<close> of Go's library: compare with the target, ask the error's own \<open>Is\<close>
  method, then go on with the wrapped error.
\<close>

fun errors_Is :: "goerr \<Rightarrow> goerr \<Rightarrow> bool" where
  "errors_Is (ErrorInfo c m (Some w)) target =
     (ErrorInfo c m (Some w) = target \<or> Is (ErrorInfo c m (Some w)) target \<or> errors_Is w target)"
| "errors_Is e target = (e = target \<or> Is e target)"

definition NewErr :: "errorCode \<Rightarrow> string \<Rightarrow> goerr" where
  "NewErr code msg = ErrorInfo code msg None"

definition WrapErr :: "errorCode \<Rightarrow> string \<Rightarrow> goerr \<Rightarrow> goerr" where
  "WrapErr code msg e = ErrorInfo code msg (Some e)"

definition NotFoundError :: goerr where
  "NotFoundError = NewErr NotFound ''not-found''"
definition AlreadyExistsError :: goerr where
  "AlreadyExistsError = NewErr AlreadyExists ''already-exists''"
definition DBConflictError :: goerr where
  "DBConflictError = NewErr DBConflict ''db-conflict''"
definition DBProblemError :: goerr where
  "DBProblemError = NewErr DBProblem ''db-problem''"

definition IsNotFoundError :: "goerr \<Rightarrow> bool" where
  "IsNotFoundError e = errors_Is e NotFoundError"
definition IsAlreadyExistsError :: "goerr \<Rightarrow> bool" where
  "IsAlreadyExistsError e = errors_Is e AlreadyExistsError"
definition IsDBConflictError :: "goerr \<Rightarrow> bool" where
  "IsDBConflictError e = errors_Is e DBConflictError"
definition IsDBProblemError :: "goerr \<Rightarrow> bool" where
  "IsDBProblemError e = errors_Is e DBProblemError"

lemmas error_codes = NotFound_def AlreadyExists_def DBConflict_def DBProblem_def
lemmas error_values =
  NotFoundError_def AlreadyExistsError_def DBConflictError_def DBProblemError_def
  NewErr_def WrapErr_def

text \<open>The codes along the chain of wrapped errors.\<close>

fun err_codes :: "goerr \<Rightarrow> errorCode list" where
  "err_codes (ErrorInfo c m (Some w)) = c # err_codes w"
| "err_codes (ErrorInfo c m None) = [c]"
| "err_codes e = []"

lemma errors_Is_code: "errors_Is e (NewErr c m) \<longleftrightarrow> c \<in> set (err_codes e)"
  by (induction e rule: err_codes.induct) (auto simp: NewErr_def)

text \<open>
  The four \<open>Is...Error\<close> predicates decide exactly whether their code occurs along
  the chain of wrapped errors, so wrapping an error never hides the code it carries, and
  the formatting of an error with \<open>%v\<close> hides every code.
\<close>

theorem error_predicates_decide_codes:
  "(IsNotFoundError e \<longleftrightarrow> NotFound \<in> set (err_codes e)) \<and>
   (IsAlreadyExistsError e \<longleftrightarrow> AlreadyExists \<in> set (err_codes e)) \<and>
   (IsDBConflictError e \<longleftrightarrow> DBConflict \<in> set (err_codes e)) \<and>
   (IsDBProblemError e \<longleftrightarrow> DBProblem \<in> set (err_codes e)) \<and>
   err_codes (WrapErr c m e) = c # err_codes e \<and> err_codes (Errorf p e) = []"
  by (simp add: IsNotFoundError_def IsAlreadyExistsError_def IsDBConflictError_def
      IsDBProblemError_def NotFoundError_def AlreadyExistsError_def DBConflictError_def
      DBProblemError_def errors_Is_code WrapErr_def Errorf_def)

lemma IsNotFoundError_simps [simp]:
  "IsNotFoundError NotFoundError"
  "\<not> IsNotFoundError ErrNoRows"
  "\<not> IsNotFoundError (Errorf p e)"
  "\<not> IsNotFoundError (OpaqueError s)"
  by (simp_all add: IsNotFoundError_def error_values Errorf_def)

end
