(* ===== verification/Gossip.thy ===== *)
theory Gossip
  imports GoNet SpecErrors
begin

text \<open>
  The interface of the libraries the program calls and whose code is not part of the
  repository: \<open>code.dogecoin.org/gossip/dnet\<close> and \<open>.../gossip/node\<close>. The structures are
  the ones whose fields the program reads and writes; every function of the libraries is a
  field of the record \<open>gossip\<close>, which the definitions that call it take as an argument.
  Nothing is assumed of these functions here: a property that relies on one names what it
  relies on.
\<close>

type_synonym pubkey = bytes
type_synonym dogetime = int

record address =
  Host :: ip
  Port :: "16 word"

definition zero_address :: address where
  "zero_address = \<lparr>Host = [], Port = 0\<rparr>"

record keyPair =
  Priv :: bytes
  Pub :: pubkey

record rawMessage =
  Header :: bytes
  Payload :: bytes

record message =
  mChan :: tag4cc
  mTag :: tag4cc
  mPubKey :: pubkey
  mSignature :: bytes
  mPayload :: bytes
  mRawHdr :: bytes

record service =
  svcTag :: tag4cc
  svcPort :: "16 word"

record addressMsg =
  amTime :: dogetime
  amAddress :: bytes
  amPort :: "16 word"
  amOwner :: bytes
  amChannels :: "tag4cc list"
  amServices :: "service list"

record bindMessage =
  bmVersion :: byte
  bmChan :: tag4cc
  bmPubKey :: pubkey

text \<open>
  \<open>DecodeAddrMsg\<close> and \<open>DecodeBindMessage\<close> return \<open>None\<close> where the library panics or
  answers not-ok. \<open>ChanCell\<close> is the value SQLite keeps for the text \<open>Tag4CC.String()\<close> in
  a column of INTEGER affinity. Times are nanoseconds since the Unix epoch; \<open>DogeLocal\<close> is
  \<open>DogeTime.Local()\<close> and \<open>UnixToDoge\<close> its counterpart.
\<close>

record gossip =
  ChannelNode :: tag4cc
  DnetChannelNode :: tag4cc
  TagAddress :: tag4cc
  ChannelIdentity :: tag4cc
  ServiceCore :: tag4cc
  DogeNetDefaultPort :: "16 word"
  AddrMsgMinSize :: nat
  BindMessageSize :: nat
  AddressToBytes :: "address \<Rightarrow> bytes"
  AddressFromBytes :: "bytes \<Rightarrow> address \<times> goerr option"
  AddressIsValid :: "address \<Rightarrow> bool"
  AddressEqual :: "address \<Rightarrow> address \<Rightarrow> bool"
  AddressString :: "address \<Rightarrow> string"
  ParseAddress :: "string \<Rightarrow> address \<times> goerr option"
  ChanCell :: "tag4cc \<Rightarrow> string"
  DecodeAddrMsg :: "bytes \<Rightarrow> addressMsg option"
  EncodeAddrMsg :: "addressMsg \<Rightarrow> bytes"
  AddrMsgIsValid :: "addressMsg \<Rightarrow> bool"
  EncodeMessage :: "tag4cc \<Rightarrow> tag4cc \<Rightarrow> keyPair \<Rightarrow> bytes \<Rightarrow> bytes"
  ReEncodeMessage :: "tag4cc \<Rightarrow> tag4cc \<Rightarrow> pubkey \<Rightarrow> bytes \<Rightarrow> bytes \<Rightarrow> rawMessage"
  ViewSignature :: "bytes \<Rightarrow> bytes"
  ViewHeader :: "bytes \<Rightarrow> bytes"
  EncodeBindMessage :: "bindMessage \<Rightarrow> bytes"
  DecodeBindMessage :: "bytes \<Rightarrow> bindMessage option"
  UnixToDoge :: "int \<Rightarrow> dogetime"
  DogeLocal :: "dogetime \<Rightarrow> int"
  KeyPairFromPrivKey :: "bytes \<Rightarrow> keyPair"

section \<open>Time\<close>

text \<open>\<open>time.Duration\<close> and instants are counted in nanoseconds.\<close>

definition Second :: int where "Second = 10 ^ 9"
definition Minute :: int where "Minute = 60 * Second"
definition Hour :: int where "Hour = 60 * Minute"
definition Millisecond :: int where "Millisecond = 10 ^ 6"

text \<open>\<open>time.Time.Unix()\<close>: whole seconds, rounded down.\<close>

definition Unix :: "int \<Rightarrow> int" where
  "Unix t = t div Second"

lemmas time_units = Second_def Minute_def Hour_def Millisecond_def

section \<open>A sample library\<close>

text \<open>
  One concrete value of the interface, used only to show that the hypotheses of properties
  can be met together: a byte codec for addresses and announcements that round-trips on
  16-byte hosts, 32-byte owners and small tags, and headers that carry no information.
\<close>

definition port_bytes :: "16 word \<Rightarrow> bytes" where
  "port_bytes p = [ucast (drop_bit 8 p), ucast p]"

definition bytes_port :: "bytes \<Rightarrow> 16 word" where
  "bytes_port b = word_of_int (uint (b ! 0) * 256 + uint (b ! 1))"

definition sample_encode :: "addressMsg \<Rightarrow> bytes" where
  "sample_encode m = [word_of_int (amTime m)] @ amAddress m @ port_bytes (amPort m) @
     amOwner m @ map ucast (amChannels m)"

definition sample_decode :: "bytes \<Rightarrow> addressMsg option" where
  "sample_decode b =
     (if length b < 51 then None
      else Some \<lparr>amTime = uint (b ! 0), amAddress = take 16 (drop 1 b),
                 amPort = bytes_port (drop 17 b), amOwner = take 32 (drop 19 b),
                 amChannels = map ucast (drop 51 b), amServices = []\<rparr>)"

definition sample_gossip :: gossip where
  "sample_gossip =
     \<lparr>ChannelNode = 1, DnetChannelNode = 1, TagAddress = 2, ChannelIdentity = 3, ServiceCore = 4,
      DogeNetDefaultPort = 42069, AddrMsgMinSize = 51, BindMessageSize = 34,
      AddressToBytes = (\<lambda>a. To16 (Host a) @ port_bytes (Port a)),
      AddressFromBytes = (\<lambda>b. if length b = 18
         then (\<lparr>Host = take 16 b, Port = bytes_port (drop 16 b)\<rparr>, None)
         else (zero_address, Some (OpaqueError ''bad address''))),
      AddressIsValid = (\<lambda>a. Host a \<noteq> []),
      AddressEqual = (\<lambda>a b. ip_Equal (Host a) (Host b) \<and> Port a = Port b),
      AddressString = (\<lambda>a. EncodeToString (Host a @ port_bytes (Port a))),
      ParseAddress = (\<lambda>s. let (b, e) = DecodeString s in
         if e \<or> length b \<noteq> 6 then (zero_address, Some (OpaqueError ''bad address''))
         else (\<lparr>Host = take 4 b, Port = bytes_port (drop 4 b)\<rparr>, None)),
      ChanCell = (\<lambda>t. EncodeToString [ucast t]),
      DecodeAddrMsg = sample_decode, EncodeAddrMsg = sample_encode,
      AddrMsgIsValid = (\<lambda>m. length (amAddress m) = 16 \<and> length (amOwner m) = 32),
      EncodeMessage = (\<lambda>c t k p. replicate 64 9 @ p),
      ReEncodeMessage = (\<lambda>c t k s p. \<lparr>Header = s, Payload = p\<rparr>),
      ViewSignature = take 64, ViewHeader = take 64,
      EncodeBindMessage = (\<lambda>b. bmVersion b # ucast (bmChan b) # bmPubKey b),
      DecodeBindMessage = (\<lambda>b. if length b = 34
         then Some \<lparr>bmVersion = b ! 0, bmChan = ucast (b ! 1), bmPubKey = drop 2 b\<rparr> else None),
      UnixToDoge = (\<lambda>t. 7), DogeLocal = (\<lambda>t. t * Second),
      KeyPairFromPrivKey = (\<lambda>b. \<lparr>Priv = b, Pub = rev b\<rparr>)\<rparr>"

end
