(* ===== verification/DogeSpec.thy ===== *)
theory DogeSpec
  imports Gossip
begin

text \<open>
  The rest of \<open>pkg/spec\<close>: node identifiers, the records that cross component boundaries,
  the messages to the announce service, and the \<open>Store\<close> interface.
\<close>

section \<open>Node identifiers (address.go)\<close>

type_synonym nodeID = bytes

definition NodeIDAddress :: byte where "NodeIDAddress = 1"
definition NodeIDPubKey :: byte where "NodeIDPubKey = 2"

definition NodeID_String :: "nodeID \<Rightarrow> string" where
  "NodeID_String i = EncodeToString i"

definition NodeIDFromAddress :: "address \<Rightarrow> nodeID" where
  "NodeIDFromAddress a =
     (let i0 = replicate 33 0;
          i1 = i0[0 := NodeIDAddress];
          i2 = go_copy i1 1 17 (Host a)
      in PutUint16 i2 17 (Port a))"

definition NodeIDFromKey :: "pubkey \<Rightarrow> nodeID" where
  "NodeIDFromKey key =
     (let i0 = replicate 33 0; i1 = i0[0 := NodeIDPubKey] in go_copy i1 1 33 key)"

lemma length_NodeID [simp]:
  "length (NodeIDFromAddress a) = 33" "length (NodeIDFromKey k) = 33"
  by (simp_all add: NodeIDFromAddress_def NodeIDFromKey_def Let_def length_go_copy)

lemma array33: "(replicate 33 (0::byte))[0 := t] = t # replicate 32 0"
  by (simp add: numeral_eq_Suc)

lemma NodeIDFromKey_eq: "length k = 32 \<Longrightarrow> NodeIDFromKey k = NodeIDPubKey # k"
  by (simp add: NodeIDFromKey_def go_copy_def array33)

lemma NodeIDFromAddress_eq:
  assumes "length (Host a) = 16"
  shows "NodeIDFromAddress a =
    NodeIDAddress # Host a @ [ucast (drop_bit 8 (Port a)), ucast (Port a)] @ replicate 14 0"
proof -
  have "go_copy ((replicate 33 0)[0 := NodeIDAddress]) 1 17 (Host a) =
      (NodeIDAddress # Host a) @ replicate 16 0"
    using assms by (simp add: go_copy_def array33)
  moreover have "length (NodeIDAddress # Host a) = 17"
    using assms by simp
  ultimately show ?thesis
    by (simp add: NodeIDFromAddress_def PutUint16_def list_update_append numeral_eq_Suc)
qed

text \<open>
  Node identifiers are unambiguous. Addresses with 16-byte hosts and 32-byte keys give
  33-byte identifiers, two identifiers of the same kind are equal only for equal arguments,
  an address never shares its identifier with a key, and the printed form decodes back.
\<close>

theorem NodeID_unambiguous:
  assumes "length (Host a) = 16" "length (Host b) = 16" "length k = 32" "length l = 32"
  shows "(NodeIDFromAddress a = NodeIDFromAddress b \<longleftrightarrow> a = b) \<and>
    (NodeIDFromKey k = NodeIDFromKey l \<longleftrightarrow> k = l) \<and>
    NodeIDFromAddress a \<noteq> NodeIDFromKey k \<and>
    DecodeString (NodeID_String (NodeIDFromAddress a)) = (NodeIDFromAddress a, False)"
proof (intro conjI)
  show "NodeIDFromAddress a = NodeIDFromAddress b \<longleftrightarrow> a = b"
  proof
    assume "NodeIDFromAddress a = NodeIDFromAddress b"
    then have "Host a = Host b" and "Port a = Port b"
      using assms uint16_bytes_inj [of "Port a" "Port b"]
      by (simp_all add: NodeIDFromAddress_eq)
    then show "a = b" by simp
  qed simp
qed (use assms in \<open>simp_all add: NodeIDFromAddress_eq NodeIDFromKey_eq NodeIDAddress_def
  NodeIDPubKey_def NodeID_String_def\<close>)

theorem NodeID_unambiguous_witness:
  "NodeIDFromAddress \<lparr>Host = IPv4 10 0 0 1, Port = 22556\<rparr> \<noteq>
     NodeIDFromAddress \<lparr>Host = IPv4 10 0 0 1, Port = 22557\<rparr> \<and>
   NodeIDFromAddress \<lparr>Host = IPv4 10 0 0 1, Port = 22556\<rparr> \<noteq> NodeIDFromKey (replicate 32 7)"
  using NodeID_unambiguous [of "\<lparr>Host = IPv4 10 0 0 1, Port = 22556\<rparr>"
      "\<lparr>Host = IPv4 10 0 0 1, Port = 22557\<rparr>" "replicate 32 7" "replicate 32 8"]
  by (simp add: IPv4_def)

section \<open>Node records (nodeinfo.go, json.go, announce.go)\<close>

record nodeInfo =
  niPubKey :: pubkey
  niAddr :: address

definition NodeInfo_IsValid :: "gossip \<Rightarrow> nodeInfo \<Rightarrow> bool" where
  "NodeInfo_IsValid G n = AddressIsValid G (niAddr n)"

definition zero_nodeInfo :: nodeInfo where
  "zero_nodeInfo = \<lparr>niPubKey = replicate 32 0, niAddr = zero_address\<rparr>"

record nodeRecord =
  nrPubKey :: bytes
  nrPayload :: bytes
  nrSig :: bytes

definition NodeRecord_IsValid :: "nodeRecord \<Rightarrow> bool" where
  "NodeRecord_IsValid n = (length (nrPayload n) > 0)"

record netNode =
  nnPubKey :: string
  nnAddress :: string
  nnIdentity :: string

record bindTo =
  Network :: string
  BindAddress :: string

datatype change =
    ChangePublicAddress address
  | ChangeOwnerKey pubkey
  | ChangeChannel tag4cc
  | InvalidChange

section \<open>The Store interface (store.go)\<close>

definition SecondsPerDay :: int where
  "SecondsPerDay = 24 * 60 * 60"

text \<open>
  A value of the interface type \<open>Store\<close>, over the state \<open>'s\<close> the implementation
  changes. Every method returns the results of the Go method and the new state, or \<open>None\<close>
  where the call never returns.
\<close>

record 's store =
  st_NetStats :: "'s \<Rightarrow> ((int \<times> goerr option) \<times> 's) option"
  st_NodeList :: "'s \<Rightarrow> ((netNode list \<times> goerr option) \<times> 's) option"
  st_TrimNodes :: "'s \<Rightarrow> ((bool \<times> int \<times> goerr option) \<times> 's) option"
  st_GetAnnounce :: "'s \<Rightarrow> ((bytes \<times> bytes \<times> int \<times> bytes \<times> goerr option) \<times> 's) option"
  st_SetAnnounce :: "bytes \<Rightarrow> bytes \<Rightarrow> int \<Rightarrow> 's \<Rightarrow> (goerr option \<times> 's) option"
  st_SetAnnounceOwner :: "bytes \<Rightarrow> 's \<Rightarrow> (goerr option \<times> 's) option"
  st_AddNetNode :: "bytes \<Rightarrow> address \<Rightarrow> int \<Rightarrow> bytes \<Rightarrow> tag4cc list \<Rightarrow> bytes \<Rightarrow> bytes \<Rightarrow>
    's \<Rightarrow> ((bool \<times> goerr option) \<times> 's) option"
  st_UpdateNetTime :: "bytes \<Rightarrow> 's \<Rightarrow> (goerr option \<times> 's) option"
  st_ChooseNetNode :: "'s \<Rightarrow> ((nodeInfo \<times> goerr option) \<times> 's) option"
  st_ChooseNetNodeMsg :: "'s \<Rightarrow> ((nodeRecord \<times> goerr option) \<times> 's) option"
  st_SampleNodesByChannel :: "tag4cc list \<Rightarrow> bytes list \<Rightarrow>
    's \<Rightarrow> ((nodeInfo list \<times> goerr option) \<times> 's) option"
  st_SampleNodesByIP :: "ip \<Rightarrow> bytes list \<Rightarrow>
    's \<Rightarrow> ((nodeInfo list \<times> goerr option) \<times> 's) option"
  st_GetChannels :: "'s \<Rightarrow> ((tag4cc list \<times> goerr option) \<times> 's) option"
  st_AddChannel :: "tag4cc \<Rightarrow> 's \<Rightarrow> (goerr option \<times> 's) option"

section \<open>The NetSvc interface (netsvc.go)\<close>

text \<open>
  What the web API relies on when it calls \<open>AddPeer\<close>: the peer joins the end of a queue of
  ten places, or the call waits (\<open>None\<close>). \<open>pending\<close> reads the queue of the service and
  \<open>with_pending\<close> replaces it, leaving the rest of the service as it is.
\<close>

locale net_svc =
  fixes add_peer :: "nodeInfo \<Rightarrow> 'n \<Rightarrow> 'n option"
    and pending :: "'n \<Rightarrow> nodeInfo list"
    and with_pending :: "nodeInfo list \<Rightarrow> 'n \<Rightarrow> 'n"
  assumes add_law: "add_peer np n =
      (if length (pending n) < 10 then Some (with_pending (pending n @ [np]) n) else None)"
    and pending_law: "pending (with_pending q n) = q"
begin

lemma add_blocks: "add_peer np n = None \<longleftrightarrow> 10 \<le> length (pending n)"
  by (simp add: add_law not_less)

lemma add_pending: "add_peer np n = Some n' \<Longrightarrow> pending n' = pending n @ [np] \<and> length (pending n') \<le> 10"
  by (auto simp: add_law pending_law split: if_splits)

end

end
