(* ===== verification/SqliteDb.thy ===== *)
theory SqliteDb
  imports DogeSpec
begin

text \<open>
  The database of \<open>internal/store/sqlite.go\<close>: its tables as lists of rows, and one
  definition per SQL statement of the source, giving the statement's result or the error
  SQLite answers with. The constraints of the schema (primary keys, NOT NULL) are checked
  where a statement can violate them. The order of the rows is the order of insertion.
\<close>

section \<open>Tables (SQL_SCHEMA)\<close>

record announceRow =
  anPayload :: bytes
  anSig :: bytes
  anTime :: int
  anOwner :: "bytes option"

record nodeRow =
  ndOid :: int
  ndKey :: bytes
  ndAddress :: bytes
  ndTime :: int
  ndOwner :: bytes
  ndPayload :: bytes
  ndSig :: bytes
  ndDayc :: int

record db =
  schema :: bool
  ownerCol :: bool
  migration :: "int list"
  config :: "(int \<times> int) list"
  announce :: "announceRow list"
  channels :: "(tag4cc \<times> int) list"
  node :: "nodeRow list"
  chan :: "(int \<times> string) list"

definition empty_db :: db where
  "empty_db = \<lparr>schema = False, ownerCol = False, migration = [], config = [],
     announce = [], channels = [], node = [], chan = []\<rparr>"

type_synonym 'a stmt = "db \<Rightarrow> goerr + ('a \<times> db)"

definition no_such_table :: goerr where
  "no_such_table = SqliteError (ErrCode 1) ''no such table''"

definition no_such_column :: goerr where
  "no_such_column = SqliteError (ErrCode 1) ''no such column''"

definition constraint_failed :: goerr where
  "constraint_failed = SqliteError ErrConstraint ''constraint failed''"

definition table :: "'a stmt \<Rightarrow> 'a stmt" where
  "table f = (\<lambda>d. if schema d then f d else Inl no_such_table)"

text \<open>\<open>(SELECT dayc FROM config LIMIT 1)\<close>; \<open>None\<close> is SQL's NULL.\<close>

definition config_dayc :: "db \<Rightarrow> int option" where
  "config_dayc d = map_option fst (case config d of [] \<Rightarrow> None | c # _ \<Rightarrow> Some c)"

section \<open>Schema and migrations\<close>

definition sql_select_version :: "int stmt" where
  "sql_select_version = table (\<lambda>d. case migration d of [] \<Rightarrow> Inl ErrNoRows | v # _ \<Rightarrow> Inr (v, d))"

definition sql_schema :: "unit stmt" where
  "sql_schema = (\<lambda>d. Inr ((), d\<lparr>schema := True\<rparr>))"

definition sql_insert_version :: "int \<Rightarrow> unit stmt" where
  "sql_insert_version v = table (\<lambda>d. Inr ((), d\<lparr>migration := migration d @ [v]\<rparr>))"

definition sql_update_version :: "int \<Rightarrow> unit stmt" where
  "sql_update_version v = table (\<lambda>d. Inr ((), d\<lparr>migration := map (\<lambda>_. v) (migration d)\<rparr>))"

definition sql_select_config_dayc :: "int stmt" where
  "sql_select_config_dayc =
     table (\<lambda>d. case config d of [] \<Rightarrow> Inl ErrNoRows | (c, _) # _ \<Rightarrow> Inr (c, d))"

definition sql_insert_config :: "int \<Rightarrow> unit stmt" where
  "sql_insert_config today = table (\<lambda>d. Inr ((), d\<lparr>config := config d @ [(1, today)]\<rparr>))"

definition sql_migration_v2 :: "unit stmt" where
  "sql_migration_v2 =
     table (\<lambda>d. if ownerCol d then Inl (SqliteError (ErrCode 1) ''duplicate column name: owner'')
                else Inr ((), d\<lparr>ownerCol := True,
                                announce := map (\<lambda>r. r\<lparr>anOwner := None\<rparr>) (announce d)\<rparr>))"

definition MIGRATIONS :: "(int \<times> unit stmt) list" where
  "MIGRATIONS = [(2, sql_migration_v2)]"

section \<open>The day counter\<close>

definition sql_select_config :: "(int \<times> int) stmt" where
  "sql_select_config = table (\<lambda>d. case config d of [] \<Rightarrow> Inl ErrNoRows | c # _ \<Rightarrow> Inr (c, d))"

definition sql_update_config :: "int \<Rightarrow> int \<Rightarrow> unit stmt" where
  "sql_update_config dayc today =
     table (\<lambda>d. Inr ((), d\<lparr>config := map (\<lambda>_. (dayc, today)) (config d)\<rparr>))"

definition sql_expire_nodes :: "int \<Rightarrow> int stmt" where
  "sql_expire_nodes dayc =
     table (\<lambda>d. Inr (int (length (filter (\<lambda>r. ndDayc r < dayc) (node d))),
                     d\<lparr>node := filter (\<lambda>r. \<not> ndDayc r < dayc) (node d)\<rparr>))"

definition sql_expire_channels :: "int \<Rightarrow> int stmt" where
  "sql_expire_channels dayc =
     table (\<lambda>d. Inr (int (length (filter (\<lambda>(c, k). k < dayc) (channels d))),
                     d\<lparr>channels := filter (\<lambda>(c, k). \<not> k < dayc) (channels d)\<rparr>))"

section \<open>The announcement\<close>

definition sql_select_announce :: "announceRow stmt" where
  "sql_select_announce =
     table (\<lambda>d. if \<not> ownerCol d then Inl no_such_column
                else case announce d of [] \<Rightarrow> Inl ErrNoRows | a # _ \<Rightarrow> Inr (a, d))"

definition sql_update_announce :: "bytes \<Rightarrow> bytes \<Rightarrow> int \<Rightarrow> int stmt" where
  "sql_update_announce p s t =
     table (\<lambda>d. Inr (int (length (announce d)),
        d\<lparr>announce := map (\<lambda>r. r\<lparr>anPayload := p, anSig := s, anTime := t\<rparr>) (announce d)\<rparr>))"

text \<open>
  SQLite refuses an INSERT whose VALUES list has another length than its column list; the
  column names and the value expressions are the ones of the statement's text.
\<close>

definition insert_arity :: "string list \<Rightarrow> string list \<Rightarrow> 'a stmt \<Rightarrow> 'a stmt" where
  "insert_arity cols vals f =
     (if length cols = length vals then f
      else (\<lambda>d. Inl (SqliteError (ErrCode 1) ''values and columns differ in number'')))"

definition sql_insert_announce :: "bytes \<Rightarrow> bytes \<Rightarrow> int \<Rightarrow> unit stmt" where
  "sql_insert_announce p s t =
     table (insert_arity [''payload'', ''sig'', ''time'', ''owner''] [''?'', ''?'', ''?'']
       (\<lambda>d. Inr ((), d\<lparr>announce := announce d @
          [\<lparr>anPayload = p, anSig = s, anTime = t, anOwner = None\<rparr>]\<rparr>)))"

definition sql_update_owner :: "bytes \<Rightarrow> int stmt" where
  "sql_update_owner ow =
     table (\<lambda>d. if \<not> ownerCol d then Inl no_such_column
                else Inr (int (length (announce d)),
                          d\<lparr>announce := map (\<lambda>r. r\<lparr>anOwner := Some ow\<rparr>) (announce d)\<rparr>))"

definition sql_insert_owner :: "bytes \<Rightarrow> unit stmt" where
  "sql_insert_owner ow =
     table (insert_arity [''payload'', ''sig'', ''time'', ''owner''] [''?'', ''?'', ''?'', ''?'']
       (\<lambda>d. if \<not> ownerCol d then Inl no_such_column
            else Inr ((), d\<lparr>announce := announce d @
              [\<lparr>anPayload = [], anSig = [], anTime = 0, anOwner = Some ow\<rparr>]\<rparr>)))"

section \<open>Registered channels\<close>

definition sql_select_channels :: "db \<Rightarrow> goerr + tag4cc list" where
  "sql_select_channels d = (if schema d then Inr (map fst (channels d)) else Inl no_such_table)"

definition sql_update_channel :: "tag4cc \<Rightarrow> int stmt" where
  "sql_update_channel ch =
     table (\<lambda>d. if ch \<notin> fst ` set (channels d) then Inr (0, d)
                else case config_dayc d of
                  None \<Rightarrow> Inl constraint_failed
                | Some k \<Rightarrow>
                    Inr (int (length (filter (\<lambda>(c, _). c = ch) (channels d))),
                         d\<lparr>channels := map (\<lambda>(c, x). if c = ch then (c, 7 + k) else (c, x))
                                         (channels d)\<rparr>))"

definition sql_insert_channel :: "tag4cc \<Rightarrow> unit stmt" where
  "sql_insert_channel ch =
     table (\<lambda>d. if ch \<in> fst ` set (channels d) then Inl constraint_failed
                else case config_dayc d of
                  None \<Rightarrow> Inl constraint_failed
                | Some k \<Rightarrow> Inr ((), d\<lparr>channels := channels d @ [(ch, 7 + k)]\<rparr>))"

section \<open>Nodes\<close>

definition sql_count_nodes :: "int stmt" where
  "sql_count_nodes = table (\<lambda>d. Inr (int (length (node d)), d))"

definition sql_select_nodes :: "db \<Rightarrow> goerr + (bytes \<times> bytes \<times> bytes) list" where
  "sql_select_nodes d =
     (if schema d then Inr (map (\<lambda>r. (ndKey r, ndAddress r, ndOwner r)) (node d))
      else Inl no_such_table)"

definition sql_select_node :: "bytes \<Rightarrow> (int \<times> bytes) stmt" where
  "sql_select_node key =
     table (\<lambda>d. case find (\<lambda>r. ndKey r = key) (node d) of
                  None \<Rightarrow> Inl ErrNoRows
                | Some r \<Rightarrow> Inr ((ndOid r, ndPayload r), d))"

text \<open>The rowid SQLite gives a new row of a table without AUTOINCREMENT.\<close>

definition next_oid :: "db \<Rightarrow> int" where
  "next_oid d = fold max (map ndOid (node d)) 0 + 1"

definition sql_insert_node ::
  "bytes \<Rightarrow> bytes \<Rightarrow> int \<Rightarrow> bytes \<Rightarrow> bytes \<Rightarrow> bytes \<Rightarrow> int stmt" where
  "sql_insert_node key addr time owner payload sig =
     table (\<lambda>d. if key \<in> ndKey ` set (node d) then Inl constraint_failed
                else case config_dayc d of
                  None \<Rightarrow> Inl constraint_failed
                | Some k \<Rightarrow> Inr (next_oid d, d\<lparr>node := node d @
                    [\<lparr>ndOid = next_oid d, ndKey = key, ndAddress = addr, ndTime = time,
                      ndOwner = owner, ndPayload = payload, ndSig = sig, ndDayc = 30 + k\<rparr>]\<rparr>))"

definition sql_update_node ::
  "bytes \<Rightarrow> int \<Rightarrow> bytes \<Rightarrow> bytes \<Rightarrow> bytes \<Rightarrow> bytes \<Rightarrow> unit stmt" where
  "sql_update_node addr time owner payload sig key =
     table (\<lambda>d. if key \<notin> ndKey ` set (node d) then Inr ((), d)
                else case config_dayc d of
                  None \<Rightarrow> Inl constraint_failed
                | Some k \<Rightarrow> Inr ((), d\<lparr>node := map (\<lambda>r. if ndKey r = key
                    then r\<lparr>ndAddress := addr, ndTime := time, ndOwner := owner,
                           ndPayload := payload, ndSig := sig, ndDayc := 30 + k\<rparr>
                    else r) (node d)\<rparr>))"

definition sql_touch_node :: "bytes \<Rightarrow> unit stmt" where
  "sql_touch_node key =
     table (\<lambda>d. if key \<notin> ndKey ` set (node d) then Inr ((), d)
                else case config_dayc d of
                  None \<Rightarrow> Inl constraint_failed
                | Some k \<Rightarrow> Inr ((), d\<lparr>node := map (\<lambda>r. if ndKey r = key
                    then r\<lparr>ndDayc := 30 + k\<rparr> else r) (node d)\<rparr>))"

definition sql_delete_chan :: "int \<Rightarrow> unit stmt" where
  "sql_delete_chan oid =
     table (\<lambda>d. Inr ((), d\<lparr>chan := filter (\<lambda>(n, _). n \<noteq> oid) (chan d)\<rparr>))"

definition sql_insert_chan :: "int \<Rightarrow> string \<Rightarrow> unit stmt" where
  "sql_insert_chan oid cell =
     table (\<lambda>d. if (oid, cell) \<in> set (chan d) then Inl constraint_failed
                else Inr ((), d\<lparr>chan := chan d @ [(oid, cell)]\<rparr>))"

text \<open>\<open>ORDER BY RANDOM() LIMIT 1\<close>: the engine's random number picks the row.\<close>

definition sql_random_node :: "nat \<Rightarrow> nodeRow stmt" where
  "sql_random_node rnd =
     table (\<lambda>d. if node d = [] then Inl ErrNoRows
                else Inr (node d ! (rnd mod length (node d)), d))"

lemmas stmt_defs = table_def sql_select_version_def sql_schema_def sql_insert_version_def
  sql_update_version_def sql_select_config_dayc_def sql_insert_config_def sql_migration_v2_def
  sql_select_config_def sql_update_config_def sql_expire_nodes_def sql_expire_channels_def
  sql_select_announce_def sql_update_announce_def sql_insert_announce_def insert_arity_def
  sql_update_owner_def sql_insert_owner_def sql_select_channels_def sql_update_channel_def
  sql_insert_channel_def sql_count_nodes_def sql_select_nodes_def sql_select_node_def
  sql_insert_node_def sql_update_node_def sql_touch_node_def sql_delete_chan_def
  sql_insert_chan_def sql_random_node_def

section \<open>Well-formed databases\<close>

text \<open>
  What the schema's keys and the initialisation guarantee: primary keys are distinct, rowids
  are distinct and positive, and an initialised database has one migration row, one
  configuration row and at most one announcement.
\<close>

definition wf_db :: "db \<Rightarrow> bool" where
  "wf_db d \<longleftrightarrow>
     distinct (map ndKey (node d)) \<and> distinct (map ndOid (node d)) \<and>
     (\<forall>r\<in>set (node d). 0 < ndOid r) \<and>
     distinct (map fst (channels d)) \<and> distinct (chan d) \<and>
     length (announce d) \<le> 1"

definition ready :: "db \<Rightarrow> bool" where
  "ready d \<longleftrightarrow> schema d \<and> ownerCol d \<and> migration d = [2] \<and> length (config d) = 1"

lemma wf_empty_db [simp]: "wf_db empty_db"
  by (simp add: wf_db_def empty_db_def)

lemma ready_config: "ready d \<Longrightarrow> \<exists>k l. config d = [(k, l)]"
  by (auto simp: ready_def length_Suc_conv)

lemma ready_config_dayc: "ready d \<Longrightarrow> \<exists>k. config_dayc d = Some k"
  using ready_config by (fastforce simp: config_dayc_def)

lemma fold_max_ge: "fold max xs (a::int) \<ge> a" and fold_max_ub: "x \<in> set xs \<Longrightarrow> x \<le> fold max xs a"
  by (induction xs arbitrary: a) (auto, (meson max.cobounded1 max.cobounded2 order.trans)+)

lemma next_oid_fresh: "next_oid d \<notin> ndOid ` set (node d)" and next_oid_pos: "0 < next_oid d"
proof -
  have "\<forall>x\<in>set (map ndOid (node d)). x < next_oid d"
    unfolding next_oid_def using fold_max_ub [of _ "map ndOid (node d)" 0]
    by (meson zle_add1_eq_le)
  then show "next_oid d \<notin> ndOid ` set (node d)" by force
  show "0 < next_oid d"
    using fold_max_ge [of 0 "map ndOid (node d)"] by (simp add: next_oid_def)
qed

section \<open>Statements keep well-formedness\<close>

definition stmt_keeps :: "(db \<Rightarrow> bool) \<Rightarrow> 'a stmt \<Rightarrow> bool" where
  "stmt_keeps P f \<longleftrightarrow> (\<forall>d a d'. P d \<longrightarrow> f d = Inr (a, d') \<longrightarrow> P d')"

lemma map_ndKey_update [simp]:
  "(\<And>r. ndKey (f r) = ndKey r) \<Longrightarrow> map (ndKey \<circ> (\<lambda>r. if c r then f r else r)) xs = map ndKey xs"
  "(\<And>r. ndOid (f r) = ndOid r) \<Longrightarrow> map (ndOid \<circ> (\<lambda>r. if c r then f r else r)) xs = map ndOid xs"
  by auto

lemma map_fst_case [simp]:
  "map (fst \<circ> (\<lambda>(c, x). if c = ch then (c, k) else (c, x))) xs = map fst xs"
  by auto

lemma stmt_keeps_wf [db_keeps]:
  "stmt_keeps wf_db sql_select_version" "stmt_keeps wf_db sql_schema"
  "stmt_keeps wf_db (sql_insert_version v)" "stmt_keeps wf_db (sql_update_version v)"
  "stmt_keeps wf_db sql_select_config_dayc" "stmt_keeps wf_db (sql_insert_config t)"
  "stmt_keeps wf_db sql_migration_v2" "stmt_keeps wf_db sql_select_config"
  "stmt_keeps wf_db (sql_update_config c t)" "stmt_keeps wf_db (sql_expire_nodes c)"
  "stmt_keeps wf_db (sql_expire_channels c)" "stmt_keeps wf_db sql_select_announce"
  "stmt_keeps wf_db (sql_update_announce p s t)" "stmt_keeps wf_db (sql_insert_announce p s t)"
  "stmt_keeps wf_db (sql_update_owner ow)"
  "stmt_keeps wf_db (sql_update_channel ch)" "stmt_keeps wf_db (sql_insert_channel ch)"
  "stmt_keeps wf_db sql_count_nodes" "stmt_keeps wf_db (sql_select_node key)"
  "stmt_keeps wf_db (sql_update_node ad t ow pl sg key)" "stmt_keeps wf_db (sql_touch_node key)"
  "stmt_keeps wf_db (sql_delete_chan i)" "stmt_keeps wf_db (sql_insert_chan i cell)"
  "stmt_keeps wf_db (sql_random_node rnd)"
  by (auto simp: stmt_keeps_def stmt_defs wf_db_def distinct_map_filter
      split: list.splits option.splits if_splits)

lemma stmt_keeps_insert_node [db_keeps]:
  "stmt_keeps wf_db (sql_insert_node key ad t ow pl sg)"
  using next_oid_fresh next_oid_pos
  by (fastforce simp: stmt_keeps_def stmt_defs wf_db_def split: option.splits if_splits)

end
