(* ===== verification/StoreTxn.thy ===== *)
theory StoreTxn
  imports SqliteDb
begin

text \<open>
  Transactions (\<open>doTxn\<close>, \<open>IsConflict\<close>, \<open>dbErr\<close> of \<open>internal/store/sqlite.go\<close>). The driver
  may fail any call: a schedule of faults says which calls fail and how, in the order the
  calls are made (\<open>Begin\<close>, every statement, \<open>rows.Err\<close>, \<open>Commit\<close>); when it is used up no
  call fails. A transaction works on a copy of the tables, which \<open>Commit\<close> makes durable.
\<close>

section \<open>Driver calls\<close>

text \<open>
  \<open>Fault c s n\<close>: the call fails with the \<open>sqlite3.Error\<close> of code \<open>c\<close> and text \<open>s\<close>; a row
  iteration has delivered \<open>n\<close> rows before.
\<close>

datatype fault = NoFault | Fault sqlite_code string nat

type_synonym tx = "db \<times> fault list"
type_synonym 'r work = "'r \<Rightarrow> tx \<Rightarrow> goerr option \<times> 'r \<times> tx"

fun next_fault :: "fault list \<Rightarrow> (goerr \<times> nat) option \<times> fault list" where
  "next_fault [] = (None, [])"
| "next_fault (NoFault # fs) = (None, fs)"
| "next_fault (Fault c s n # fs) = (Some (SqliteError c s, n), fs)"

definition exec_sql :: "'a stmt \<Rightarrow> tx \<Rightarrow> (goerr + 'a) \<times> tx" where
  "exec_sql f tx =
     (case next_fault (snd tx) of
        (Some (e, _), fs) \<Rightarrow> (Inl e, fst tx, fs)
      | (None, fs) \<Rightarrow>
          (case f (fst tx) of
             Inl e \<Rightarrow> (Inl e, fst tx, fs)
           | Inr (a, d) \<Rightarrow> (Inr a, d, fs)))"

text \<open>
  \<open>tx.Query\<close> followed by the loop over \<open>rows.Next()\<close>: the rows delivered, and what
  \<open>rows.Err()\<close> answers after the loop.
\<close>

definition query_rows :: "(db \<Rightarrow> goerr + 'a list) \<Rightarrow> tx \<Rightarrow> (goerr + 'a list \<times> goerr option) \<times> tx" where
  "query_rows q tx =
     (case exec_sql (\<lambda>d. map_sum id (\<lambda>rs. (rs, d)) (q d)) tx of
        (Inl e, tx') \<Rightarrow> (Inl e, tx')
      | (Inr rs, d, fs) \<Rightarrow>
          (case next_fault fs of
             (None, fs') \<Rightarrow> (Inr (rs, None), d, fs')
           | (Some (e, n), fs') \<Rightarrow> (Inr (take n rs, Some e), d, fs')))"

text \<open>
  Bodies of transactions: \<open>return nil\<close>, \<open>return err\<close>, an assignment to a captured variable,
  a statement with its error branch and its continuation, a query with its row loop.
\<close>

definition ret_ok :: "'r work" where
  "ret_ok = (\<lambda>r tx. (None, r, tx))"

definition ret_err :: "goerr \<Rightarrow> 'r work" where
  "ret_err e = (\<lambda>r tx. (Some e, r, tx))"

definition assign :: "('r \<Rightarrow> 'r) \<Rightarrow> 'r work \<Rightarrow> 'r work" where
  "assign f k = (\<lambda>r tx. k (f r) tx)"

definition on_sql :: "'a stmt \<Rightarrow> (goerr \<Rightarrow> 'r work) \<Rightarrow> ('a \<Rightarrow> 'r work) \<Rightarrow> 'r work" where
  "on_sql f h k = (\<lambda>r tx. case exec_sql f tx of
       (Inl e, tx') \<Rightarrow> h e r tx'
     | (Inr a, tx') \<Rightarrow> k a r tx')"

definition on_rows :: "(db \<Rightarrow> goerr + 'a list) \<Rightarrow> (goerr \<Rightarrow> 'r work) \<Rightarrow>
    ('a list \<times> goerr option \<Rightarrow> 'r work) \<Rightarrow> 'r work" where
  "on_rows q h k = (\<lambda>r tx. case query_rows q tx of
       (Inl e, tx') \<Rightarrow> h e r tx'
     | (Inr a, tx') \<Rightarrow> k a r tx')"

lemmas work_defs = ret_ok_def ret_err_def assign_def on_sql_def on_rows_def

section \<open>Errors\<close>

definition IsConflict :: "goerr \<Rightarrow> bool" where
  "IsConflict e = (case e of SqliteError c _ \<Rightarrow> c = ErrBusy \<or> c = ErrLocked | _ \<Rightarrow> False)"

definition dbErr :: "goerr \<Rightarrow> string \<Rightarrow> goerr" where
  "dbErr e loc =
     (if errors_Is e NotFoundError then e
      else case e of
        SqliteError c _ \<Rightarrow>
          if c = ErrConstraint then WrapErr AlreadyExists ''SQLiteStore: already-exists'' e
          else if c = ErrBusy \<or> c = ErrLocked then WrapErr DBConflict ''SQLiteStore: db-conflict'' e
          else WrapErr DBProblem (''SQLiteStore: db-problem: '' @ loc) e
      | _ \<Rightarrow> WrapErr DBProblem (''SQLiteStore: db-problem: '' @ loc) e)"

lemma IsConflict_simps [simp]:
  "\<not> IsConflict (ErrorInfo c m w)" "\<not> IsConflict ErrNoRows" "\<not> IsConflict (OpaqueError s)"
  "\<not> IsConflict (Errorf p e)" "\<not> IsConflict (WrapErr c m e)" "\<not> IsConflict NotFoundError"
  "\<not> IsConflict constraint_failed" "\<not> IsConflict no_such_table" "\<not> IsConflict no_such_column"
  "\<not> IsConflict (dbErr e p)"
  by (auto simp: IsConflict_def Errorf_def error_values constraint_failed_def dbErr_def
      no_such_table_def no_such_column_def split: goerr.splits)

section \<open>doTxn\<close>

text \<open>
  The state of a store: the durable tables, the faults to come, the clock
  (\<open>time.Now().Unix()\<close>) and the engine's random number, both constant during a call.
\<close>

record world =
  disk :: db
  faults :: "fault list"
  unixNow :: int
  rnd :: nat

text \<open>
  The loop of \<open>doTxn\<close>. \<open>held\<close> says that an earlier attempt of this call still holds its
  transaction open: \<open>defer tx.Rollback()\<close> runs when \<open>doTxn\<close> returns, not when the loop
  goes round. The pool has a single connection (\<open>db.SetMaxOpenConns(1)\<close>), so \<open>Begin\<close> then
  waits for ever (\<open>None\<close>). A failed \<open>Commit\<close> ends its transaction.
\<close>

fun doTxn_loop :: "nat \<Rightarrow> bool \<Rightarrow> string \<Rightarrow> 'r work \<Rightarrow> 'r \<Rightarrow> world \<Rightarrow>
    (goerr option \<times> 'r \<times> world) option" where
  "doTxn_loop 0 held name work r w = None"
| "doTxn_loop (Suc limit) held name work r w =
     (if held then None
      else case next_fault (faults w) of
        (Some (e, _), fs) \<Rightarrow>
          (if IsConflict e \<and> limit \<noteq> 0
           then doTxn_loop limit False name work r (w\<lparr>faults := fs\<rparr>)
           else Some (Some (dbErr e (''cannot begin transaction: '' @ name)), r, w\<lparr>faults := fs\<rparr>))
      | (None, fs) \<Rightarrow>
          (case work r (disk w, fs) of
             (Some e, r', _, fs') \<Rightarrow>
               (if IsConflict e \<and> limit \<noteq> 0
                then doTxn_loop limit True name work r' (w\<lparr>faults := fs'\<rparr>)
                else Some (Some e, r', w\<lparr>faults := fs'\<rparr>))
           | (None, r', d, fs') \<Rightarrow>
               (case next_fault fs' of
                  (Some (e, _), fs'') \<Rightarrow>
                    (if IsConflict e \<and> limit \<noteq> 0
                     then doTxn_loop limit False name work r' (w\<lparr>faults := fs''\<rparr>)
                     else Some (Some (dbErr e (''cannot commit: '' @ name)), r', w\<lparr>faults := fs''\<rparr>))
                | (None, fs'') \<Rightarrow> Some (None, r', w\<lparr>disk := d, faults := fs''\<rparr>))))"

definition doTxn :: "string \<Rightarrow> 'r work \<Rightarrow> 'r \<Rightarrow> world \<Rightarrow> (goerr option \<times> 'r \<times> world) option" where
  "doTxn name work r w = doTxn_loop 120 False name work r w"

section \<open>What a transaction guarantees\<close>

lemma doTxn_loop_result:
  assumes "doTxn_loop n held name work r w = Some (e, r', w')" and "I r"
    and "\<And>r0 fs. I r0 \<Longrightarrow> I (fst (snd (work r0 (disk w, fs))))"
  shows "(case e of None \<Rightarrow> (\<exists>r0 fs fs'. I r0 \<and> work r0 (disk w, fs) = (None, r', disk w', fs'))
                  | Some _ \<Rightarrow> I r' \<and> disk w' = disk w) \<and>
         unixNow w' = unixNow w \<and> rnd w' = rnd w"
  using assms
proof (induction n arbitrary: held r w)
  case (Suc limit)
  obtain x fs where nf: "next_fault (faults w) = (x, fs)" by fastforce
  obtain y r1 d fs1 where wk: "work r (disk w, fs) = (y, r1, d, fs1)"
    by (metis prod_cases4)
  obtain z fs2 where nf1: "next_fault fs1 = (z, fs2)" by fastforce
  have held: "\<not> held" using Suc.prems by (simp split: if_splits)
  have I1: "I r1" using Suc.prems(3) [OF Suc.prems(2), of fs] wk by simp
  show ?case
  proof (cases x)
    case (Some x')
    then show ?thesis
      using Suc.prems Suc.IH [of False r "w\<lparr>faults := fs\<rparr>"] held nf
      by (auto split: if_splits prod.splits option.splits)
  next
    case None
    note x = None
    show ?thesis
    proof (cases y)
      case (Some y')
      then show ?thesis
        using Suc.prems Suc.IH [of True r1 "w\<lparr>faults := fs1\<rparr>"] held nf x wk I1
        by (auto split: if_splits option.splits)
    next
      case None
      then show ?thesis
        using Suc.prems Suc.IH [of False r1 "w\<lparr>faults := fs2\<rparr>"] held nf x wk nf1 I1
        by (cases z) (auto split: if_splits prod.splits option.splits, blast)
    qed
  qed
qed simp

lemma doTxn_result:
  assumes "doTxn name work r w = Some (e, r', w')" and "I r"
    and "\<And>r0 fs. I r0 \<Longrightarrow> I (fst (snd (work r0 (disk w, fs))))"
  shows "(case e of None \<Rightarrow> (\<exists>r0 fs fs'. I r0 \<and> work r0 (disk w, fs) = (None, r', disk w', fs'))
                  | Some _ \<Rightarrow> I r' \<and> disk w' = disk w)"
  using doTxn_loop_result [OF assms(1) [unfolded doTxn_def] assms(2,3)] by blast

lemma doTxn_frame:
  "doTxn name work r w = Some (e, r', w') \<Longrightarrow> unixNow w' = unixNow w \<and> rnd w' = rnd w"
  unfolding doTxn_def by (drule doTxn_loop_result [where I = "\<lambda>_. True"]) auto

lemma doTxn_error: "doTxn name work r w = Some (Some e, r', w') \<Longrightarrow> disk w' = disk w"
  by (drule doTxn_result [where I = "\<lambda>_. True"]) auto

lemma doTxn_committed:
  "doTxn name work r w = Some (None, r', w') \<Longrightarrow>
   \<exists>r0 fs fs'. work r0 (disk w, fs) = (None, r', disk w', fs')"
  by (drule doTxn_result [where I = "\<lambda>_. True"]) auto

text \<open>The first attempt, with the numeral of the retry limit unfolded.\<close>

lemma doTxn_first:
  "doTxn name work r w =
     (case next_fault (faults w) of
        (Some (e, _), fs) \<Rightarrow>
          (if IsConflict e then doTxn_loop 119 False name work r (w\<lparr>faults := fs\<rparr>)
           else Some (Some (dbErr e (''cannot begin transaction: '' @ name)), r, w\<lparr>faults := fs\<rparr>))
      | (None, fs) \<Rightarrow>
          (case work r (disk w, fs) of
             (Some e, r', _, fs') \<Rightarrow>
               (if IsConflict e then None else Some (Some e, r', w\<lparr>faults := fs'\<rparr>))
           | (None, r', d, fs') \<Rightarrow>
               (case next_fault fs' of
                  (Some (e, _), fs'') \<Rightarrow>
                    (if IsConflict e then doTxn_loop 119 False name work r' (w\<lparr>faults := fs''\<rparr>)
                     else Some (Some (dbErr e (''cannot commit: '' @ name)), r', w\<lparr>faults := fs''\<rparr>))
                | (None, fs'') \<Rightarrow> Some (None, r', w\<lparr>disk := d, faults := fs''\<rparr>))))"
proof -
  have l: "(120::nat) = Suc 119" "(119::nat) = Suc 118" by simp_all
  have hang: "doTxn_loop 119 True name work r' w' = None" for r' w'
    unfolding l(2) doTxn_loop.simps(2) by simp
  show ?thesis
    unfolding doTxn_def l(1) doTxn_loop.simps(2)
    by (simp add: hang split: option.splits prod.splits)
qed

lemma doTxn_ok:
  "faults w = [] \<Longrightarrow> work r (disk w, []) = (None, r', d, []) \<Longrightarrow>
   doTxn name work r w = Some (None, r', w\<lparr>disk := d\<rparr>)"
  by (simp add: doTxn_first)

lemma doTxn_err:
  "faults w = [] \<Longrightarrow> work r (disk w, []) = (Some e, r', d, []) \<Longrightarrow> \<not> IsConflict e \<Longrightarrow>
   doTxn name work r w = Some (Some e, r', w)"
  by (simp add: doTxn_first)

text \<open>A conflict that the body itself returns: the retry waits for its own connection.\<close>

lemma doTxn_body_conflict:
  "next_fault (faults w) = (None, fs) \<Longrightarrow> work r (disk w, fs) = (Some e, r', tx') \<Longrightarrow>
   IsConflict e \<Longrightarrow> doTxn name work r w = None"
  by (cases tx') (simp add: doTxn_first)

text \<open>Bodies that never return a bare conflict: those that wrap every error.\<close>

definition wraps :: "'r work \<Rightarrow> bool" where
  "wraps work \<longleftrightarrow> (\<forall>r tx e r' tx'. work r tx = (Some e, r', tx') \<longrightarrow> \<not> IsConflict e)"

lemma doTxn_loop_returns:
  "wraps work \<Longrightarrow> 0 < n \<Longrightarrow> \<exists>res. doTxn_loop n False name work r w = Some res"
proof (induction n arbitrary: r w)
  case (Suc n)
  obtain x fs where nf: "next_fault (faults w) = (x, fs)" by fastforce
  obtain y r1 d fs1 where wk: "work r (disk w, fs) = (y, r1, d, fs1)"
    by (metis prod_cases4)
  obtain z fs2 where nf1: "next_fault fs1 = (z, fs2)" by fastforce
  have nc: "\<not> IsConflict e" if "y = Some e" for e
    using Suc.prems(1) wk that unfolding wraps_def by blast
  show ?case
    using Suc.IH [OF Suc.prems(1), of r "w\<lparr>faults := fs\<rparr>"]
      Suc.IH [OF Suc.prems(1), of r1 "w\<lparr>faults := fs2\<rparr>"] nc
    by (cases x; cases y; cases z) (auto simp: nf wk nf1)
qed simp

lemma doTxn_returns: "wraps work \<Longrightarrow> \<exists>res. doTxn name work r w = Some res"
  unfolding doTxn_def by (rule doTxn_loop_returns) simp_all

lemma begin_conflicts_retried:
  "IsConflict (SqliteError c s) \<Longrightarrow>
   doTxn_loop (k + Suc m) False name work r (w\<lparr>faults := replicate k (Fault c s j) @ fs\<rparr>) =
   doTxn_loop (Suc m) False name work r (w\<lparr>faults := fs\<rparr>)"
  by (induction k) simp_all

lemma next_fault_sqlite: "next_fault fs = (Some (e, n), fs') \<Longrightarrow> \<exists>c s. e = SqliteError c s"
  by (induction fs rule: next_fault.induct) auto

section \<open>Reasoning about bodies\<close>

definition work_keeps :: "(db \<Rightarrow> bool) \<Rightarrow> 'r work \<Rightarrow> bool" where
  "work_keeps P work \<longleftrightarrow> (\<forall>r d fs. P d \<longrightarrow> P (fst (snd (snd (work r (d, fs))))))"

lemma exec_sql_keeps:
  "stmt_keeps P f \<Longrightarrow> P (fst tx) \<Longrightarrow> P (fst (snd (exec_sql f tx)))"
  by (auto simp: exec_sql_def stmt_keeps_def split: option.splits prod.splits sum.splits)

lemma query_rows_db: "fst (snd (query_rows q tx)) = fst tx"
  by (auto simp: query_rows_def exec_sql_def map_sum_def
      split: option.splits prod.splits sum.splits)

lemma work_keeps_intros [intro, db_keeps]:
  "work_keeps P ret_ok"
  "work_keeps P (ret_err e)"
  "work_keeps P k \<Longrightarrow> work_keeps P (assign f k)"
  by (simp_all add: work_keeps_def work_defs)

lemma work_keeps_on_sql [intro, db_keeps]:
  assumes "stmt_keeps P f" "\<And>e. work_keeps P (h e)" "\<And>a. work_keeps P (k a)"
  shows "work_keeps P (on_sql f h k)"
  unfolding work_keeps_def
proof (intro allI impI)
  fix r d fs assume "P d"
  then have "P (fst (snd (exec_sql f (d, fs))))"
    using exec_sql_keeps [OF assms(1)] by simp
  then show "P (fst (snd (snd (on_sql f h k r (d, fs)))))"
    using assms(2,3) unfolding work_keeps_def
    by (auto simp: on_sql_def split: sum.splits prod.splits)
qed

lemma work_keeps_on_rows [intro, db_keeps]:
  assumes "\<And>e. work_keeps P (h e)" "\<And>a. work_keeps P (k a)"
  shows "work_keeps P (on_rows q h k)"
  unfolding work_keeps_def
proof (intro allI impI)
  fix r d fs assume "P d"
  then have "P (fst (snd (query_rows q (d, fs))))"
    by (simp add: query_rows_db)
  then show "P (fst (snd (snd (on_rows q h k r (d, fs)))))"
    using assms unfolding work_keeps_def
    by (auto simp: on_rows_def split: sum.splits prod.splits)
qed

lemma work_keeps_if [intro, db_keeps]:
  "work_keeps P a \<Longrightarrow> work_keeps P b \<Longrightarrow> work_keeps P (if c then a else b)"
  by simp

lemma doTxn_keeps:
  assumes "work_keeps P work" and "doTxn name work r w = Some (e, r', w')" and "P (disk w)"
  shows "P (disk w')"
proof (cases e)
  case None
  with assms(2) have "doTxn name work r w = Some (None, r', w')" by simp
  from doTxn_committed [OF this] obtain r0 fs fs'
    where "work r0 (disk w, fs) = (None, r', disk w', fs')" by blast
  then show ?thesis
    using assms(1,3) unfolding work_keeps_def by (metis fst_conv snd_conv)
next
  case (Some x)
  then show ?thesis using doTxn_error assms(2,3) by metis
qed

lemma wraps_intros [intro]:
  "wraps ret_ok"
  "\<not> IsConflict e \<Longrightarrow> wraps (ret_err e)"
  "wraps k \<Longrightarrow> wraps (assign f k)"
  "(\<And>e. wraps (h e)) \<Longrightarrow> (\<And>a. wraps (ka a)) \<Longrightarrow> wraps (on_sql st h ka)"
  "(\<And>e. wraps (h e)) \<Longrightarrow> (\<And>a. wraps (kr a)) \<Longrightarrow> wraps (on_rows q h kr)"
  "wraps x \<Longrightarrow> wraps y \<Longrightarrow> wraps (if c then x else y)"
  unfolding wraps_def work_defs
  by (auto split: sum.splits prod.splits)

lemma no_fault_sql [simp]:
  "on_sql f h k r (d, []) = (case f d of Inl e \<Rightarrow> h e r (d, []) | Inr (a, d') \<Rightarrow> k a r (d', []))"
  by (simp add: on_sql_def exec_sql_def split: sum.splits prod.splits)

lemma no_fault_rows [simp]:
  "on_rows q h k r (d, []) =
     (case q d of Inl e \<Rightarrow> h e r (d, []) | Inr rs \<Rightarrow> k (rs, None) r (d, []))"
  by (simp add: on_rows_def query_rows_def exec_sql_def split: sum.splits)

lemma no_fault_ret [simp]:
  "ret_ok r tx = (None, r, tx)" "ret_err e r tx = (Some e, r, tx)" "assign f k r tx = k (f r) tx"
  by (simp_all add: work_defs)

text \<open>
  What a body has established when it returns, whatever calls fail: from the captured
  variables \<open>r\<close> and the tables \<open>d\<close>, \<open>Q\<close> of the new variables and tables when it returns
  nil, \<open>E\<close> of the error and the variables otherwise.
\<close>

definition runs :: "'r work \<Rightarrow> 'r \<Rightarrow> db \<Rightarrow> ('r \<Rightarrow> db \<Rightarrow> bool) \<Rightarrow> (goerr \<Rightarrow> 'r \<Rightarrow> bool) \<Rightarrow> bool" where
  "runs work r d Q E \<longleftrightarrow>
     (\<forall>fs. case work r (d, fs) of (None, r', d', _) \<Rightarrow> Q r' d' | (Some e, r', _, _) \<Rightarrow> E e r')"

abbreviation post :: "'r work \<Rightarrow> 'r \<Rightarrow> db \<Rightarrow> ('r \<Rightarrow> db \<Rightarrow> bool) \<Rightarrow> bool" where
  "post work r d Q \<equiv> runs work r d Q (\<lambda>_ _. True)"

lemma runs_ok: "runs work r d Q E \<Longrightarrow> work r (d, fs) = (None, r', d', fs') \<Longrightarrow> Q r' d'"
  unfolding runs_def by (metis (mono_tags, lifting) case_prod_conv option.simps(4))

lemma runs_err: "runs work r d Q E \<Longrightarrow> work r (d, fs) = (Some e, r', d', fs') \<Longrightarrow> E e r'"
  unfolding runs_def by (metis (mono_tags, lifting) case_prod_conv option.simps(5))

lemma runsI:
  assumes "\<And>fs r' d' fs'. work r (d, fs) = (None, r', d', fs') \<Longrightarrow> Q r' d'"
    and "\<And>fs e r' d' fs'. work r (d, fs) = (Some e, r', d', fs') \<Longrightarrow> E e r'"
  shows "runs work r d Q E"
  using assms unfolding runs_def by (auto split: prod.splits option.splits)

lemma runs_mono:
  assumes "runs work r d Q E" and "\<And>r' d'. Q r' d' \<Longrightarrow> Q' r' d'" and "\<And>e r'. E e r' \<Longrightarrow> E' e r'"
  shows "runs work r d Q' E'"
  using assms(2) [OF runs_ok [OF assms(1)]] assms(3) [OF runs_err [OF assms(1)]]
  by (rule runsI)

lemma runs_ret [simp]:
  "runs ret_ok r d Q E = Q r d" "runs (ret_err e) r d Q E = E e r"
  "runs (assign f k) r d Q E = runs k (f r) d Q E"
  by (simp_all add: runs_def work_defs)

text \<open>The same for the eta-expanded forms that simplification over \<open>unit\<close> leaves.\<close>

lemma runs_ret_unit [simp]:
  "runs (\<lambda>r tx. (None, r, tx)) r d Q E = Q r d"
  "runs (\<lambda>r tx. (None, (), tx)) u d Q' E' = Q' () d"
  "runs (\<lambda>r tx. (Some e, r, tx)) r d Q E = E e r"
  "runs (\<lambda>r tx. (Some e, (), tx)) u d Q' E' = E' e ()"
  by (simp_all add: runs_def)

lemma runs_on_sql:
  assumes h: "\<And>e. st d = Inl e \<or> (\<exists>c s. e = SqliteError c s) \<Longrightarrow> runs (h e) r d Q E"
    and k: "\<And>a d'. st d = Inr (a, d') \<Longrightarrow> runs (k a) r d' Q E"
  shows "runs (on_sql st h k) r d Q E"
proof (rule runsI)
  fix fs x r' d' fs'
  obtain res d1 fs1 where ex: "exec_sql st (d, fs) = (res, d1, fs1)" by (metis prod_cases3)
  have l: "d1 = d \<and> runs (h e) r d Q E" if "res = Inl e" for e
  proof -
    have "d1 = d \<and> (st d = Inl e \<or> (\<exists>c s. e = SqliteError c s))"
      using ex that by (auto simp: exec_sql_def split: option.splits prod.splits sum.splits
          dest: next_fault_sqlite)
    with h show ?thesis by blast
  qed
  have r: "st d = Inr (a, d1)" if "res = Inr a" for a
    using ex that by (auto simp: exec_sql_def split: option.splits prod.splits sum.splits)
  show "Q r' d'" if "on_sql st h k r (d, fs) = (None, r', d', fs')"
    using that ex l r runs_ok [OF k] by (cases res) (auto simp: on_sql_def dest: runs_ok)
  show "E x r'" if "on_sql st h k r (d, fs) = (Some x, r', d', fs')"
    using that ex l r runs_err [OF k] by (cases res) (auto simp: on_sql_def dest: runs_err)
qed

lemma runs_on_rows:
  assumes "\<And>e. runs (h e) r d Q E"
    and "\<And>rs. q d = Inr rs \<Longrightarrow> runs (k (rs, None)) r d Q E"
    and "\<And>rs n e. q d = Inr rs \<Longrightarrow> runs (k (take n rs, Some e)) r d Q E"
  shows "runs (on_rows q h k) r d Q E"
proof (rule runsI)
  fix fs x r' d' fs'
  obtain res d1 fs1 where qr: "query_rows q (d, fs) = (res, d1, fs1)" by (metis prod_cases3)
  have d1: "d1 = d" using query_rows_db [of q "(d, fs)"] qr by simp
  have "\<exists>rs. q d = Inr rs \<and> (a = (rs, None) \<or> (\<exists>n e. a = (take n rs, Some e)))" if "res = Inr a" for a
    using qr that by (auto simp: query_rows_def exec_sql_def map_sum_def
        split: option.splits prod.splits sum.splits)
  then have k: "runs (k a) r d Q E" if "res = Inr a" for a
    using assms(2,3) that by fastforce
  show "Q r' d'" if "on_rows q h k r (d, fs) = (None, r', d', fs')"
    using that qr d1 runs_ok [OF assms(1)] runs_ok [OF k]
    by (cases res) (fastforce simp: on_rows_def)+
  show "E x r'" if "on_rows q h k r (d, fs) = (Some x, r', d', fs')"
    using that qr d1 runs_err [OF assms(1)] runs_err [OF k]
    by (cases res) (fastforce simp: on_rows_def)+
qed

text \<open>
  The rule for a transaction: \<open>I\<close> is what the captured variables satisfy before every
  attempt, so it must survive an attempt that is rolled back.
\<close>

lemma doTxn_runs:
  assumes "doTxn name work r w = Some (e, r', w')" and "I r"
    and body: "\<And>r0. I r0 \<Longrightarrow> runs work r0 (disk w) Q (\<lambda>_. I)"
    and again: "\<And>r0 d. Q r0 d \<Longrightarrow> I r0"
  shows "case e of None \<Rightarrow> Q r' (disk w') | Some _ \<Rightarrow> I r' \<and> disk w' = disk w"
proof -
  have "I (fst (snd (work r0 (disk w, fs))))" if "I r0" for r0 fs
  proof -
    obtain x r1 d1 fs1 where "work r0 (disk w, fs) = (x, r1, d1, fs1)" by (metis prod_cases4)
    then show ?thesis
      using again [OF runs_ok [OF body [OF that]]] runs_err [OF body [OF that]] by (cases x) auto
  qed
  from doTxn_result [OF assms(1,2) this] show ?thesis
    using body runs_ok by (fastforce split: option.splits)
qed

lemma doTxn_post:
  "doTxn name work r w = Some (None, r', w') \<Longrightarrow> (\<And>r0. post work r0 (disk w) Q) \<Longrightarrow> Q r' (disk w')"
  using runs_ok by (metis doTxn_committed)

section \<open>Properties\<close>

text \<open>
  C8: transactions are atomic, whatever the driver does. When \<open>doTxn\<close> returns an error the
  durable tables are what they were; when it returns nil they are the tables that one
  complete run of the body produced from the tables it found.
\<close>

theorem doTxn_atomic:
  assumes "doTxn name work r w = Some (e, r', w')"
  shows "(e \<noteq> None \<longrightarrow> disk w' = disk w) \<and>
    (e = None \<longrightarrow> (\<exists>r0 fs fs'. work r0 (disk w, fs) = (None, r', disk w', fs')))"
  using doTxn_error [of name work r w] doTxn_committed [of name work r w] assms
  by (cases e) auto

theorem doTxn_atomic_witness:
  "disk (the (map_option (snd \<circ> snd)
      (doTxn ''t'' (on_sql sql_schema ret_err (\<lambda>_. ret_err NotFoundError)) ()
        \<lparr>disk = empty_db, faults = [NoFault], unixNow = 0, rnd = 0\<rparr>))) = empty_db"
proof -
  let ?w = "\<lparr>disk = empty_db, faults = [NoFault], unixNow = 0, rnd = 0\<rparr>"
  have "doTxn ''t'' (on_sql sql_schema ret_err (\<lambda>_. ret_err NotFoundError)) () ?w =
      Some (Some NotFoundError, (), ?w\<lparr>faults := []\<rparr>)"
    by (simp add: doTxn_first sql_schema_def)
  from this doTxn_atomic [OF this] show ?thesis by simp
qed



end
