(* ===== verification/StoreOps.thy ===== *)
theory StoreOps
  imports StoreTxn
begin

text \<open>
  The operations of \<open>SQLiteStore\<close> (\<open>internal/store/sqlite.go\<close>). Each is a transaction: its
  body, the closure given to \<open>doTxn\<close>, is a definition of its own over the variables the
  closure captures, which survive a retry, and the operation returns the captured results
  with the error.
\<close>

definition results :: "(goerr option \<times> 'r \<times> world) option \<Rightarrow> (('r \<times> goerr option) \<times> world) option" where
  "results = map_option (\<lambda>(e, r, w). ((r, e), w))"

definition only_error :: "(goerr option \<times> 'r \<times> world) option \<Rightarrow> (goerr option \<times> world) option" where
  "only_error = map_option (\<lambda>(e, r, w). (e, w))"

text \<open>\<open>return err\<close> with the error unchanged.\<close>

abbreviation raise :: "goerr \<Rightarrow> 'r work" where
  "raise \<equiv> ret_err"

abbreviation raise_fmt :: "string \<Rightarrow> goerr \<Rightarrow> 'r work" where
  "raise_fmt p e \<equiv> ret_err (Errorf p e)"

abbreviation raise_db :: "string \<Rightarrow> goerr \<Rightarrow> 'r work" where
  "raise_db p e \<equiv> ret_err (dbErr e p)"

section \<open>Schema\<close>

definition unixDayStamp :: "int \<Rightarrow> int" where
  "unixDayStamp now = go_div now SecondsPerDay"

fun run_migrations :: "(int \<times> unit stmt) list \<Rightarrow> int \<Rightarrow> (int \<Rightarrow> unit work) \<Rightarrow> unit work" where
  "run_migrations [] version k = k version"
| "run_migrations ((ver, query) # ms) version k =
     (if version < ver
      then on_sql query (raise_db (''applying migration '' @ itoa ver)) (\<lambda>_. run_migrations ms ver k)
      else run_migrations ms version k)"

definition initSchema_migrate :: "int \<Rightarrow> unit work" where
  "initSchema_migrate initVer =
     run_migrations MIGRATIONS initVer (\<lambda>version.
       if version \<noteq> initVer
       then on_sql (sql_update_version version) (raise_db ''updating version'') (\<lambda>_. ret_ok)
       else ret_ok)"

definition initSchema_config :: "int \<Rightarrow> int \<Rightarrow> unit work" where
  "initSchema_config today version =
     on_sql sql_select_config_dayc
       (\<lambda>e. if errors_Is e ErrNoRows
            then on_sql (sql_insert_config today) (raise_db ''inserting config row'')
                   (\<lambda>_. initSchema_migrate version)
            else raise_db ''querying config'' e)
       (\<lambda>dayc. initSchema_migrate version)"

definition initSchema_work :: "int \<Rightarrow> unit work" where
  "initSchema_work today =
     on_sql sql_select_version
       (\<lambda>_. on_sql sql_schema (raise_db ''creating database schema'')
          (\<lambda>_. on_sql sql_select_version
             (\<lambda>e. if errors_Is e ErrNoRows
                  then on_sql (sql_insert_version 1) (raise_db ''updating version'')
                         (\<lambda>_. initSchema_config today 1)
                  else raise_db ''querying version'' e)
             (\<lambda>version. initSchema_config today version)))
       (\<lambda>version. initSchema_migrate version)"

definition initSchema :: "world \<Rightarrow> (goerr option \<times> world) option" where
  "initSchema w =
     only_error (doTxn ''init schema'' (initSchema_work (unixDayStamp (unixNow w))) () w)"

text \<open>\<open>openErr\<close> is the error of \<open>sql.Open\<close>.\<close>

definition NewSQLiteStore :: "goerr option \<Rightarrow> world \<Rightarrow> (goerr option \<times> world) option" where
  "NewSQLiteStore openErr w =
     (case openErr of
        Some e \<Rightarrow> Some (Some (dbErr e ''opening database''), w)
      | None \<Rightarrow> initSchema w)"

section \<open>Statistics and the node list\<close>

definition NetStats_work :: "int work" where
  "NetStats_work = on_sql sql_count_nodes (\<lambda>_. ret_ok) (\<lambda>n. assign (\<lambda>_. n) ret_ok)"

definition NetStats :: "world \<Rightarrow> ((int \<times> goerr option) \<times> world) option" where
  "NetStats w = results (doTxn ''NetStats'' NetStats_work 0 w)"

definition ZeroIdentity :: bytes where
  "ZeroIdentity = replicate 32 0"

definition normalizeIP4 :: "address \<Rightarrow> address" where
  "normalizeIP4 addr =
     (let ipv4 = To4 (Host addr) in if ipv4 \<noteq> [] then \<lparr>Host = ipv4, Port = Port addr\<rparr> else addr)"

fun NodeList_rows :: "gossip \<Rightarrow> (bytes \<times> bytes \<times> bytes) list \<Rightarrow> netNode list work \<Rightarrow> netNode list work" where
  "NodeList_rows G [] k = k"
| "NodeList_rows G ((pubkey, address, owner) # rs) k =
     (case AddressFromBytes G address of
        (addr, Some e) \<Rightarrow> raise_fmt ''[Store] netNodeList: invalid address: '' e
      | (addr, None) \<Rightarrow>
          (let owner' = (if owner = ZeroIdentity then [] else owner) in
           assign (\<lambda>netList. netList @
               [\<lparr>nnPubKey = EncodeToString pubkey,
                 nnAddress = AddressString G (normalizeIP4 addr),
                 nnIdentity = EncodeToString owner'\<rparr>])
             (NodeList_rows G rs k)))"

definition NodeList_work :: "gossip \<Rightarrow> netNode list work" where
  "NodeList_work G =
     on_rows sql_select_nodes (raise_fmt ''[Store] netNodeList: query: '')
       (\<lambda>(rows, rowsErr). NodeList_rows G rows
          (case rowsErr of Some e \<Rightarrow> raise_fmt ''[Store] query: '' e | None \<Rightarrow> ret_ok))"

definition NodeList :: "gossip \<Rightarrow> world \<Rightarrow> ((netNode list \<times> goerr option) \<times> world) option" where
  "NodeList G w = results (doTxn ''NodeList'' (NodeList_work G) [] w)"

section \<open>Expiry\<close>

definition TrimNodes_work :: "int \<Rightarrow> (bool \<times> int) work" where
  "TrimNodes_work today =
     on_sql sql_select_config (raise_fmt ''TrimNodes: SELECT config: '')
       (\<lambda>(dayc, last).
          if last \<noteq> today then
            (let dayc' = dayc + 1 in
             assign (\<lambda>(advanced, remNode). (True, remNode))
              (on_sql (sql_update_config dayc' today) (raise_fmt ''TrimNodes: UPDATE config: '')
                (\<lambda>_. on_sql (sql_expire_nodes dayc') (raise_fmt ''TrimNodes: DELETE node: '')
                  (\<lambda>affected. assign (\<lambda>(advanced, remNode). (advanced, affected))
                    (on_sql (sql_expire_channels dayc') (raise_fmt ''TrimNodes: DELETE channel: '')
                      (\<lambda>affected. assign (\<lambda>(advanced, remNode). (advanced, affected)) ret_ok))))))
          else ret_ok)"

definition TrimNodes :: "world \<Rightarrow> ((bool \<times> int \<times> goerr option) \<times> world) option" where
  "TrimNodes w =
     map_option (\<lambda>(e, (advanced, remNode), w'). ((advanced, remNode, e), w'))
       (doTxn ''TrimNodes'' (TrimNodes_work (unixDayStamp (unixNow w))) (False, 0) w)"

section \<open>The announcement\<close>

text \<open>A NULL owner scans into a nil slice.\<close>

definition GetAnnounce_work :: "(bytes \<times> bytes \<times> int \<times> bytes) work" where
  "GetAnnounce_work =
     on_sql sql_select_announce
       (\<lambda>e. if \<not> errors_Is e ErrNoRows then raise_fmt ''query: '' e else ret_ok)
       (\<lambda>row. assign (\<lambda>_. (anPayload row, anSig row, anTime row,
                case anOwner row of None \<Rightarrow> [] | Some ow \<Rightarrow> ow)) ret_ok)"

definition GetAnnounce :: "world \<Rightarrow>
    ((bytes \<times> bytes \<times> int \<times> bytes \<times> goerr option) \<times> world) option" where
  "GetAnnounce w =
     map_option (\<lambda>(e, (payload, sig, time, owner), w'). ((payload, sig, time, owner, e), w'))
       (doTxn ''GetAnnounce'' GetAnnounce_work ([], [], 0, []) w)"

definition SetAnnounce_work :: "bytes \<Rightarrow> bytes \<Rightarrow> int \<Rightarrow> unit work" where
  "SetAnnounce_work payload sig time =
     on_sql (sql_update_announce payload sig time) raise
       (\<lambda>num. if num = 0
              then on_sql (sql_insert_announce payload sig time) raise (\<lambda>_. ret_ok)
              else ret_ok)"

definition SetAnnounce :: "bytes \<Rightarrow> bytes \<Rightarrow> int \<Rightarrow> world \<Rightarrow> (goerr option \<times> world) option" where
  "SetAnnounce payload sig time w =
     only_error (doTxn ''SetAnnounce'' (SetAnnounce_work payload sig time) () w)"

definition SetAnnounceOwner_work :: "bytes \<Rightarrow> unit work" where
  "SetAnnounceOwner_work owner =
     on_sql (sql_update_owner owner) raise
       (\<lambda>num. if num = 0 then on_sql (sql_insert_owner owner) raise (\<lambda>_. ret_ok) else ret_ok)"

definition SetAnnounceOwner :: "bytes \<Rightarrow> world \<Rightarrow> (goerr option \<times> world) option" where
  "SetAnnounceOwner owner w =
     only_error (doTxn ''SetAnnounceOwner'' (SetAnnounceOwner_work owner) () w)"

section \<open>Registered channels\<close>

definition GetChannels_work :: "tag4cc list work" where
  "GetChannels_work =
     on_rows sql_select_channels raise
       (\<lambda>(rows, rowsErr). assign (\<lambda>channels. channels @ rows)
          (case rowsErr of Some e \<Rightarrow> raise_db ''GetChannels: querying channels'' e
                         | None \<Rightarrow> ret_ok))"

definition GetChannels :: "world \<Rightarrow> ((tag4cc list \<times> goerr option) \<times> world) option" where
  "GetChannels w = results (doTxn ''GetChannels'' GetChannels_work [] w)"

definition AddChannel_work :: "tag4cc \<Rightarrow> unit work" where
  "AddChannel_work channel =
     on_sql (sql_update_channel channel) raise
       (\<lambda>num. if num = 0 then on_sql (sql_insert_channel channel) raise (\<lambda>_. ret_ok) else ret_ok)"

definition AddChannel :: "tag4cc \<Rightarrow> world \<Rightarrow> (goerr option \<times> world) option" where
  "AddChannel channel w = only_error (doTxn ''AddChannel'' (AddChannel_work channel) () w)"

section \<open>Nodes\<close>

definition sql_prepare :: "unit stmt" where
  "sql_prepare = table (\<lambda>d. Inr ((), d))"

fun AddNetNode_insert_channels :: "gossip \<Rightarrow> int \<Rightarrow> tag4cc list \<Rightarrow> bool work" where
  "AddNetNode_insert_channels G oid [] = assign (\<lambda>_. True) ret_ok"
| "AddNetNode_insert_channels G oid (channel # cs) =
     on_sql (sql_insert_chan oid (ChanCell G channel)) (raise_fmt ''insert channel: '')
       (\<lambda>_. AddNetNode_insert_channels G oid cs)"

definition AddNetNode_channels :: "gossip \<Rightarrow> int \<Rightarrow> tag4cc list \<Rightarrow> bool work" where
  "AddNetNode_channels G oid cs =
     on_sql (sql_delete_chan oid) (raise_fmt ''delete channels: '')
       (\<lambda>_. on_sql sql_prepare (raise_fmt ''prepare: '')
              (\<lambda>_. AddNetNode_insert_channels G oid cs))"

definition AddNetNode_work :: "gossip \<Rightarrow> bytes \<Rightarrow> address \<Rightarrow> int \<Rightarrow> bytes \<Rightarrow> tag4cc list \<Rightarrow>
    bytes \<Rightarrow> bytes \<Rightarrow> bool work" where
  "AddNetNode_work G key addr time owner cs payload sig =
     on_sql (sql_select_node key)
       (\<lambda>e. if \<not> errors_Is e ErrNoRows then raise_fmt ''query: '' e
            else on_sql (sql_insert_node key (AddressToBytes G addr) time owner payload sig)
                   (raise_fmt ''insert: '')
                   (\<lambda>oid. AddNetNode_channels G oid cs))
       (\<lambda>(oid, stored).
            if stored = payload then ret_ok
            else on_sql (sql_update_node (AddressToBytes G addr) time owner payload sig key)
                   (raise_fmt ''update: '')
                   (\<lambda>_. AddNetNode_channels G oid cs))"

definition AddNetNode :: "gossip \<Rightarrow> bytes \<Rightarrow> address \<Rightarrow> int \<Rightarrow> bytes \<Rightarrow> tag4cc list \<Rightarrow>
    bytes \<Rightarrow> bytes \<Rightarrow> world \<Rightarrow> ((bool \<times> goerr option) \<times> world) option" where
  "AddNetNode G key addr time owner cs payload sig w =
     results (doTxn ''AddNetNode'' (AddNetNode_work G key addr time owner cs payload sig) False w)"

definition UpdateNetTime_work :: "bytes \<Rightarrow> unit work" where
  "UpdateNetTime_work key = on_sql (sql_touch_node key) (raise_fmt ''update: '') (\<lambda>_. ret_ok)"

definition UpdateNetTime :: "bytes \<Rightarrow> world \<Rightarrow> (goerr option \<times> world) option" where
  "UpdateNetTime key w = only_error (doTxn ''UpdateNetTime'' (UpdateNetTime_work key) () w)"

definition ChooseNetNode_work :: "gossip \<Rightarrow> nat \<Rightarrow> nodeInfo work" where
  "ChooseNetNode_work G rand =
     on_sql (sql_random_node rand)
       (\<lambda>e. if errors_Is e ErrNoRows then raise NotFoundError else raise_fmt ''query: '' e)
       (\<lambda>row. if length (ndKey row) \<noteq> 32
              then raise (OpaqueError (''invalid node key: '' @ EncodeToString (ndKey row) @
                                       '' (should be 32 bytes)''))
              else assign (\<lambda>res. res\<lparr>niPubKey := ndKey row,
                                     niAddr := fst (AddressFromBytes G (ndAddress row))\<rparr>)
                     (case snd (AddressFromBytes G (ndAddress row)) of
                        Some e \<Rightarrow> raise_fmt ''invalid address: '' e
                      | None \<Rightarrow> ret_ok))"

definition ChooseNetNode :: "gossip \<Rightarrow> world \<Rightarrow> ((nodeInfo \<times> goerr option) \<times> world) option" where
  "ChooseNetNode G w = results (doTxn ''ChooseNetNode'' (ChooseNetNode_work G (rnd w)) zero_nodeInfo w)"

definition ChooseNetNodeMsg_work :: "nat \<Rightarrow> nodeRecord work" where
  "ChooseNetNodeMsg_work rand =
     on_sql (sql_random_node rand)
       (\<lambda>e. if errors_Is e ErrNoRows then raise NotFoundError else raise_fmt ''query: '' e)
       (\<lambda>row. assign (\<lambda>_. \<lparr>nrPubKey = ndKey row, nrPayload = ndPayload row, nrSig = ndSig row\<rparr>) ret_ok)"

definition ChooseNetNodeMsg :: "world \<Rightarrow> ((nodeRecord \<times> goerr option) \<times> world) option" where
  "ChooseNetNodeMsg w =
     results (doTxn ''ChooseNetNodeMsg'' (ChooseNetNodeMsg_work (rnd w))
       \<lparr>nrPubKey = [], nrPayload = [], nrSig = []\<rparr> w)"

definition SampleNodesByChannel :: "tag4cc list \<Rightarrow> bytes list \<Rightarrow> world \<Rightarrow>
    ((nodeInfo list \<times> goerr option) \<times> world) option" where
  "SampleNodesByChannel cs exclude w = results (doTxn ''SampleNodesByChannel'' ret_ok [] w)"

definition SampleNodesByIP :: "ip \<Rightarrow> bytes list \<Rightarrow> world \<Rightarrow>
    ((nodeInfo list \<times> goerr option) \<times> world) option" where
  "SampleNodesByIP ipaddr exclude w = results (doTxn ''SampleNodesByIP'' ret_ok [] w)"

section \<open>The implementation of the interface\<close>

definition sqliteStore :: "gossip \<Rightarrow> world store" where
  "sqliteStore G =
     \<lparr>st_NetStats = NetStats, st_NodeList = NodeList G, st_TrimNodes = TrimNodes,
      st_GetAnnounce = GetAnnounce, st_SetAnnounce = SetAnnounce,
      st_SetAnnounceOwner = SetAnnounceOwner, st_AddNetNode = AddNetNode G,
      st_UpdateNetTime = UpdateNetTime, st_ChooseNetNode = ChooseNetNode G,
      st_ChooseNetNodeMsg = ChooseNetNodeMsg, st_SampleNodesByChannel = SampleNodesByChannel,
      st_SampleNodesByIP = SampleNodesByIP, st_GetChannels = GetChannels,
      st_AddChannel = AddChannel\<rparr>"

lemma results_Some:
  "results x = Some ((r, e), w) \<longleftrightarrow> x = Some (e, r, w)"
  by (auto simp: results_def)

lemma only_error_Some:
  "only_error x = Some (e, w) \<longleftrightarrow> (\<exists>r. x = Some (e, r, w))"
  by (auto simp: only_error_def)

lemmas result_simps = results_Some only_error_Some

end
