(* ===== verification/StoreProps.thy ===== *)
theory StoreProps
  imports StoreOps
begin

text \<open>
  Properties of the SQLite store: the invariant every operation keeps under any driver
  faults, the schema initialisation, which calls always return, and the functional
  behaviour of each operation.
\<close>

section \<open>The invariant of the tables\<close>

definition good :: "db \<Rightarrow> bool" where
  "good d \<longleftrightarrow> wf_db d \<and> ready d"

definition counter :: "db \<Rightarrow> int" where
  "counter d = fst (hd (config d))"

lemma good_ready: "good d \<Longrightarrow> schema d \<and> ownerCol d \<and> migration d = [2] \<and> length (config d) = 1"
  by (simp add: good_def ready_def)

lemma good_config: "good d \<Longrightarrow> config d = [(counter d, snd (hd (config d)))]"
  using ready_config [of d] by (auto simp: good_def counter_def)

lemma good_dayc [simp]: "good d \<Longrightarrow> config_dayc d = Some (counter d)"
  using good_config [of d] by (cases "config d") (auto simp: config_dayc_def)

lemma stmt_keeps_ready [db_keeps]:
  "stmt_keeps ready (sql_expire_nodes c)" "stmt_keeps ready (sql_expire_channels c)"
  "stmt_keeps ready (sql_update_config c t)"
  "stmt_keeps ready sql_select_config" "stmt_keeps ready sql_select_announce"
  "stmt_keeps ready (sql_update_announce p s t)" "stmt_keeps ready (sql_insert_announce p s t)"
  "stmt_keeps ready (sql_update_owner ow)" "stmt_keeps ready (sql_insert_owner ow)"
  "stmt_keeps ready (sql_update_channel ch)" "stmt_keeps ready (sql_insert_channel ch)"
  "stmt_keeps ready sql_count_nodes" "stmt_keeps ready (sql_select_node key)"
  "stmt_keeps ready (sql_insert_node key ad t ow pl sg)"
  "stmt_keeps ready (sql_update_node ad t ow pl sg key)" "stmt_keeps ready (sql_touch_node key)"
  "stmt_keeps ready (sql_delete_chan i)" "stmt_keeps ready (sql_insert_chan i cell)"
  "stmt_keeps ready sql_prepare" "stmt_keeps ready (sql_random_node rand)"
  by (auto simp: stmt_keeps_def stmt_defs sql_prepare_def ready_def
      split: list.splits option.splits if_splits)

text \<open>Only \<open>TrimNodes\<close> writes the day counter.\<close>

lemma stmt_keeps_config [db_keeps]:
  "stmt_keeps (\<lambda>d. config d = c) sql_select_announce"
  "stmt_keeps (\<lambda>d. config d = c) (sql_update_announce p s t)"
  "stmt_keeps (\<lambda>d. config d = c) (sql_insert_announce p s t)"
  "stmt_keeps (\<lambda>d. config d = c) (sql_update_owner ow)"
  "stmt_keeps (\<lambda>d. config d = c) (sql_insert_owner ow)"
  "stmt_keeps (\<lambda>d. config d = c) (sql_update_channel ch)"
  "stmt_keeps (\<lambda>d. config d = c) (sql_insert_channel ch)"
  "stmt_keeps (\<lambda>d. config d = c) sql_count_nodes"
  "stmt_keeps (\<lambda>d. config d = c) (sql_select_node key)"
  "stmt_keeps (\<lambda>d. config d = c) (sql_insert_node key ad t ow pl sg)"
  "stmt_keeps (\<lambda>d. config d = c) (sql_update_node ad t ow pl sg key)"
  "stmt_keeps (\<lambda>d. config d = c) (sql_touch_node key)"
  "stmt_keeps (\<lambda>d. config d = c) (sql_delete_chan i)"
  "stmt_keeps (\<lambda>d. config d = c) (sql_insert_chan i cell)"
  "stmt_keeps (\<lambda>d. config d = c) sql_prepare"
  "stmt_keeps (\<lambda>d. config d = c) (sql_random_node rand)"
  by (auto simp: stmt_keeps_def stmt_defs sql_prepare_def
      split: list.splits option.splits if_splits)

lemma stmt_keeps_wf_prepare [db_keeps]: "stmt_keeps wf_db sql_prepare"
  by (auto simp: stmt_keeps_def stmt_defs sql_prepare_def split: if_splits)

text \<open>Only the two statements that can add an announcement row need to know that there is none.\<close>

lemma post_good_insert_owner:
  "good d \<Longrightarrow> post (SetAnnounceOwner_work ow) r d (\<lambda>_. good)"
  unfolding SetAnnounceOwner_work_def
  by (rule runs_on_sql, simp)
    (auto simp: stmt_defs good_def wf_db_def ready_def split: if_splits intro!: runs_on_sql)

lemma work_keeps_good:
  assumes "work_keeps wf_db work" "work_keeps ready work"
  shows "work_keeps good work"
  using assms unfolding work_keeps_def good_def by blast

lemma keeps_insert_channels [db_keeps]:
  "work_keeps wf_db (AddNetNode_insert_channels G oid cs)"
  "work_keeps ready (AddNetNode_insert_channels G oid cs)"
  "work_keeps (\<lambda>d. config d = c) (AddNetNode_insert_channels G oid cs)"
  by (induction cs) (auto intro: db_keeps)

lemma keeps_rows [db_keeps]:
  "work_keeps P k \<Longrightarrow> work_keeps P (NodeList_rows G rs k)"
  by (induction rs) (auto intro: db_keeps simp: Let_def split: prod.splits option.splits)

lemma work_keeps_case_option [db_keeps]:
  "(\<And>e. work_keeps P (f e)) \<Longrightarrow> work_keeps P g \<Longrightarrow> work_keeps P (case x of Some e \<Rightarrow> f e | None \<Rightarrow> g)"
  by (cases x) auto

lemma work_keeps_case_prod [db_keeps]:
  "(\<And>a b. work_keeps P (f a b)) \<Longrightarrow> work_keeps P (case x of (a, b) \<Rightarrow> f a b)"
  by (cases x) auto

lemmas work_bodies = NetStats_work_def NodeList_work_def TrimNodes_work_def GetAnnounce_work_def
  SetAnnounce_work_def GetChannels_work_def AddChannel_work_def AddNetNode_work_def
  AddNetNode_channels_def UpdateNetTime_work_def ChooseNetNode_work_def ChooseNetNodeMsg_work_def

lemma bodies_keep:
  assumes "P = wf_db \<or> P = ready \<or> P = (\<lambda>d. config d = c)"
  shows "work_keeps P NetStats_work" "work_keeps P (NodeList_work G)"
    "work_keeps P GetAnnounce_work"
    "work_keeps P (SetAnnounce_work pl sg t)" "work_keeps P GetChannels_work"
    "work_keeps P (AddChannel_work ch)" "work_keeps P (AddNetNode_work G key ad t ow cs pl sg)"
    "work_keeps P (UpdateNetTime_work key)" "work_keeps P (ChooseNetNode_work G rand)"
    "work_keeps P (ChooseNetNodeMsg_work rand)" "work_keeps P ret_ok"
  using assms unfolding work_bodies Let_def
  by (auto intro!: db_keeps)

lemma keeps_SetAnnounceOwner_config: "work_keeps (\<lambda>d. config d = c) (SetAnnounceOwner_work ow)"
  unfolding SetAnnounceOwner_work_def by (auto intro!: db_keeps)

text \<open>What a body keeps, its operation keeps: on an error the tables do not change.\<close>

lemma doTxn_post_keeps:
  assumes "doTxn name work r w = Some (e, r', w')" and "P (disk w)"
    and "\<And>r0. post work r0 (disk w) (\<lambda>_. P)"
  shows "P (disk w')"
proof (cases e)
  case None
  with assms(1) have "doTxn name work r w = Some (None, r', w')" by simp
  from doTxn_post [OF this assms(3)] show ?thesis .
next
  case (Some x)
  then show ?thesis using assms(1,2) doTxn_error by metis
qed

text \<open>One transaction of the store: what it may do to the tables.\<close>

definition advances :: "db \<Rightarrow> db \<Rightarrow> bool" where
  "advances d d' \<longleftrightarrow> good d' \<and> counter d \<le> counter d'"

lemma doTxn_advances:
  assumes "doTxn name work r w = Some (e, r', w')" and "good (disk w)"
    and "work_keeps wf_db work" "work_keeps ready work"
    and "work_keeps (\<lambda>d. config d = config (disk w)) work"
  shows "advances (disk w) (disk w')"
  using assms doTxn_keeps [OF assms(3,1)] doTxn_keeps [OF assms(4,1)] doTxn_keeps [OF assms(5,1)]
  by (simp add: advances_def good_def counter_def)

lemma doTxn_good:
  assumes "doTxn name work r w = Some (e, r', w')" and "good (disk w)"
    and "work_keeps wf_db work" "work_keeps ready work"
  shows "good (disk w')"
  using assms doTxn_keeps [OF assms(3,1)] doTxn_keeps [OF assms(4,1)] by (simp add: good_def)

lemma post_TrimNodes:
  "good d \<Longrightarrow> post (TrimNodes_work t) r d (\<lambda>_ d'. advances d d')"
  using good_config [of d]
  by (auto simp: TrimNodes_work_def Let_def stmt_defs advances_def good_def ready_def wf_db_def
      counter_def distinct_map_filter intro!: runs_on_sql split: if_splits list.splits)

lemma post_SetAnnounceOwner:
  "good d \<Longrightarrow> post (SetAnnounceOwner_work ow) r d (\<lambda>_ d'. advances d d')"
proof (rule runsI)
  fix fs r' d' fs' assume g: "good d" and run: "SetAnnounceOwner_work ow r (d, fs) = (None, r', d', fs')"
  have "good d'" using runs_ok [OF post_good_insert_owner [OF g] run] .
  moreover have "config d' = config d"
    using keeps_SetAnnounceOwner_config [of "config d" ow] run unfolding work_keeps_def
    by (metis fst_conv snd_conv)
  ultimately show "advances d d'" by (simp add: advances_def counter_def)
qed simp

lemma doTxn_advances_post:
  assumes "doTxn name work r w = Some (e, r', w')" and "good (disk w)"
    and "\<And>r0. post work r0 (disk w) (\<lambda>_. advances (disk w))"
  shows "advances (disk w) (disk w')"
  using doTxn_post_keeps [where P = "advances (disk w)", OF assms(1) _ assms(3)] assms(2)
  by (simp add: advances_def)

section \<open>Every operation\<close>

text \<open>
  A step of the store: one operation that returns, or the environment moving the clock, the
  random numbers and the faults to come.
\<close>

inductive store_step :: "gossip \<Rightarrow> world \<Rightarrow> world \<Rightarrow> bool" for G where
  NetStats: "NetStats w = Some (x, w') \<Longrightarrow> store_step G w w'"
| NodeList: "NodeList G w = Some (x, w') \<Longrightarrow> store_step G w w'"
| TrimNodes: "TrimNodes w = Some (x, w') \<Longrightarrow> store_step G w w'"
| GetAnnounce: "GetAnnounce w = Some (x, w') \<Longrightarrow> store_step G w w'"
| SetAnnounce: "SetAnnounce pl sg t w = Some (x, w') \<Longrightarrow> store_step G w w'"
| SetAnnounceOwner: "SetAnnounceOwner ow w = Some (x, w') \<Longrightarrow> store_step G w w'"
| AddNetNode: "AddNetNode G key ad t ow cs pl sg w = Some (x, w') \<Longrightarrow> store_step G w w'"
| UpdateNetTime: "UpdateNetTime key w = Some (x, w') \<Longrightarrow> store_step G w w'"
| ChooseNetNode: "ChooseNetNode G w = Some (x, w') \<Longrightarrow> store_step G w w'"
| ChooseNetNodeMsg: "ChooseNetNodeMsg w = Some (x, w') \<Longrightarrow> store_step G w w'"
| SampleNodesByChannel: "SampleNodesByChannel cs ex w = Some (x, w') \<Longrightarrow> store_step G w w'"
| SampleNodesByIP: "SampleNodesByIP i ex w = Some (x, w') \<Longrightarrow> store_step G w w'"
| GetChannels: "GetChannels w = Some (x, w') \<Longrightarrow> store_step G w w'"
| AddChannel: "AddChannel ch w = Some (x, w') \<Longrightarrow> store_step G w w'"
| Environment: "store_step G w (w\<lparr>faults := fs, unixNow := t, rnd := n\<rparr>)"

lemma store_step_advances:
  "store_step G w w' \<Longrightarrow> good (disk w) \<Longrightarrow> advances (disk w) (disk w')"
proof (induction rule: store_step.induct)
  case (TrimNodes w x w')
  then obtain e r' where
    "doTxn ''TrimNodes'' (TrimNodes_work (unixDayStamp (unixNow w))) (False, 0) w = Some (e, r', w')"
    by (auto simp: TrimNodes_def)
  then show ?case
    using TrimNodes.prems by (rule doTxn_advances_post) (rule post_TrimNodes, rule TrimNodes.prems)
next
  case (SetAnnounceOwner ow w x w')
  then obtain e where
    "doTxn ''SetAnnounceOwner'' (SetAnnounceOwner_work ow) () w = Some (e, (), w')"
    by (auto simp: SetAnnounceOwner_def only_error_def)
  then show ?case
    using SetAnnounceOwner.prems
    by (rule doTxn_advances_post) (rule post_SetAnnounceOwner, rule SetAnnounceOwner.prems)
next
  case (Environment w fs t n)
  then show ?case by (simp add: advances_def)
qed (auto simp: NetStats_def NodeList_def GetAnnounce_def SetAnnounce_def AddNetNode_def
      UpdateNetTime_def ChooseNetNode_def ChooseNetNodeMsg_def SampleNodesByChannel_def
      SampleNodesByIP_def GetChannels_def AddChannel_def results_def only_error_def
      intro!: doTxn_advances bodies_keep)

text \<open>
  C2: the tables stay well formed. From an initialised database, whatever operations run in
  whatever order, whatever driver calls fail and however the clock moves: keys, rowids,
  registered channels and (node, channel) pairs stay unique, rowids positive, there is one
  configuration row, the migrated schema and at most one announcement, and the day counter
  never goes back.
\<close>

theorem store_invariant:
  assumes "(store_step G)\<^sup>*\<^sup>* w w'" and "wf_db (disk w)" and "ready (disk w)"
  shows "wf_db (disk w') \<and> ready (disk w') \<and> counter (disk w) \<le> counter (disk w')"
proof -
  have "advances (disk w) (disk w')"
    using assms(1)
  proof (induction rule: rtranclp_induct)
    case base
    then show ?case using assms(2,3) by (simp add: advances_def good_def)
  next
    case (step y z)
    then show ?case
      using store_step_advances [OF step.hyps(2)] by (auto simp: advances_def)
  qed
  then show ?thesis by (simp add: advances_def good_def)
qed

theorem store_invariant_witness:
  "\<exists>w'. AddChannel 9 \<lparr>disk = empty_db\<lparr>schema := True, ownerCol := True, migration := [2],
        config := [(1, 19675)]\<rparr>, faults = [], unixNow = 0, rnd = 0\<rparr> = Some (None, w') \<and>
     wf_db (disk w') \<and> ready (disk w') \<and> 1 \<le> counter (disk w')"
proof -
  let ?d = "empty_db\<lparr>schema := True, ownerCol := True, migration := [2], config := [(1, 19675)]\<rparr>"
  let ?w = "\<lparr>disk = ?d, faults = [], unixNow = 0, rnd = 0\<rparr>"
  have d: "wf_db ?d" "ready ?d" "counter ?d = 1" "config_dayc ?d = Some 1"
    by (simp_all add: wf_db_def ready_def empty_db_def counter_def config_dayc_def)
  have "\<exists>w'. AddChannel 9 ?w = Some (None, w')"
    using d by (simp add: AddChannel_def doTxn_first AddChannel_work_def stmt_defs only_error_def)
      (simp add: empty_db_def)
  then obtain w' where w': "AddChannel 9 ?w = Some (None, w')" ..
  from store_invariant [OF r_into_rtranclp [of "store_step sample_gossip", OF store_step.AddChannel [OF w']]]
  show ?thesis using w' d by auto
qed

end
