(* ===== verification/StoreSpec.thy ===== *)
theory StoreSpec
  imports StoreProps
begin

text \<open>
  What the store promises: the abstract view of the tables (for every key, the stored
  announcement of the node and its channels), the specification of the operations on it,
  and the proofs that the operations implement it under any driver faults, together with
  their exact results when the driver does not fail.
\<close>

section \<open>Initialisation\<close>

text \<open>The databases the program can find: a new file, one written before the owner column
  was added, and a migrated one.\<close>

definition known_version :: "db \<Rightarrow> bool" where
  "known_version d \<longleftrightarrow>
     d = empty_db \<or>
     schema d \<and> length (config d) = 1 \<and>
       (migration d = [1] \<and> \<not> ownerCol d \<or> migration d = [2] \<and> ownerCol d)"

definition same_rows :: "db \<Rightarrow> db \<Rightarrow> bool" where
  "same_rows d d' \<longleftrightarrow> node d' = node d \<and> chan d' = chan d \<and> channels d' = channels d \<and>
     map (\<lambda>a. (anPayload a, anSig a, anTime a)) (announce d') =
     map (\<lambda>a. (anPayload a, anSig a, anTime a)) (announce d)"

text \<open>The state between the schema statements and the migrations.\<close>

definition initialised :: "db \<Rightarrow> int \<Rightarrow> bool" where
  "initialised d v \<longleftrightarrow> schema d \<and> length (config d) = 1 \<and> migration d = [v] \<and>
     (v = 1 \<and> \<not> ownerCol d \<or> v = 2 \<and> ownerCol d)"

lemma post_initSchema_migrate:
  "initialised d v \<Longrightarrow>
   post (initSchema_migrate v) r d (\<lambda>_ d'. ready d' \<and> config d' = config d \<and> same_rows d d')"
  by (auto simp: initSchema_migrate_def MIGRATIONS_def initialised_def ready_def same_rows_def
      stmt_defs comp_def intro!: runs_on_sql split: if_splits)

definition init_result :: "int \<Rightarrow> db \<Rightarrow> db \<Rightarrow> bool" where
  "init_result today d d' \<longleftrightarrow> ready d' \<and> same_rows d d' \<and>
     config d' = (if config d = [] then [(1, today)] else config d)"

lemma post_migrate_result:
  "initialised d1 v \<Longrightarrow> same_rows d d1 \<Longrightarrow>
   config d1 = (if config d = [] then [(1, today)] else config d) \<Longrightarrow>
   post (initSchema_migrate v) r d1 (\<lambda>_. init_result today d)"
  using post_initSchema_migrate [of d1 v r]
  by (intro runsI) (auto simp: init_result_def same_rows_def dest!: runs_ok)

lemma post_initSchema_config:
  assumes "schema d" "migration d = [v]" "v = 1 \<and> \<not> ownerCol d \<or> v = 2 \<and> ownerCol d"
    "length (config d) \<le> 1" "same_rows d0 d" "config d0 = config d"
  shows "post (initSchema_config today v) r d (\<lambda>_. init_result today d0)"
  unfolding initSchema_config_def
proof (rule runs_on_sql)
  fix e assume e: "sql_select_config_dayc d = Inl e \<or> (\<exists>c s. e = SqliteError c s)"
  show "post (if errors_Is e ErrNoRows
         then on_sql (sql_insert_config today) (raise_db ''inserting config row'') (\<lambda>_. initSchema_migrate v)
         else raise_db ''querying config'' e) r d (\<lambda>_. init_result today d0)"
  proof (cases "errors_Is e ErrNoRows")
    case True
    with e have c: "config d = []"
      by (auto simp: stmt_defs no_such_table_def split: if_splits list.splits)
    have "post (initSchema_migrate v) r (d\<lparr>config := config d @ [(1, today)]\<rparr>)
        (\<lambda>_. init_result today d0)"
      using assms c by (intro post_migrate_result) (auto simp: initialised_def same_rows_def)
    then show ?thesis
      using True by (auto intro!: runs_on_sql simp: stmt_defs split: if_splits)
  qed simp
next
  fix c d1 assume "sql_select_config_dayc d = Inr (c, d1)"
  then have "d1 = d" and "config d \<noteq> []"
    by (auto simp: stmt_defs split: if_splits list.splits)
  then show "post (initSchema_migrate v) r d1 (\<lambda>_. init_result today d0)"
    using assms by (intro post_migrate_result) (auto simp: initialised_def neq_Nil_conv)
qed

lemma post_initSchema:
  assumes "known_version d"
  shows "post (initSchema_work today) r d (\<lambda>_. init_result today d)"
proof (cases "d = empty_db")
  case True
  show ?thesis
    unfolding initSchema_work_def
    by (intro runs_on_sql)
      (auto simp: True stmt_defs empty_db_def same_rows_def
        intro!: runs_on_sql post_initSchema_config [of "empty_db\<lparr>schema := True, migration := [1]\<rparr>" 1, unfolded empty_db_def, simplified]
        split: if_splits)
next
  case False
  then obtain v where v: "schema d" "length (config d) = 1" "migration d = [v]"
      "v = 1 \<and> \<not> ownerCol d \<or> v = 2 \<and> ownerCol d"
    using assms by (auto simp: known_version_def)
  then have s: "d\<lparr>schema := True\<rparr> = d" by simp
  have c: "post (initSchema_config today v) r d (\<lambda>_. init_result today d)"
    using v by (intro post_initSchema_config) (auto simp: same_rows_def)
  have m: "post (initSchema_migrate v) r d (\<lambda>_. init_result today d)"
    using v by (intro post_migrate_result) (auto simp: initialised_def same_rows_def)
  show ?thesis
    unfolding initSchema_work_def
    using v c m by (intro runs_on_sql) (auto simp: s stmt_defs intro!: runs_on_sql split: if_splits)
qed

lemma initSchema_run:
  assumes "faults w = []" and "ready (disk w)"
  shows "initSchema w = Some (None, w)"
proof -
  have "initSchema_work t () (disk w, []) = (None, (), disk w, [])" for t
    using assms(2)
    by (simp add: initSchema_work_def initSchema_migrate_def MIGRATIONS_def ready_def stmt_defs)
  then have "doTxn n (initSchema_work t) () w = Some (None, (), w)" for n t
    using doTxn_ok [of w "initSchema_work t" "()" "()" "disk w" n] assms(1) by simp
  then show ?thesis
    by (simp add: initSchema_def only_error_def)
qed

lemma initSchema_result:
  assumes "known_version (disk w)" and "initSchema w = Some (None, w')"
  shows "init_result (unixDayStamp (unixNow w)) (disk w) (disk w')"
proof -
  obtain r where run: "doTxn ''init schema'' (initSchema_work (unixDayStamp (unixNow w))) () w = Some (None, r, w')"
    using assms(2) by (auto simp: initSchema_def result_simps)
  from doTxn_post [OF this, of "\<lambda>_. init_result (unixDayStamp (unixNow w)) (disk w)"] show ?thesis
    using post_initSchema [OF assms(1)] by simp
qed

text \<open>
  C24: schema initialisation and migration. Started on a new file, on a database of the
  first schema version or on a migrated one, with any driver calls failing: if it returns
  nil, the schema is the current one with one migration row and one configuration row, the
  day counter is kept (or starts at 1, stamped with today), and every node, channel and
  announcement is kept; if it returns an error nothing was written. Without failures a
  second start changes nothing.
\<close>

theorem initSchema_correct:
  assumes "known_version (disk w)" and "initSchema w = Some (e, w')"
  shows "(e = None \<longrightarrow> ready (disk w') \<and> same_rows (disk w) (disk w') \<and>
      config (disk w') = (if config (disk w) = [] then [(1, unixDayStamp (unixNow w))]
                          else config (disk w)) \<and>
      initSchema (w'\<lparr>faults := []\<rparr>) = Some (None, w'\<lparr>faults := []\<rparr>)) \<and>
    (e \<noteq> None \<longrightarrow> disk w' = disk w)"
proof -
  obtain r where run: "doTxn ''init schema'' (initSchema_work (unixDayStamp (unixNow w))) () w = Some (e, r, w')"
    using assms(2) by (auto simp: initSchema_def result_simps)
  show ?thesis
  proof (cases e)
    case None
    then have "init_result (unixDayStamp (unixNow w)) (disk w) (disk w')"
      using initSchema_result [OF assms(1)] assms(2) by simp
    then show ?thesis
      using None initSchema_run [of "w'\<lparr>faults := []\<rparr>"] by (simp add: init_result_def)
  next
    case (Some x)
    then show ?thesis using run doTxn_error by auto
  qed
qed

theorem initSchema_correct_witness:
  "\<exists>w'. initSchema \<lparr>disk = empty_db, faults = [], unixNow = 1700000000, rnd = 0\<rparr> = Some (None, w') \<and>
        ready (disk w') \<and> config (disk w') = [(1, 19675)]"
proof -
  let ?w = "\<lparr>disk = empty_db, faults = [], unixNow = 1700000000, rnd = 0\<rparr>"
  let ?d = "empty_db\<lparr>schema := True, ownerCol := True, migration := [2], config := [(1, 19675)]\<rparr>"
  have "initSchema ?w = Some (None, ?w\<lparr>disk := ?d\<rparr>)"
    by (simp add: initSchema_def doTxn_first initSchema_work_def initSchema_config_def
        initSchema_migrate_def MIGRATIONS_def stmt_defs empty_db_def only_error_def
        unixDayStamp_def SecondsPerDay_def go_div_def)
  moreover from initSchema_correct [OF _ this] have "ready (disk (?w\<lparr>disk := ?d\<rparr>))"
    by (simp add: known_version_def empty_db_def)
  ultimately show ?thesis by (intro exI [of _ "?w\<lparr>disk := ?d\<rparr>"]) simp
qed

section \<open>The abstract view of the nodes\<close>

record nodeView =
  nvAddress :: bytes
  nvTime :: int
  nvOwner :: bytes
  nvPayload :: bytes
  nvSig :: bytes
  nvExpires :: int
  nvChannels :: "string list"

definition node_at :: "db \<Rightarrow> bytes \<Rightarrow> nodeRow option" where
  "node_at d key = find (\<lambda>r. ndKey r = key) (node d)"

definition chans_of :: "db \<Rightarrow> int \<Rightarrow> string list" where
  "chans_of d oid = map snd (filter (\<lambda>(n, _). n = oid) (chan d))"

definition row_view :: "db \<Rightarrow> nodeRow \<Rightarrow> nodeView" where
  "row_view d r = \<lparr>nvAddress = ndAddress r, nvTime = ndTime r, nvOwner = ndOwner r,
     nvPayload = ndPayload r, nvSig = ndSig r, nvExpires = ndDayc r,
     nvChannels = chans_of d (ndOid r)\<rparr>"

definition view :: "db \<Rightarrow> bytes \<Rightarrow> nodeView option" where
  "view d key = map_option (row_view d) (node_at d key)"

text \<open>An announcement changes the store when its payload is not the stored one.\<close>

definition changes :: "(bytes \<Rightarrow> nodeView option) \<Rightarrow> bytes \<Rightarrow> bytes \<Rightarrow> bool" where
  "changes m key payload \<longleftrightarrow> map_option nvPayload (m key) \<noteq> Some payload"

definition announced :: "gossip \<Rightarrow> int \<Rightarrow> address \<Rightarrow> int \<Rightarrow> bytes \<Rightarrow> tag4cc list \<Rightarrow> bytes \<Rightarrow> bytes \<Rightarrow> nodeView" where
  "announced G today addr time owner cs payload sig =
     \<lparr>nvAddress = AddressToBytes G addr, nvTime = time, nvOwner = owner, nvPayload = payload,
      nvSig = sig, nvExpires = 30 + today, nvChannels = map (ChanCell G) cs\<rparr>"

lemma find_key_Some: "find (\<lambda>r. ndKey r = key) xs = Some r \<Longrightarrow> r \<in> set xs \<and> ndKey r = key"
  by (auto simp: find_Some_iff)

lemma find_key_None: "find (\<lambda>r. ndKey r = key) xs = None \<longleftrightarrow> key \<notin> ndKey ` set xs"
  by (auto simp: find_None_iff)

lemma find_append:
  "find P (xs @ ys) = (case find P xs of None \<Rightarrow> find P ys | Some x \<Rightarrow> Some x)"
  by (induction xs) auto

lemma find_key_update:
  "(\<And>r. ndKey (f r) = ndKey r) \<Longrightarrow>
   find (\<lambda>r. ndKey r = k) (map (\<lambda>r. if ndKey r = key then f r else r) xs) =
   (if k = key then map_option f (find (\<lambda>r. ndKey r = k) xs) else find (\<lambda>r. ndKey r = k) xs)"
  by (induction xs) auto

lemma node_at_oid:
  assumes "wf_db d" "node_at d k = Some r" "node_at d l = Some s"
  shows "ndOid r = ndOid s \<longleftrightarrow> k = l"
proof
  assume "ndOid r = ndOid s"
  with assms have "r = s"
    by (auto simp: node_at_def wf_db_def distinct_map dest!: find_key_Some inj_onD)
  with assms show "k = l" by (auto simp: node_at_def dest!: find_key_Some)
qed (use assms in auto)

section \<open>AddNetNode\<close>

definition set_chans :: "int \<Rightarrow> string list \<Rightarrow> db \<Rightarrow> db" where
  "set_chans oid cells d =
     d\<lparr>chan := filter (\<lambda>(n, _). n \<noteq> oid) (chan d) @ map (\<lambda>c. (oid, c)) cells\<rparr>"

lemma set_chans_simps [simp]:
  "node (set_chans oid cells d) = node d" "config (set_chans oid cells d) = config d"
  "channels (set_chans oid cells d) = channels d" "announce (set_chans oid cells d) = announce d"
  "node_at (set_chans oid cells d) k = node_at d k"
  "chans_of (set_chans oid cells d) i = (if i = oid then cells else chans_of d i)"
  by (auto simp: set_chans_def node_at_def chans_of_def filter_map comp_def case_prod_beta'
      intro!: arg_cong [where f = "map snd"] filter_cong)

lemma runs_insert_channels:
  "runs (AddNetNode_insert_channels G oid cs) r d
     (\<lambda>r' d'. r' \<and> d' = d\<lparr>chan := chan d @ map (\<lambda>c. (oid, ChanCell G c)) cs\<rparr>)
     (\<lambda>_ r'. r' = r)"
proof (induction cs arbitrary: d)
  case (Cons c cs)
  have "runs (AddNetNode_insert_channels G oid cs) r (d\<lparr>chan := chan d @ [(oid, ChanCell G c)]\<rparr>)
     (\<lambda>r' d'. r' \<and> d' = d\<lparr>chan := chan d @ map (\<lambda>c. (oid, ChanCell G c)) (c # cs)\<rparr>)
     (\<lambda>_ r'. r' = r)"
    using Cons [of "d\<lparr>chan := chan d @ [(oid, ChanCell G c)]\<rparr>"] by simp
  then show ?case
    by (auto intro!: runs_on_sql simp: stmt_defs split: if_splits)
qed simp

lemma runs_channels:
  "runs (AddNetNode_channels G oid cs) r d
     (\<lambda>r' d'. r' \<and> d' = set_chans oid (map (ChanCell G) cs) d) (\<lambda>_ r'. r' = r)"
  using runs_insert_channels [of G oid cs r "d\<lparr>chan := filter (\<lambda>(n, _). n \<noteq> oid) (chan d)\<rparr>"]
  by (auto simp: AddNetNode_channels_def stmt_defs sql_prepare_def set_chans_def comp_def
      intro!: runs_on_sql split: if_splits)

text \<open>The tables after an announcement is stored.\<close>

definition store_row :: "db \<Rightarrow> bytes \<Rightarrow> bytes \<Rightarrow> int \<Rightarrow> bytes \<Rightarrow> bytes \<Rightarrow> bytes \<Rightarrow> string list \<Rightarrow> db" where
  "store_row d key addr time owner payload sig cells =
     (case node_at d key of
        None \<Rightarrow> set_chans (next_oid d) cells (d\<lparr>node := node d @
          [\<lparr>ndOid = next_oid d, ndKey = key, ndAddress = addr, ndTime = time, ndOwner = owner,
            ndPayload = payload, ndSig = sig, ndDayc = 30 + counter d\<rparr>]\<rparr>)
      | Some r0 \<Rightarrow> set_chans (ndOid r0) cells (d\<lparr>node := map (\<lambda>r. if ndKey r = key
          then r\<lparr>ndAddress := addr, ndTime := time, ndOwner := owner, ndPayload := payload,
                 ndSig := sig, ndDayc := 30 + counter d\<rparr> else r) (node d)\<rparr>))"

lemma runs_AddNetNode:
  assumes "good d"
  shows "runs (AddNetNode_work G key addr time owner cs payload sig) r d
     (\<lambda>r' d'. if changes (view d) key payload
              then r' \<and> d' = store_row d key (AddressToBytes G addr) time owner payload sig (map (ChanCell G) cs)
              else r' = r \<and> d' = d)
     (\<lambda>_ r'. r' = r)"
  unfolding AddNetNode_work_def
proof (rule runs_on_sql)
  fix e assume e: "sql_select_node key d = Inl e \<or> (\<exists>c s. e = SqliteError c s)"
  show "runs (if \<not> errors_Is e ErrNoRows then raise_fmt ''query: '' e
      else on_sql (sql_insert_node key (AddressToBytes G addr) time owner payload sig)
        (raise_fmt ''insert: '') (\<lambda>oid. AddNetNode_channels G oid cs)) r d
     (\<lambda>r' d'. if changes (view d) key payload
              then r' \<and> d' = store_row d key (AddressToBytes G addr) time owner payload sig (map (ChanCell G) cs)
              else r' = r \<and> d' = d) (\<lambda>_ r'. r' = r)"
  proof (cases "errors_Is e ErrNoRows")
    case True
    with e assms have n: "node_at d key = None"
      by (auto simp: stmt_defs node_at_def no_such_table_def split: if_splits option.splits)
    then have "changes (view d) key payload"
      by (simp add: changes_def view_def)
    moreover have "key \<notin> ndKey ` set (node d)"
      using n by (simp add: node_at_def find_key_None)
    ultimately show ?thesis
      using True n assms runs_channels [of G "next_oid d" cs r]
      by (auto simp: stmt_defs store_row_def intro!: runs_on_sql split: if_splits)
  qed simp
next
  fix a d1 assume "sql_select_node key d = Inr (a, d1)"
  then obtain r0 where d1: "d1 = d" and r0: "node_at d key = Some r0"
      and a: "a = (ndOid r0, ndPayload r0)"
    by (auto simp: stmt_defs node_at_def split: if_splits option.splits)
  have c: "changes (view d) key payload \<longleftrightarrow> ndPayload r0 \<noteq> payload"
    by (simp add: changes_def view_def r0 row_view_def)
  have k: "key \<in> ndKey ` set (node d)"
    using r0 by (auto simp: node_at_def dest: find_key_Some)
  show "runs (case a of (oid, stored) \<Rightarrow> if stored = payload then ret_ok
        else on_sql (sql_update_node (AddressToBytes G addr) time owner payload sig key)
          (raise_fmt ''update: '') (\<lambda>_. AddNetNode_channels G oid cs)) r d1
     (\<lambda>r' d'. if changes (view d) key payload
              then r' \<and> d' = store_row d key (AddressToBytes G addr) time owner payload sig (map (ChanCell G) cs)
              else r' = r \<and> d' = d) (\<lambda>_ r'. r' = r)"
    using d1 a c k r0 assms runs_channels [of G "ndOid r0" cs r]
    by (auto simp: stmt_defs store_row_def intro!: runs_on_sql split: if_splits)
qed

lemma node_at_store_row:
  "node_at (store_row d key addr time owner payload sig cells) k =
     (if k = key then
        Some \<lparr>ndOid = (case node_at d key of None \<Rightarrow> next_oid d | Some r \<Rightarrow> ndOid r), ndKey = key,
              ndAddress = addr, ndTime = time, ndOwner = owner, ndPayload = payload, ndSig = sig,
              ndDayc = 30 + counter d\<rparr>
      else node_at d k)"
proof (cases "node_at d key")
  case None
  then show ?thesis
    by (auto simp: store_row_def node_at_def find_append split: option.splits dest: find_key_Some)
next
  case (Some r0)
  then have "ndKey r0 = key" by (auto simp: node_at_def dest: find_key_Some)
  then show ?thesis
    using Some by (cases r0) (simp add: store_row_def node_at_def find_key_update)
qed

lemma chans_of_store_row:
  "chans_of (store_row d key addr time owner payload sig cells) i =
     (if i = (case node_at d key of None \<Rightarrow> next_oid d | Some r \<Rightarrow> ndOid r) then cells else chans_of d i)"
  by (cases "node_at d key") (simp_all add: store_row_def, simp_all add: chans_of_def)

text \<open>Rowids are distinct, so the channels written for one node are nobody else's.\<close>

lemma view_store_row:
  assumes "wf_db d"
  shows "view (store_row d key addr time owner payload sig cells) =
    (view d)(key \<mapsto> \<lparr>nvAddress = addr, nvTime = time, nvOwner = owner, nvPayload = payload,
      nvSig = sig, nvExpires = 30 + counter d, nvChannels = cells\<rparr>)"
proof
  fix k
  let ?oid = "case node_at d key of None \<Rightarrow> next_oid d | Some r \<Rightarrow> ndOid r"
  have "ndOid r \<noteq> ?oid" if "k \<noteq> key" "node_at d k = Some r" for r
  proof (cases "node_at d key")
    case None
    have "r \<in> set (node d)" using that(2) by (auto simp: node_at_def dest: find_key_Some)
    then show ?thesis using None next_oid_fresh by force
  next
    case (Some r0)
    then show ?thesis using node_at_oid [OF assms that(2) Some] that(1) by simp
  qed
  then show "view (store_row d key addr time owner payload sig cells) k = ((view d)(key \<mapsto>
      \<lparr>nvAddress = addr, nvTime = time, nvOwner = owner, nvPayload = payload,
      nvSig = sig, nvExpires = 30 + counter d, nvChannels = cells\<rparr>)) k"
    by (cases "node_at d k") (auto simp: view_def node_at_store_row row_view_def chans_of_store_row)
qed

lemma store_row_frame [simp]:
  "config (store_row d key addr time owner payload sig cells) = config d"
  "channels (store_row d key addr time owner payload sig cells) = channels d"
  "announce (store_row d key addr time owner payload sig cells) = announce d"
  by (cases "node_at d key"; simp add: store_row_def)+

lemma AddNetNode_result:
  assumes "good (disk w)"
  shows "\<exists>changed err w'. AddNetNode G key addr time owner cs payload sig w = Some ((changed, err), w') \<and>
    (case err of
       Some e \<Rightarrow> disk w' = disk w
     | None \<Rightarrow> (changed \<longleftrightarrow> changes (view (disk w)) key payload) \<and>
         disk w' = (if changed then store_row (disk w) key (AddressToBytes G addr) time owner payload sig
           (map (ChanCell G) cs) else disk w))"
proof -
  let ?work = "AddNetNode_work G key addr time owner cs payload sig"
  let ?I = "\<lambda>r. r \<longrightarrow> changes (view (disk w)) key payload"
  let ?Q = "\<lambda>r' d'. if changes (view (disk w)) key payload
      then r' \<and> d' = store_row (disk w) key (AddressToBytes G addr) time owner payload sig (map (ChanCell G) cs)
      else \<not> r' \<and> d' = disk w"
  have "wraps (AddNetNode_insert_channels G oid cs)" for oid
    by (induction cs) (auto intro!: wraps_intros simp del: no_fault_ret)
  then have "wraps ?work"
    by (auto simp: AddNetNode_work_def AddNetNode_channels_def intro!: wraps_intros split: prod.splits)
  then obtain err changed w' where run: "doTxn ''AddNetNode'' ?work False w = Some (err, changed, w')"
    using doTxn_returns by (metis prod_cases3)
  have "runs ?work r0 (disk w) ?Q (\<lambda>_. ?I)" if "?I r0" for r0
    by (rule runs_mono [OF runs_AddNetNode [OF assms]]) (use that in \<open>auto split: if_splits\<close>)
  then have "case err of None \<Rightarrow> ?Q changed (disk w') | Some _ \<Rightarrow> ?I changed \<and> disk w' = disk w"
    using doTxn_runs [OF run, of ?I ?Q] by (auto split: if_splits)
  then show ?thesis
    using run by (cases err) (auto simp: AddNetNode_def results_def split: if_splits)
qed

text \<open>
  C5: \<open>AddNetNode\<close> implements its specification under any driver faults. It always returns.
  With a nil error, \<open>changed\<close> says exactly whether the payload differs from the stored one
  (or the node is new); then the stored view of that node, channels included, is the
  announced one with a fresh expiry, every other node and all other tables are untouched,
  and an unchanged payload leaves the tables as they were. With an error nothing is stored.
\<close>

theorem AddNetNode_refines:
  assumes "good (disk w)"
  shows "\<exists>changed err w'. AddNetNode G key addr time owner cs payload sig w = Some ((changed, err), w') \<and>
    (err = None \<longrightarrow> (changed \<longleftrightarrow> changes (view (disk w)) key payload) \<and>
       view (disk w') = (if changed
         then (view (disk w))(key \<mapsto> announced G (counter (disk w)) addr time owner cs payload sig)
         else view (disk w)) \<and>
       config (disk w') = config (disk w) \<and> channels (disk w') = channels (disk w) \<and>
       announce (disk w') = announce (disk w)) \<and>
    (err \<noteq> None \<longrightarrow> disk w' = disk w)"
proof -
  obtain changed err w' where "AddNetNode G key addr time owner cs payload sig w = Some ((changed, err), w')"
    "case err of
       Some e \<Rightarrow> disk w' = disk w
     | None \<Rightarrow> (changed \<longleftrightarrow> changes (view (disk w)) key payload) \<and>
         disk w' = (if changed then store_row (disk w) key (AddressToBytes G addr) time owner payload sig
           (map (ChanCell G) cs) else disk w)"
    using AddNetNode_result [OF assms] by blast
  then show ?thesis
    using assms
    by (cases err) (auto simp: good_def view_store_row announced_def split: if_splits)
qed

text \<open>A world to try the operations in: an initialised database, no faults.\<close>

definition sample_db :: db where
  "sample_db = empty_db\<lparr>schema := True, ownerCol := True, migration := [2], config := [(1, 19675)]\<rparr>"

definition sample_world :: world where
  "sample_world = \<lparr>disk = sample_db, faults = [], unixNow = 1700000000, rnd = 0\<rparr>"

lemma good_sample [simp]: "good sample_db" "good (disk sample_world)" "faults sample_world = []"
  by (simp_all add: good_def ready_def wf_db_def sample_db_def sample_world_def empty_db_def)

lemma counter_sample [simp]: "counter sample_db = 1" "disk sample_world = sample_db"
  by (simp_all add: counter_def sample_db_def sample_world_def)

lemma view_sample [simp]: "view sample_db k = None"
  by (simp add: view_def node_at_def sample_db_def empty_db_def)

theorem AddNetNode_refines_witness:
  "\<exists>changed err w'. AddNetNode sample_gossip (replicate 32 5)
      \<lparr>Host = IPv4 8 8 8 8, Port = 22\<rparr> 100 (replicate 32 0) [1, 2] [1, 2, 3] [4] sample_world =
        Some ((changed, err), w') \<and>
    (err = None \<longrightarrow> changed \<and> map_option nvPayload (view (disk w') (replicate 32 5)) = Some [1, 2, 3])"
proof -
  let ?m = "view (disk sample_world)"
  obtain changed err w' where
    "AddNetNode sample_gossip (replicate 32 5) \<lparr>Host = IPv4 8 8 8 8, Port = 22\<rparr> 100 (replicate 32 0)
      [1, 2] [1, 2, 3] [4] sample_world = Some ((changed, err), w')" and
    "err = None \<longrightarrow> (changed \<longleftrightarrow> changes ?m (replicate 32 5) [1, 2, 3]) \<and>
       view (disk w') = (if changed then ?m(replicate 32 5 \<mapsto> announced sample_gossip (counter (disk sample_world))
         \<lparr>Host = IPv4 8 8 8 8, Port = 22\<rparr> 100 (replicate 32 0) [1, 2] [1, 2, 3] [4]) else ?m)"
    using AddNetNode_refines [of sample_world sample_gossip "replicate 32 5"
      "\<lparr>Host = IPv4 8 8 8 8, Port = 22\<rparr>" 100 "replicate 32 0" "[1, 2]" "[1, 2, 3]" "[4]"]
      good_sample(2) by blast
  then show ?thesis
    by (intro exI [of _ changed] exI [of _ err] exI [of _ w'])
      (auto simp: changes_def announced_def)
qed

lemma good_simps [simp]:
  "good d \<Longrightarrow> schema d" "good d \<Longrightarrow> ownerCol d"
  by (simp_all add: good_def ready_def)

lemma insert_channels_no_fault:
  "schema d \<Longrightarrow> (\<forall>c\<in>set cs. (oid, ChanCell G c) \<notin> set (chan d)) \<Longrightarrow>
   \<exists>d'. AddNetNode_insert_channels G oid cs r (d, []) =
     (if distinct (map (ChanCell G) cs) then (None, True, d', [])
      else (Some (Errorf ''insert channel: '' constraint_failed), r, d', []))"
proof (induction cs arbitrary: d)
  case (Cons c cs)
  let ?d = "d\<lparr>chan := chan d @ [(oid, ChanCell G c)]\<rparr>"
  show ?case
  proof (cases "ChanCell G c \<in> ChanCell G ` set cs")
    case False
    then have "\<forall>x\<in>set cs. (oid, ChanCell G x) \<notin> set (chan ?d)"
      using Cons.prems(2) False by (auto simp: image_iff)
    from Cons.IH [OF _ this] Cons.prems False show ?thesis by (auto simp: stmt_defs)
  next
    case True
    then obtain x where x: "x \<in> set cs" "ChanCell G x = ChanCell G c" by auto
    have "\<exists>d'. AddNetNode_insert_channels G oid xs r (e, []) =
        (Some (Errorf ''insert channel: '' constraint_failed), r, d', [])"
      if "schema e" "(oid, ChanCell G c) \<in> set (chan e)" "x \<in> set xs" for xs e
      using that
    proof (induction xs arbitrary: e)
      case (Cons y ys)
      then show ?case using x(2) by (auto simp: stmt_defs)
    qed simp
    from this [of ?d cs] x(1) True Cons.prems show ?thesis by (auto simp: stmt_defs)
  qed
qed simp

text \<open>
  The one way a valid call of \<open>AddNetNode\<close> fails without any driver failure. It succeeds
  exactly when the payload is the stored one or the announced channels are written in
  different cells; an announcement that lists a channel twice is refused with an error, and
  then the node is not stored at all.
\<close>

theorem AddNetNode_duplicate_channels:
  assumes "good (disk w)" and "faults w = []"
  shows "\<exists>changed err w'. AddNetNode G key addr time owner cs payload sig w = Some ((changed, err), w') \<and>
    (err = None \<longleftrightarrow> \<not> changes (view (disk w)) key payload \<or> distinct (map (ChanCell G) cs)) \<and>
    (err \<noteq> None \<longrightarrow> \<not> changed \<and> w' = w)"
proof -
  let ?work = "AddNetNode_work G key addr time owner cs payload sig"
  have chans: "\<exists>d'. AddNetNode_channels G oid cs False (d, []) =
     (if distinct (map (ChanCell G) cs) then (None, True, d', [])
      else (Some (Errorf ''insert channel: '' constraint_failed), False, d', []))" if "schema d" for oid d
    using insert_channels_no_fault [of "d\<lparr>chan := filter (\<lambda>(n, _). n \<noteq> oid) (chan d)\<rparr>" cs oid G False] that
    by (simp add: AddNetNode_channels_def stmt_defs sql_prepare_def)
  have "\<exists>d' b. ?work False (disk w, []) =
     (if \<not> changes (view (disk w)) key payload \<or> distinct (map (ChanCell G) cs) then (None, b, d', [])
      else (Some (Errorf ''insert channel: '' constraint_failed), False, d', []))"
  proof (cases "changes (view (disk w)) key payload")
    case True
    have "\<exists>oid e. ?work False (disk w, []) = AddNetNode_channels G oid cs False (e, []) \<and> schema e"
    proof (cases "node_at (disk w) key")
      case None
      then have "key \<notin> ndKey ` set (node (disk w))" by (simp add: node_at_def find_key_None)
      then show ?thesis
        using None assms(1)
        by (simp add: AddNetNode_work_def stmt_defs node_at_def) (intro exI conjI, rule refl, simp)
    next
      case (Some r0)
      then have "key \<in> ndKey ` set (node (disk w))" by (auto simp: node_at_def dest: find_key_Some)
      then show ?thesis
        using Some True assms(1)
        by (simp add: AddNetNode_work_def stmt_defs node_at_def changes_def view_def row_view_def)
          (intro exI conjI, rule refl, simp)
    qed
    with chans True show ?thesis by fastforce
  next
    case False
    then obtain r0 where "node_at (disk w) key = Some r0" "ndPayload r0 = payload"
      by (auto simp: changes_def view_def row_view_def)
    with False assms(1) show ?thesis
      by (auto simp: AddNetNode_work_def stmt_defs node_at_def)
  qed
  then obtain d' b where "?work False (disk w, []) =
     (if \<not> changes (view (disk w)) key payload \<or> distinct (map (ChanCell G) cs) then (None, b, d', [])
      else (Some (Errorf ''insert channel: '' constraint_failed), False, d', []))" by blast
  then show ?thesis
    using doTxn_ok [of w ?work False b d' "''AddNetNode''"] assms(2)
      doTxn_err [of w ?work False "Errorf ''insert channel: '' constraint_failed" False d' "''AddNetNode''"]
    by (auto simp: AddNetNode_def results_def split: if_splits)
qed

theorem AddNetNode_duplicate_channels_witness:
  "\<exists>err w'. AddNetNode sample_gossip (replicate 32 5)
      \<lparr>Host = IPv4 8 8 8 8, Port = 22\<rparr> 100 (replicate 32 0) [1, 1] [1, 2, 3] [4] sample_world =
        Some ((False, Some err), w') \<and> w' = sample_world"
  using AddNetNode_duplicate_channels [of sample_world sample_gossip "replicate 32 5"
      "\<lparr>Host = IPv4 8 8 8 8, Port = 22\<rparr>" 100 "replicate 32 0" "[1, 1]" "[1, 2, 3]" "[4]"]
  by (auto simp: changes_def)

end
