(* ===== verification/StoreExpiry.thy ===== *)
theory StoreExpiry
  imports StoreSpec
begin

text \<open>
  Expiry (\<open>TrimNodes\<close>), the lifetime of nodes over any sequence of trims, and the trimming
  service of \<open>internal/store/trimmer.go\<close>.
\<close>

section \<open>TrimNodes\<close>

definition last_day :: "db \<Rightarrow> int" where
  "last_day d = snd (hd (config d))"

definition expire :: "int \<Rightarrow> (bytes \<Rightarrow> nodeView option) \<Rightarrow> (bytes \<Rightarrow> nodeView option)" where
  "expire c m = (\<lambda>k. case m k of Some v \<Rightarrow> if nvExpires v < c then None else Some v | None \<Rightarrow> None)"

definition expired_channels :: "int \<Rightarrow> db \<Rightarrow> (tag4cc \<times> int) list" where
  "expired_channels c d = filter (\<lambda>(ch, k). k < c) (channels d)"

text \<open>The tables after the day counter has advanced to a new day.\<close>

definition trimmed :: "int \<Rightarrow> db \<Rightarrow> db" where
  "trimmed today d =
     d\<lparr>config := [(counter d + 1, today)],
       node := filter (\<lambda>r. \<not> ndDayc r < counter d + 1) (node d),
       channels := filter (\<lambda>(ch, k). \<not> k < counter d + 1) (channels d)\<rparr>"

lemma good_last: "good d \<Longrightarrow> config d = [(counter d, last_day d)]"
  using good_config by (simp add: last_day_def)

lemma runs_TrimNodes:
  assumes "good d"
  shows "runs (TrimNodes_work today) r d
    (\<lambda>r' d'. if last_day d = today then r' = r \<and> d' = d
             else r' = (True, int (length (expired_channels (counter d + 1) d))) \<and> d' = trimmed today d)
    (\<lambda>_ r'. last_day d = today \<longrightarrow> r' = r)"
  using good_last [OF assms] assms
  by (auto simp: TrimNodes_work_def Let_def stmt_defs trimmed_def expired_channels_def
      intro!: runs_on_sql split: if_splits prod.splits)

lemma find_filter_key:
  "distinct (map ndKey xs) \<Longrightarrow>
   find (\<lambda>r. ndKey r = k) (filter P xs) =
   (case find (\<lambda>r. ndKey r = k) xs of Some r \<Rightarrow> if P r then Some r else None | None \<Rightarrow> None)"
proof (induction xs)
  case (Cons x xs)
  have "find (\<lambda>r. ndKey r = k) xs = None" if "ndKey x = k"
    using Cons.prems that by (auto simp: find_key_None)
  then show ?case using Cons by auto
qed simp

lemma view_trimmed:
  assumes "wf_db d"
  shows "view (trimmed today d) = expire (counter d + 1) (view d)"
proof
  fix k
  have "node_at (trimmed today d) k =
      (case node_at d k of Some r \<Rightarrow> if ndDayc r < counter d + 1 then None else Some r | None \<Rightarrow> None)"
    using assms
    by (simp add: node_at_def trimmed_def wf_db_def find_filter_key split: option.splits)
  then show "view (trimmed today d) k = expire (counter d + 1) (view d) k"
    by (simp add: view_def expire_def row_view_def chans_of_def trimmed_def split: option.splits)
qed

lemma counter_trimmed [simp]: "counter (trimmed today d) = counter d + 1" "last_day (trimmed today d) = today"
  by (simp_all add: trimmed_def counter_def last_day_def)

lemma trimmed_neq [simp]: "d \<noteq> trimmed today d" "trimmed today d \<noteq> d"
  by (metis add.right_neutral add_left_cancel counter_trimmed(1) zero_neq_one)+

lemma trimmed_frame:
  "channels (trimmed today d) = filter (\<lambda>(ch, k). counter d + 1 \<le> k) (channels d)"
  "announce (trimmed today d) = announce d"
  by (auto simp: trimmed_def intro!: filter_cong)

lemma good_trimmed: "good d \<Longrightarrow> good (trimmed today d)"
  by (simp add: good_def wf_db_def ready_def trimmed_def distinct_map_filter
      del: good_simps good_dayc)

lemma TrimNodes_result:
  assumes "good (disk w)"
  shows "\<exists>advanced remNode err w'. TrimNodes w = Some ((advanced, remNode, err), w') \<and>
    (case err of
       Some e \<Rightarrow> disk w' = disk w
     | None \<Rightarrow>
         if last_day (disk w) = unixDayStamp (unixNow w)
         then \<not> advanced \<and> remNode = 0 \<and> disk w' = disk w
         else advanced \<and> remNode = int (length (expired_channels (counter (disk w) + 1) (disk w))) \<and>
              disk w' = trimmed (unixDayStamp (unixNow w)) (disk w))"
proof -
  let ?t = "unixDayStamp (unixNow w)"
  let ?I = "\<lambda>r. last_day (disk w) = ?t \<longrightarrow> r = (False, 0 :: int)"
  let ?Q = "\<lambda>r' d'. if last_day (disk w) = ?t then r' = (False, 0) \<and> d' = disk w
     else r' = (True, int (length (expired_channels (counter (disk w) + 1) (disk w)))) \<and>
          d' = trimmed ?t (disk w)"
  have "wraps (TrimNodes_work ?t)"
    by (auto simp: TrimNodes_work_def Let_def intro!: wraps_intros split: prod.splits)
  then obtain err r' w' where run: "doTxn ''TrimNodes'' (TrimNodes_work ?t) (False, 0) w = Some (err, r', w')"
    using doTxn_returns by (metis prod_cases3)
  have "runs (TrimNodes_work ?t) r0 (disk w) ?Q (\<lambda>_. ?I)" if "?I r0" for r0
    by (rule runs_mono [OF runs_TrimNodes [OF assms]]) (use that in \<open>auto split: if_splits\<close>)
  then have "case err of None \<Rightarrow> ?Q r' (disk w') | Some _ \<Rightarrow> ?I r' \<and> disk w' = disk w"
    using doTxn_runs [OF run, of ?I ?Q] by (auto split: if_splits)
  then show ?thesis
    using run by (cases r') (auto simp: TrimNodes_def split: option.splits if_splits)
qed

text \<open>
  C25: \<open>TrimNodes\<close> under any driver faults. It always returns. On a day already stamped it
  does nothing; on any other day it advances the counter by exactly one, however many days
  have passed, stamps the day, and deletes exactly the nodes and registered channels whose
  stored day is below the new counter. On an error nothing changes. The number it reports
  as removed is the number of expired channels, not of nodes.
\<close>

theorem TrimNodes_refines:
  assumes "good (disk w)"
  shows "\<exists>advanced remNode err w'. TrimNodes w = Some ((advanced, remNode, err), w') \<and>
    (err = None \<longrightarrow>
       (advanced \<longleftrightarrow> last_day (disk w) \<noteq> unixDayStamp (unixNow w)) \<and>
       (if advanced then
          counter (disk w') = counter (disk w) + 1 \<and>
          last_day (disk w') = unixDayStamp (unixNow w) \<and>
          view (disk w') = expire (counter (disk w')) (view (disk w)) \<and>
          channels (disk w') = filter (\<lambda>(ch, k). counter (disk w') \<le> k) (channels (disk w)) \<and>
          announce (disk w') = announce (disk w) \<and>
          remNode = int (length (expired_channels (counter (disk w')) (disk w)))
        else disk w' = disk w \<and> remNode = 0)) \<and>
    (err \<noteq> None \<longrightarrow> disk w' = disk w)"
proof -
  obtain advanced remNode err w' where "TrimNodes w = Some ((advanced, remNode, err), w')" and
    "case err of
       Some e \<Rightarrow> disk w' = disk w
     | None \<Rightarrow>
         if last_day (disk w) = unixDayStamp (unixNow w)
         then \<not> advanced \<and> remNode = 0 \<and> disk w' = disk w
         else advanced \<and> remNode = int (length (expired_channels (counter (disk w) + 1) (disk w))) \<and>
              disk w' = trimmed (unixDayStamp (unixNow w)) (disk w)"
    using TrimNodes_result [OF assms] by blast
  then show ?thesis
    using assms view_trimmed [of "disk w" "unixDayStamp (unixNow w)"]
    by (intro exI [of _ advanced] exI [of _ remNode] exI [of _ err] exI [of _ w'])
      (auto simp: good_def trimmed_frame split: option.splits if_splits)
qed

theorem TrimNodes_refines_witness:
  "\<exists>advanced remNode err w'. TrimNodes (sample_world\<lparr>unixNow := 1700100000\<rparr>) =
      Some ((advanced, remNode, err), w') \<and> (err = None \<longrightarrow> advanced \<and> counter (disk w') = 2)"
proof -
  have "good (disk (sample_world\<lparr>unixNow := 1700100000\<rparr>))" by simp
  from TrimNodes_refines [OF this] obtain advanced remNode err w' where
    "TrimNodes (sample_world\<lparr>unixNow := 1700100000\<rparr>) = Some ((advanced, remNode, err), w')" and
    "err = None \<longrightarrow> (advanced \<longleftrightarrow> last_day sample_db \<noteq> unixDayStamp 1700100000) \<and>
      (advanced \<longrightarrow> counter (disk w') = counter sample_db + 1)"
    by (auto split: if_splits)
  then show ?thesis
    by (auto simp: last_day_def sample_db_def unixDayStamp_def SecondsPerDay_def go_div_def counter_def)
qed

section \<open>The trimming service (trimmer.go)\<close>

text \<open>
  \<open>StoreTrimmer.Run\<close> over any implementation of the store: an element of the schedule is
  one return of \<open>Sleep\<close>. \<open>None\<close> is a sleep cut short because the service stops; \<open>Some env\<close>
  is a full hour, after which the other users of the store and the clock have changed its
  state by \<open>env\<close>. The results of \<open>TrimNodes\<close> are only logged.
\<close>

fun trimmer_Run :: "'s store \<Rightarrow> ('s \<Rightarrow> 's) option list \<Rightarrow> 's \<Rightarrow> 's option" where
  "trimmer_Run st [] w = Some w"
| "trimmer_Run st (None # hours) w = Some w"
| "trimmer_Run st (Some env # hours) w =
     (case st_TrimNodes st (env w) of
        None \<Rightarrow> None
      | Some (_, w') \<Rightarrow> trimmer_Run st hours w')"

text \<open>The clock moves to \<open>t\<close> and the driver has the faults \<open>fs\<close> in store.\<close>

definition tick :: "int \<times> fault list \<Rightarrow> (world \<Rightarrow> world) option" where
  "tick = (\<lambda>(t, fs). Some (\<lambda>w. w\<lparr>unixNow := t, faults := fs\<rparr>))"

fun day_changes :: "int \<Rightarrow> int list \<Rightarrow> nat" where
  "day_changes prev [] = 0"
| "day_changes prev (d # ds) = (if d = prev then 0 else 1) + day_changes d ds"

lemma TrimNodes_no_fault:
  assumes "good (disk w)" "faults w = []"
  shows "\<exists>r w'. TrimNodes w = Some (r, w') \<and>
    disk w' = (if last_day (disk w) = unixDayStamp (unixNow w) then disk w
               else trimmed (unixDayStamp (unixNow w)) (disk w))"
proof -
  let ?t = "unixDayStamp (unixNow w)"
  let ?d = "if last_day (disk w) = ?t then disk w else trimmed ?t (disk w)"
  have "\<exists>r. TrimNodes_work ?t (False, 0) (disk w, []) = (None, r, ?d, [])"
    using good_last [OF assms(1)] assms(1)
    by (auto simp: TrimNodes_work_def Let_def stmt_defs trimmed_def)
  then obtain r where "TrimNodes_work ?t (False, 0) (disk w, []) = (None, r, ?d, [])" ..
  then show ?thesis
    using doTxn_ok [of w "TrimNodes_work ?t" "(False, 0)" r ?d "''TrimNodes''"] assms(2)
    by (cases r) (simp add: TrimNodes_def)
qed

lemma trimmer_step:
  assumes "good (disk w)"
  shows "\<exists>r w'. TrimNodes (w\<lparr>unixNow := t, faults := fs\<rparr>) = Some (r, w') \<and>
    (disk w' = disk w \<or> disk w' = trimmed (unixDayStamp t) (disk w)) \<and>
    (fs = [] \<longrightarrow> disk w' = (if last_day (disk w) = unixDayStamp t then disk w
                           else trimmed (unixDayStamp t) (disk w)))"
proof (cases "fs = []")
  case True
  then show ?thesis
    using TrimNodes_no_fault [of "w\<lparr>unixNow := t, faults := []\<rparr>"] assms by auto
next
  case False
  then show ?thesis
    using TrimNodes_result [of "w\<lparr>unixNow := t, faults := fs\<rparr>"] assms
    by (fastforce split: option.splits if_splits)
qed

lemma expire_expire: "c \<le> c' \<Longrightarrow> expire c' (expire c m) = expire c' m"
  by (auto simp: expire_def fun_eq_iff split: option.splits)

lemma trimmer_runs:
  assumes "good (disk w)"
  shows "\<exists>w'. trimmer_Run (sqliteStore G) (map tick ticks) w = Some w' \<and>
    counter (disk w) \<le> counter (disk w') \<and>
    counter (disk w') \<le> counter (disk w) + int (length ticks) \<and>
    ((\<forall>x\<in>set ticks. snd x = []) \<longrightarrow> counter (disk w') = counter (disk w) +
       int (day_changes (last_day (disk w)) (map (\<lambda>x. unixDayStamp (fst x)) ticks))) \<and>
    view (disk w') = (if counter (disk w') = counter (disk w) then view (disk w)
                      else expire (counter (disk w')) (view (disk w)))"
  using assms
proof (induction ticks arbitrary: w)
  case (Cons x ticks)
  obtain t fs where x: "x = (t, fs)" by (cases x)
  obtain r w1 where w1: "TrimNodes (w\<lparr>unixNow := t, faults := fs\<rparr>) = Some (r, w1)"
    and d: "disk w1 = disk w \<or> disk w1 = trimmed (unixDayStamp t) (disk w)"
    and f: "fs = [] \<longrightarrow> disk w1 = (if last_day (disk w) = unixDayStamp t then disk w
                           else trimmed (unixDayStamp t) (disk w))"
    using trimmer_step [OF Cons.prems] by blast
  have g: "good (disk w1)" using d Cons.prems good_trimmed by metis
  have v: "view (trimmed (unixDayStamp t) (disk w)) = expire (counter (disk w) + 1) (view (disk w))"
    using Cons.prems by (simp add: good_def view_trimmed)
  obtain w' where w': "trimmer_Run (sqliteStore G) (map tick ticks) w1 = Some w'"
    and le: "counter (disk w1) \<le> counter (disk w')"
      "counter (disk w') \<le> counter (disk w1) + int (length ticks)"
    and n: "(\<forall>x\<in>set ticks. snd x = []) \<longrightarrow> counter (disk w') = counter (disk w1) +
       int (day_changes (last_day (disk w1)) (map (\<lambda>x. unixDayStamp (fst x)) ticks))"
    and vw: "view (disk w') = (if counter (disk w') = counter (disk w1) then view (disk w1)
                      else expire (counter (disk w')) (view (disk w1)))"
    using Cons.IH [OF g] by blast
  have run: "trimmer_Run (sqliteStore G) (map tick (x # ticks)) w = Some w'"
    by (simp add: x tick_def sqliteStore_def w1) (simp add: w' [unfolded sqliteStore_def tick_def])
  show ?case
  proof (cases "disk w1 = disk w")
    case True
    with run le n vw f show ?thesis by (auto simp: x split: if_splits)
  next
    case False
    with d have t: "disk w1 = trimmed (unixDayStamp t) (disk w)" by blast
    with run le n vw f v False show ?thesis
      by (intro exI [of _ w']) (auto simp: x expire_expire split: if_splits)
  qed
qed simp


definition sample_node_db :: db where
  "sample_node_db = store_row sample_db (replicate 32 5) (replicate 18 1) 100 (replicate 32 0) [1, 2, 3] [4] []"

lemma good_sample_node: "good sample_node_db"
  by (simp add: sample_node_db_def store_row_def node_at_def sample_db_def empty_db_def
      set_chans_def good_def wf_db_def ready_def next_oid_def)


end
