(* ===== verification/StoreQueries.thy ===== *)
theory StoreQueries
  imports StoreExpiry
begin

text \<open>
  The remaining operations of the store: the announcement row, the registered channels, the
  queries, which calls can hang, what a retried transaction does to captured variables, and
  the classification of driver errors.
\<close>

section \<open>The announcement row\<close>

text \<open>The INSERT of \<open>SetAnnounce\<close> names four columns and gives three values.\<close>

lemma insert_announce_fails: "sql_insert_announce p s t d \<noteq> Inr x"
  by (simp add: stmt_defs)

lemma runs_SetAnnounce:
  assumes "good d"
  shows "runs (SetAnnounce_work p s t) r d
    (\<lambda>_ d'. announce d \<noteq> [] \<and>
       d' = d\<lparr>announce := map (\<lambda>a. a\<lparr>anPayload := p, anSig := s, anTime := t\<rparr>) (announce d)\<rparr>)
    (\<lambda>_ _. True)"
  unfolding SetAnnounce_work_def using assms
  by (auto simp: stmt_defs intro!: runs_on_sql split: if_splits)

lemma runs_SetAnnounceOwner:
  assumes "good d"
  shows "runs (SetAnnounceOwner_work ow) r d
    (\<lambda>_ d'. d' = d\<lparr>announce := (if announce d = []
         then [\<lparr>anPayload = [], anSig = [], anTime = 0, anOwner = Some ow\<rparr>]
         else map (\<lambda>a. a\<lparr>anOwner := Some ow\<rparr>) (announce d))\<rparr>)
    (\<lambda>_ _. True)"
  unfolding SetAnnounceOwner_work_def using assms
  by (auto simp: stmt_defs intro!: runs_on_sql split: if_splits)

definition announcement :: "db \<Rightarrow> (bytes \<times> bytes \<times> int \<times> bytes)" where
  "announcement d = (case announce d of
     [] \<Rightarrow> ([], [], 0, [])
   | a # _ \<Rightarrow> (anPayload a, anSig a, anTime a, case anOwner a of None \<Rightarrow> [] | Some ow \<Rightarrow> ow))"

lemma GetAnnounce_no_fault:
  assumes "good (disk w)" "faults w = []"
  shows "GetAnnounce w = (case announcement (disk w) of (p, s, t, ow) \<Rightarrow> Some ((p, s, t, ow, None), w))"
proof -
  have "GetAnnounce_work ([], [], 0, []) (disk w, []) = (None, announcement (disk w), disk w, [])"
    using assms(1)
    by (cases "announce (disk w)") (auto simp: GetAnnounce_work_def stmt_defs announcement_def)
  then show ?thesis
    using doTxn_ok [of w GetAnnounce_work "([], [], 0, [])" "announcement (disk w)" "disk w" "''GetAnnounce''"]
      assms(2)
    by (cases "announcement (disk w)") (simp add: GetAnnounce_def)
qed

lemma announce_single: "good d \<Longrightarrow> announce d \<noteq> [] \<Longrightarrow> \<exists>a. announce d = [a]"
  by (cases "announce d") (auto simp: good_def wf_db_def)

text \<open>
  C31: storing and reloading the announcement, under any driver faults while storing. If
  \<open>SetAnnounce\<close> returns nil there was an announcement row, and reading gives the stored
  payload, signature and time with the owner kept; if \<open>SetAnnounceOwner\<close> returns nil,
  reading gives that owner with the rest kept, and a row exists from then on.
\<close>

theorem announce_roundtrip:
  assumes "good (disk w)"
  shows "(\<forall>w'. SetAnnounce p s t w = Some (None, w') \<longrightarrow> announce (disk w) \<noteq> [] \<and>
      GetAnnounce (w'\<lparr>faults := []\<rparr>) =
        Some ((p, s, t, snd (snd (snd (announcement (disk w)))), None), w'\<lparr>faults := []\<rparr>)) \<and>
    (\<forall>w'. SetAnnounceOwner ow w = Some (None, w') \<longrightarrow> announce (disk w') \<noteq> [] \<and>
      GetAnnounce (w'\<lparr>faults := []\<rparr>) =
        (case announcement (disk w) of (p0, s0, t0, _) \<Rightarrow>
           Some ((p0, s0, t0, ow, None), w'\<lparr>faults := []\<rparr>)))"
proof (intro conjI allI impI)
  fix w' assume "SetAnnounce p s t w = Some (None, w')"
  then obtain u where run: "doTxn ''SetAnnounce'' (SetAnnounce_work p s t) () w = Some (None, u, w')"
    by (auto simp: SetAnnounce_def result_simps)
  have g: "good (disk w')"
    by (rule doTxn_good [OF run assms]) (simp_all add: bodies_keep)
  from doTxn_post [OF run runs_SetAnnounce [OF assms]]
  have n: "announce (disk w) \<noteq> []" and d: "disk w' = (disk w)\<lparr>announce :=
      map (\<lambda>a. a\<lparr>anPayload := p, anSig := s, anTime := t\<rparr>) (announce (disk w))\<rparr>"
    by auto
  then show "announce (disk w) \<noteq> []" by simp
  from announce_single [OF assms n] obtain a where "announce (disk w) = [a]" ..
  then show "GetAnnounce (w'\<lparr>faults := []\<rparr>) =
      Some ((p, s, t, snd (snd (snd (announcement (disk w)))), None), w'\<lparr>faults := []\<rparr>)"
    using GetAnnounce_no_fault [of "w'\<lparr>faults := []\<rparr>"] g d by (simp add: announcement_def)
next
  fix w' assume "SetAnnounceOwner ow w = Some (None, w')"
  then obtain u where run: "doTxn ''SetAnnounceOwner'' (SetAnnounceOwner_work ow) () w = Some (None, u, w')"
    by (auto simp: SetAnnounceOwner_def result_simps)
  have g: "good (disk w')"
    using doTxn_post [OF run post_good_insert_owner [OF assms]] by auto
  from doTxn_post [OF run runs_SetAnnounceOwner [OF assms]]
  have d: "disk w' = (disk w)\<lparr>announce := (if announce (disk w) = []
         then [\<lparr>anPayload = [], anSig = [], anTime = 0, anOwner = Some ow\<rparr>]
         else map (\<lambda>a. a\<lparr>anOwner := Some ow\<rparr>) (announce (disk w)))\<rparr>"
    by auto
  then show "announce (disk w') \<noteq> []" by auto
  show "GetAnnounce (w'\<lparr>faults := []\<rparr>) = (case announcement (disk w) of (p0, s0, t0, _) \<Rightarrow>
           Some ((p0, s0, t0, ow, None), w'\<lparr>faults := []\<rparr>))"
    using GetAnnounce_no_fault [of "w'\<lparr>faults := []\<rparr>"] g d
    by (cases "announce (disk w)") (simp_all add: announcement_def)
qed

theorem announce_roundtrip_witness:
  "\<exists>w'. SetAnnounceOwner [7] sample_world = Some (None, w') \<and>
    GetAnnounce (w'\<lparr>faults := []\<rparr>) = Some (([], [], 0, [7], None), w'\<lparr>faults := []\<rparr>)"
proof -
  have e: "announce sample_db = []" by (simp add: sample_db_def empty_db_def)
  have "\<exists>w'. SetAnnounceOwner [7] sample_world = Some (None, w')"
    using good_sample(1) e
    by (simp add: SetAnnounceOwner_def doTxn_first SetAnnounceOwner_work_def stmt_defs only_error_def)
  then obtain w' where w': "SetAnnounceOwner [7] sample_world = Some (None, w')" ..
  then show ?thesis
    using announce_roundtrip [OF good_sample(2), of "[]" "[]" 0 "[7]"] e
    by (auto simp: announcement_def)
qed

lemma SetAnnounce_without_row:
  assumes "good (disk w)" and "announce (disk w) = []" and "SetAnnounce p s t w = Some (e, w')"
  shows "e \<noteq> None \<and> disk w' = disk w"
proof -
  obtain u where run: "doTxn ''SetAnnounce'' (SetAnnounce_work p s t) () w = Some (e, u, w')"
    using assms(3) by (auto simp: SetAnnounce_def result_simps)
  have "e \<noteq> None"
  proof
    assume "e = None"
    then have "doTxn ''SetAnnounce'' (SetAnnounce_work p s t) () w = Some (None, u, w')" using run by simp
    from doTxn_post [OF this runs_SetAnnounce [OF assms(1)]] assms(2)
    show False by auto
  qed
  then show ?thesis using run doTxn_error by auto
qed

lemma sample_SetAnnounce: "\<exists>e. SetAnnounce p s t sample_world = Some (Some e, sample_world)"
proof -
  have e: "announce (disk sample_world) = []" by (simp add: sample_db_def empty_db_def)
  have "\<exists>e w'. SetAnnounce p s t sample_world = Some (e, w') \<and> w' = sample_world"
    using good_sample(1) e
    by (simp add: SetAnnounce_def doTxn_first SetAnnounce_work_def stmt_defs only_error_def IsConflict_def)
  then show ?thesis using SetAnnounce_without_row [OF good_sample(2) e] by blast
qed

text \<open>
  On a database that has no announcement row yet, \<open>SetAnnounce\<close> can never store one,
  with or without driver failures: it does not return nil, and nothing is written. The
  statement that should insert the row lists four columns and three values.
\<close>

theorem SetAnnounce_never_inserts:
  assumes "good (disk w)" and "announce (disk w) = []" and "SetAnnounce p s t w = Some (e, w')"
  shows "e \<noteq> None \<and> disk w' = disk w"
  using SetAnnounce_without_row [OF assms] .

theorem SetAnnounce_never_inserts_witness:
  "\<exists>e. SetAnnounce [1] [2] 3 sample_world = Some (Some e, sample_world)"
proof -
  have e: "announce (disk sample_world) = []" by (simp add: sample_db_def empty_db_def)
  obtain e w' where "SetAnnounce [1] [2] 3 sample_world = Some (e, w')" "w' = sample_world"
    using sample_SetAnnounce by blast
  then show ?thesis using SetAnnounce_never_inserts [OF good_sample(2) e, of "[1]" "[2]" 3] by blast
qed

section \<open>Registered channels\<close>

definition channel_days :: "db \<Rightarrow> tag4cc \<Rightarrow> int option" where
  "channel_days d = map_of (channels d)"

lemma view_frame [simp]:
  "view (d\<lparr>channels := x\<rparr>) = view d" "view (d\<lparr>announce := y\<rparr>) = view d"
proof -
  have "row_view (d\<lparr>channels := x\<rparr>) = row_view d" "row_view (d\<lparr>announce := y\<rparr>) = row_view d"
    by (auto simp: row_view_def chans_of_def intro!: ext)
  then show "view (d\<lparr>channels := x\<rparr>) = view d" "view (d\<lparr>announce := y\<rparr>) = view d"
    by (auto simp: view_def node_at_def intro!: ext)
qed

lemma map_of_refresh:
  "map_of (map (\<lambda>(c, x). if c = ch then (c, k) else (c, x)) xs) =
   (if ch \<in> fst ` set xs then (map_of xs)(ch \<mapsto> k) else map_of xs)"
  by (induction xs) (auto simp: fun_eq_iff)

lemma runs_AddChannel:
  assumes "good d"
  shows "runs (AddChannel_work ch) r d
    (\<lambda>_ d'. channel_days d' = (channel_days d)(ch \<mapsto> 7 + counter d) \<and>
        view d' = view d \<and> config d' = config d \<and> announce d' = announce d)
    (\<lambda>_ _. True)"
proof (cases "ch \<in> fst ` set (channels d)")
  case True
  then have "filter (\<lambda>(c, _). c = ch) (channels d) \<noteq> []"
    by (auto simp: filter_empty_conv)
  then show ?thesis
    unfolding AddChannel_work_def using assms True
    by (intro runs_on_sql) (auto simp: stmt_defs channel_days_def map_of_refresh simp del: map_map)
next
  case False
  then have "map_of (channels d) ch = None" by (simp add: map_of_eq_None_iff)
  then show ?thesis
    unfolding AddChannel_work_def using assms False
    by (intro runs_on_sql)
      (auto simp: stmt_defs channel_days_def fun_eq_iff map_add_def intro!: runs_on_sql
        split: option.splits)
qed

lemma GetChannels_no_fault:
  assumes "good (disk w)" "faults w = []"
  shows "GetChannels w = Some ((map fst (channels (disk w)), None), w)"
proof -
  have "GetChannels_work [] (disk w, []) = (None, map fst (channels (disk w)), disk w, [])"
    using assms(1) by (simp add: GetChannels_work_def stmt_defs)
  from doTxn_ok [of w GetChannels_work "[]", OF assms(2) this] show ?thesis
    by (simp add: GetChannels_def results_def)
qed

text \<open>
  C32: registering a channel. If \<open>AddChannel\<close> returns nil, the channel is registered and
  expires seven days of the counter from now, whether it was new or known; no other channel,
  node, announcement or setting changes, and \<open>GetChannels\<close> then lists each registered
  channel exactly once.
\<close>

theorem AddChannel_registers:
  assumes "good (disk w)" and "AddChannel ch w = Some (None, w')"
  shows "channel_days (disk w') = (channel_days (disk w))(ch \<mapsto> 7 + counter (disk w)) \<and>
    view (disk w') = view (disk w) \<and> config (disk w') = config (disk w) \<and>
    announce (disk w') = announce (disk w) \<and>
    (\<exists>cs. GetChannels (w'\<lparr>faults := []\<rparr>) = Some ((cs, None), w'\<lparr>faults := []\<rparr>) \<and>
       distinct cs \<and> set cs = insert ch (dom (channel_days (disk w))))"
proof -
  obtain u where run: "doTxn ''AddChannel'' (AddChannel_work ch) () w = Some (None, u, w')"
    using assms(2) by (auto simp: AddChannel_def result_simps)
  have g: "good (disk w')" by (rule doTxn_good [OF run assms(1)]) (simp_all add: bodies_keep)
  from doTxn_post [OF run runs_AddChannel [OF assms(1)]]
  have p: "channel_days (disk w') = (channel_days (disk w))(ch \<mapsto> 7 + counter (disk w)) \<and>
    view (disk w') = view (disk w) \<and> config (disk w') = config (disk w) \<and>
    announce (disk w') = announce (disk w)" by auto
  moreover have "set (map fst (channels (disk w'))) = dom (channel_days (disk w'))"
    by (simp add: channel_days_def dom_map_of_conv_image_fst)
  moreover have "distinct (map fst (channels (disk w')))" using g by (simp add: good_def wf_db_def)
  ultimately show ?thesis
    using GetChannels_no_fault [of "w'\<lparr>faults := []\<rparr>"] g by simp
qed

theorem AddChannel_registers_witness:
  "\<exists>w'. AddChannel 9 sample_world = Some (None, w') \<and> channel_days (disk w') 9 = Some 8"
proof -
  have "\<exists>w'. AddChannel 9 sample_world = Some (None, w')"
    using good_dayc [OF good_sample(1)] good_sample(1)
    by (simp add: AddChannel_def doTxn_first AddChannel_work_def stmt_defs only_error_def)
      (simp add: sample_db_def empty_db_def)
  then show ?thesis using AddChannel_registers [OF good_sample(2), of 9] by auto
qed

end
