(* ===== verification/NetState.thy ===== *)
theory NetState
  imports DogeSpec
begin

text \<open>
  The shared state of \<open>NetService\<close> and the operations that take its mutex
  (\<open>internal/netsvc/service.go\<close>), with the structures of the connections (\<open>peer.go\<close>,
  \<open>handler.go\<close>). Pointers to connections and to connection structures are numbers; the
  structures live in the maps \<open>peers\<close> and \<open>hands\<close>. A critical section is one function on
  the state, so the interleavings of the goroutines are sequences of these functions.
\<close>

section \<open>Connections and their goroutines\<close>

type_synonym conn = nat

text \<open>
  Where the goroutine \<open>receiveFromPeer\<close> is. \<open>RPoll\<close> is the loop of \<open>sendMyAddress\<close> with the
  message last read, \<open>RWriteHdr\<close> and \<open>RWritePay\<close> its two writes; \<open>RIngest\<close> and
  \<open>RForward\<close> are inside \<open>ingestAddress\<close>, before the store call and before the broadcast,
  called from one of three places.
\<close>

datatype caller = OutboundReply | InboundFirst | Relay

datatype recv_pc =
    RPoll rawMessage
  | RWriteHdr rawMessage
  | RWritePay rawMessage
  | RAwaitReply
  | RAdoptOut message
  | RAwaitFirst
  | RAdoptIn message
  | RIngest caller message
  | RForward caller message "goerr option"
  | RLoop
  | RRead
  | RForwardHandlers message
  | RClosing
  | RDone

text \<open>Where \<open>sendToPeer\<close> and \<open>sendToHandler\<close> are; \<open>SNone\<close> before the \<open>go\<close> statement.\<close>

datatype send_pc =
    SNone
  | STop
  | SSelect
  | SHdr rawMessage
  | SPay rawMessage
  | SClosing
  | SDone

record peerConn =
  pConn :: conn
  pAllowLocal :: bool
  pOutbound :: bool
  pHasPub :: bool
  pSend :: "rawMessage list"
  pAddr :: address
  pPub :: pubkey
  pNodeKey :: keyPair
  pRecv :: recv_pc
  pSender :: send_pc

datatype hand_pc =
    HBind
  | HAddChannel bindMessage
  | HOwner bindMessage
  | HChannel bindMessage
  | HReply bindMessage
  | HLoop
  | HRead
  | HForward message
  | HClosing
  | HDone

record handlerConn =
  hConn :: conn
  hChannel :: tag4cc
  hRecv :: hand_pc
  hSender :: send_pc

section \<open>The service\<close>

definition IdealPeers :: nat where "IdealPeers = 8"
definition PeerLockTime :: int where "PeerLockTime = 30 * Second"
definition SeedAttemptTime :: int where "SeedAttemptTime = 60 * Second"
definition SeedAttemptRandom :: nat where "SeedAttemptRandom = 10"
definition GossipAddressInverval :: int where "GossipAddressInverval = 60 * Second"
definition GossipAddressRandom :: nat where "GossipAddressRandom = 10"

definition NoPubKey :: pubkey where "NoPubKey = replicate 32 0"

text \<open>
  Where the goroutines of the service itself are; a \<open>Sleep\<close> and a \<open>time.After\<close> carry the
  instant they end, \<open>DLookupPause\<close> and \<open>DPause\<close> are where the length of a sleep is drawn.
\<close>

datatype find_pc =
    FTop
  | FPick
  | FPause int
  | FWait int
  | FGot nodeInfo bool
  | FLock nodeInfo bool
  | FDial nodeInfo bool
  | FSleep int
  | FDone

datatype gossip_pc = GTop | GSleep int | GChoose | GForward rawMessage | GDone

datatype seed_pc =
    DLookup
  | DLookupPause
  | DLookupSleep int
  | DTop "ip list"
  | DDial "ip list" nat
  | DPause "ip list"
  | DSleep "ip list" int
  | DDone

datatype accept_pc = AStart | ATop | AAccept | ADone

text \<open>
  The fields of \<open>NetService\<close>, then what the goroutines and the environment add: the
  connection structures, the next unused number, the cancelled context (\<open>stopping\<close>), the
  connections and listeners already closed, what was written to each connection, the clock
  in nanoseconds, the program points, whether the process has been ended by
  \<open>log.Fatal\<close> or a panic, and the state of the store.
\<close>

record 's net =
  bindAddrs :: "address list"
  handlerBind :: bindTo
  allowLocal :: bool
  nodeKey :: keyPair
  newPeers :: "nodeInfo list"
  announceChanges :: "change list"
  connections :: "conn list"
  listeners :: "nat list"
  connectedPeers :: "(pubkey \<times> nat) list"
  lockedPeers :: "(pubkey \<times> int) list"
  socket :: "nat option"
  handlers :: "nat list"
  encAnnounce :: rawMessage
  peers :: "nat \<Rightarrow> peerConn option"
  hands :: "nat \<Rightarrow> handlerConn option"
  nextId :: nat
  stopping :: bool
  stopped :: bool
  closed :: "conn set"
  accepting :: "nat set"
  wire :: "conn \<Rightarrow> bytes list"
  clock :: int
  findPc :: find_pc
  gossipPc :: gossip_pc
  seedPc :: seed_pc
  acceptPc :: accept_pc
  crashed :: bool
  stState :: 's

definition zero_rawMessage :: rawMessage where
  "zero_rawMessage = \<lparr>Header = [], Payload = []\<rparr>"

definition NetService_New :: "address list \<Rightarrow> bindTo \<Rightarrow> keyPair \<Rightarrow> bool \<Rightarrow> int \<Rightarrow> 's \<Rightarrow> 's net" where
  "NetService_New binds handler key local now s =
     \<lparr>bindAddrs = binds, handlerBind = handler, allowLocal = local, nodeKey = key,
      newPeers = [], announceChanges = [], connections = [], listeners = [],
      connectedPeers = [], lockedPeers = [], socket = None, handlers = [],
      encAnnounce = zero_rawMessage, peers = (\<lambda>_. None), hands = (\<lambda>_. None), nextId = 0,
      stopping = False, stopped = False, closed = {}, accepting = {}, wire = (\<lambda>_. []),
      clock = now, findPc = FTop, gossipPc = GTop, seedPc = DLookup, acceptPc = AStart,
      crashed = False, stState = s\<rparr>"

section \<open>Access to the structures\<close>

definition set_peer :: "nat \<Rightarrow> (peerConn \<Rightarrow> peerConn) \<Rightarrow> 's net \<Rightarrow> 's net" where
  "set_peer p f n = n\<lparr>peers := (peers n)(p := map_option f (peers n p))\<rparr>"

definition set_hand :: "nat \<Rightarrow> (handlerConn \<Rightarrow> handlerConn) \<Rightarrow> 's net \<Rightarrow> 's net" where
  "set_hand h f n = n\<lparr>hands := (hands n)(h := map_option f (hands n h))\<rparr>"

definition close_conn :: "conn \<Rightarrow> 's net \<Rightarrow> 's net" where
  "close_conn c n = n\<lparr>closed := insert c (closed n)\<rparr>"

definition conn_write :: "conn \<Rightarrow> bytes \<Rightarrow> 's net \<Rightarrow> 's net" where
  "conn_write c b n = n\<lparr>wire := (wire n)(c := wire n c @ [b])\<rparr>"

section \<open>The announcement and the queues\<close>

definition ns_GetAnnounce :: "'s net \<Rightarrow> rawMessage" where
  "ns_GetAnnounce n = encAnnounce n"

definition ns_setAnnounce :: "rawMessage \<Rightarrow> 's net \<Rightarrow> 's net" where
  "ns_setAnnounce msg n = n\<lparr>encAnnounce := msg\<rparr>"

text \<open>Blocks (\<open>None\<close>) when ten peers are waiting to be tried.\<close>

definition AddPeer :: "nodeInfo \<Rightarrow> 's net \<Rightarrow> 's net option" where
  "AddPeer node n = map_option (\<lambda>q. n\<lparr>newPeers := q\<rparr>) (chan_send 10 node (newPeers n))"

interpretation netsvc: net_svc AddPeer newPeers "\<lambda>q n. n\<lparr>newPeers := q\<rparr>"
  by unfold_locales (simp_all add: AddPeer_def chan_send_def)

section \<open>The registry of peers\<close>

definition newPeer :: "conn \<Rightarrow> address \<Rightarrow> pubkey \<Rightarrow> bool \<Rightarrow> bool \<Rightarrow> 's net \<Rightarrow> peerConn" where
  "newPeer c addr pub outbound hasPub n =
     \<lparr>pConn = c, pAllowLocal = allowLocal n, pOutbound = outbound, pHasPub = hasPub,
      pSend = [], pAddr = addr, pPub = pub, pNodeKey = nodeKey n,
      pRecv = (if outbound then RPoll zero_rawMessage else RAwaitFirst), pSender = SNone\<rparr>"

definition countPeers :: "'s net \<Rightarrow> nat" where
  "countPeers n = length (connectedPeers n)"

definition havePeer :: "pubkey \<Rightarrow> 's net \<Rightarrow> bool" where
  "havePeer pub n = (map_of (connectedPeers n) pub \<noteq> None)"

definition lockPeer :: "pubkey \<Rightarrow> 's net \<Rightarrow> bool \<times> 's net" where
  "lockPeer pub n =
     (let now = clock n in
      case map_of (lockedPeers n) pub of
        Some until \<Rightarrow>
          if now < until then (False, n)
          else (True, n\<lparr>lockedPeers := AList.update pub (now + PeerLockTime) (lockedPeers n)\<rparr>)
      | None \<Rightarrow> (True, n\<lparr>lockedPeers := AList.update pub (now + PeerLockTime) (lockedPeers n)\<rparr>))"

definition trackPeer :: "conn \<Rightarrow> nat \<Rightarrow> pubkey \<Rightarrow> 's net \<Rightarrow> bool \<times> 's net" where
  "trackPeer c p pub n =
     (if stopping n then (False, n)
      else
        let n1 = n\<lparr>connections := connections n @ [c]\<rparr> in
        if pub \<noteq> NoPubKey then
          if map_of (connectedPeers n1) pub \<noteq> None then (False, n1)
          else (True, n1\<lparr>connectedPeers := AList.update pub p (connectedPeers n1)\<rparr>)
        else (True, n1))"

definition adoptPeer :: "nat \<Rightarrow> pubkey \<Rightarrow> 's net \<Rightarrow> bool \<times> 's net" where
  "adoptPeer p pub n =
     (if map_of (connectedPeers n) pub \<noteq> None then (False, n)
      else (True, n\<lparr>connectedPeers := AList.update pub p (connectedPeers n)\<rparr>))"

definition closePeer :: "nat \<Rightarrow> 's net \<Rightarrow> 's net" where
  "closePeer p n =
     (case peers n p of
        None \<Rightarrow> n
      | Some x \<Rightarrow>
          let n1 = close_conn (pConn x) n;
              n2 = (if map_of (connectedPeers n1) (pPub x) = Some p
                    then n1\<lparr>connectedPeers := AList.delete (pPub x) (connectedPeers n1)\<rparr>
                    else n1)
          in n2\<lparr>connections := remove_unordered (pConn x) (connections n2)\<rparr>)"

definition isMyAddress :: "gossip \<Rightarrow> nodeInfo \<Rightarrow> 's net \<Rightarrow> bool" where
  "isMyAddress G node n = (\<exists>a\<in>set (bindAddrs n). AddressEqual G a (niAddr node))"

section \<open>The registry of handlers\<close>

definition newHandler :: "conn \<Rightarrow> handlerConn" where
  "newHandler c = \<lparr>hConn = c, hChannel = 0, hRecv = HBind, hSender = SNone\<rparr>"

definition trackHandler :: "conn \<Rightarrow> nat \<Rightarrow> 's net \<Rightarrow> bool \<times> 's net" where
  "trackHandler c h n =
     (if stopping n then (False, n)
      else (True, n\<lparr>connections := connections n @ [c], handlers := handlers n @ [h]\<rparr>))"

definition closeHandler :: "nat \<Rightarrow> 's net \<Rightarrow> 's net" where
  "closeHandler h n =
     (case hands n h of
        None \<Rightarrow> n
      | Some x \<Rightarrow>
          let n1 = close_conn (hConn x) n
          in n1\<lparr>connections := remove_unordered (hConn x) (connections n1),
                handlers := remove_unordered h (handlers n1)\<rparr>)"

section \<open>Forwarding\<close>

definition try_send_peer :: "rawMessage \<Rightarrow> peerConn \<Rightarrow> peerConn" where
  "try_send_peer msg x = x\<lparr>pSend := chan_try_send 100 msg (pSend x)\<rparr>"

definition forwardToPeers :: "rawMessage \<Rightarrow> 's net \<Rightarrow> 's net" where
  "forwardToPeers msg n = fold (\<lambda>(k, p). set_peer p (try_send_peer msg)) (connectedPeers n) n"

text \<open>
  The channel of a handler has no buffer: a send in a \<open>select\<close> with a default succeeds only
  while \<open>sendToHandler\<close> waits in its own \<open>select\<close>, and hands the message over.
\<close>

fun forward_handlers :: "tag4cc \<Rightarrow> rawMessage \<Rightarrow> nat list \<Rightarrow> bool \<Rightarrow> 's net \<Rightarrow> bool \<times> 's net" where
  "forward_handlers channel msg [] found n = (found, n)"
| "forward_handlers channel msg (h # hs) found n =
     (case hands n h of
        None \<Rightarrow> forward_handlers channel msg hs found n
      | Some x \<Rightarrow>
          if channel = hChannel x \<and> hSender x = SSelect
          then forward_handlers channel msg hs True (set_hand h (\<lambda>x. x\<lparr>hSender := SHdr msg\<rparr>) n)
          else forward_handlers channel msg hs found n)"

definition forwardToHandlers :: "tag4cc \<Rightarrow> bytes \<Rightarrow> bytes \<Rightarrow> 's net \<Rightarrow> bool \<times> 's net" where
  "forwardToHandlers channel rawHdr payload n =
     forward_handlers channel \<lparr>Header = rawHdr, Payload = payload\<rparr> (handlers n) False n"

definition ReceiveAnnounce :: "rawMessage \<Rightarrow> 's net \<Rightarrow> 's net" where
  "ReceiveAnnounce msg n = forwardToPeers msg (ns_setAnnounce msg n)"

section \<open>Stop\<close>

text \<open>
  Listeners and the socket of the handlers are closed, then every tracked connection.
  \<open>stopped\<close> records that it ran. Removing the file of the Unix socket is not modelled.
\<close>

definition Stop :: "'s net \<Rightarrow> 's net" where
  "Stop n =
     (let n1 = fold close_conn (listeners n) n;
          n2 = (case socket n1 of None \<Rightarrow> n1 | Some s \<Rightarrow> close_conn s n1);
          n3 = fold close_conn (connections n2) n2
      in n3\<lparr>stopped := True\<rparr>)"

section \<open>What the operations leave alone\<close>

lemma set_peer_simps [simp]:
  "peers (set_peer p f n) q = (if q = p then map_option f (peers n p) else peers n q)"
  by (simp add: set_peer_def)

lemma set_hand_simps [simp]:
  "hands (set_hand h f n) q = (if q = h then map_option f (hands n h) else hands n q)"
  by (simp add: set_hand_def)

lemma set_peer_frame [simp]:
  "connectedPeers (set_peer p f n) = connectedPeers n"
  "connections (set_peer p f n) = connections n" "closed (set_peer p f n) = closed n"
  "hands (set_peer p f n) = hands n" "handlers (set_peer p f n) = handlers n"
  "nodeKey (set_peer p f n) = nodeKey n" "wire (set_peer p f n) = wire n"
  "nextId (set_peer p f n) = nextId n" "stopping (set_peer p f n) = stopping n"
  "stopped (set_peer p f n) = stopped n" "crashed (set_peer p f n) = crashed n"
  "stState (set_peer p f n) = stState n" "listeners (set_peer p f n) = listeners n"
  "socket (set_peer p f n) = socket n" "newPeers (set_peer p f n) = newPeers n"
  "announceChanges (set_peer p f n) = announceChanges n"
  "lockedPeers (set_peer p f n) = lockedPeers n" "clock (set_peer p f n) = clock n"
  "encAnnounce (set_peer p f n) = encAnnounce n" "accepting (set_peer p f n) = accepting n"
  "gossipPc (set_peer p f n) = gossipPc n" "acceptPc (set_peer p f n) = acceptPc n"
  "findPc (set_peer p f n) = findPc n" "seedPc (set_peer p f n) = seedPc n"
  "bindAddrs (set_peer p f n) = bindAddrs n"
  by (simp_all add: set_peer_def)

lemma set_hand_frame [simp]:
  "connectedPeers (set_hand h g n) = connectedPeers n"
  "connections (set_hand h g n) = connections n" "closed (set_hand h g n) = closed n"
  "handlers (set_hand h g n) = handlers n" "nodeKey (set_hand h g n) = nodeKey n"
  "wire (set_hand h g n) = wire n" "nextId (set_hand h g n) = nextId n"
  "stopping (set_hand h g n) = stopping n" "stopped (set_hand h g n) = stopped n"
  "crashed (set_hand h g n) = crashed n" "stState (set_hand h g n) = stState n"
  "listeners (set_hand h g n) = listeners n" "socket (set_hand h g n) = socket n"
  "newPeers (set_hand h g n) = newPeers n" "announceChanges (set_hand h g n) = announceChanges n"
  "lockedPeers (set_hand h g n) = lockedPeers n" "clock (set_hand h g n) = clock n"
  "encAnnounce (set_hand h g n) = encAnnounce n" "accepting (set_hand h g n) = accepting n"
  "gossipPc (set_hand h g n) = gossipPc n" "acceptPc (set_hand h g n) = acceptPc n"
  "findPc (set_hand h g n) = findPc n" "seedPc (set_hand h g n) = seedPc n"
  "bindAddrs (set_hand h g n) = bindAddrs n" "peers (set_hand h g n) = peers n"
  by (simp_all add: set_hand_def)

lemma close_conn_frame [simp]:
  "connectedPeers (close_conn c n) = connectedPeers n"
  "connections (close_conn c n) = connections n" "hands (close_conn c n) = hands n"
  "handlers (close_conn c n) = handlers n" "nodeKey (close_conn c n) = nodeKey n"
  "wire (close_conn c n) = wire n" "nextId (close_conn c n) = nextId n"
  "stopping (close_conn c n) = stopping n" "stopped (close_conn c n) = stopped n"
  "crashed (close_conn c n) = crashed n" "stState (close_conn c n) = stState n"
  "listeners (close_conn c n) = listeners n" "socket (close_conn c n) = socket n"
  "newPeers (close_conn c n) = newPeers n" "announceChanges (close_conn c n) = announceChanges n"
  "lockedPeers (close_conn c n) = lockedPeers n" "clock (close_conn c n) = clock n"
  "encAnnounce (close_conn c n) = encAnnounce n" "accepting (close_conn c n) = accepting n"
  "gossipPc (close_conn c n) = gossipPc n" "acceptPc (close_conn c n) = acceptPc n"
  "findPc (close_conn c n) = findPc n" "seedPc (close_conn c n) = seedPc n"
  "bindAddrs (close_conn c n) = bindAddrs n" "peers (close_conn c n) = peers n"
  by (simp_all add: close_conn_def)

lemma conn_write_frame [simp]:
  "connectedPeers (conn_write c b n) = connectedPeers n"
  "connections (conn_write c b n) = connections n" "closed (conn_write c b n) = closed n"
  "hands (conn_write c b n) = hands n" "handlers (conn_write c b n) = handlers n"
  "nodeKey (conn_write c b n) = nodeKey n" "nextId (conn_write c b n) = nextId n"
  "stopping (conn_write c b n) = stopping n" "stopped (conn_write c b n) = stopped n"
  "crashed (conn_write c b n) = crashed n" "stState (conn_write c b n) = stState n"
  "listeners (conn_write c b n) = listeners n" "socket (conn_write c b n) = socket n"
  "newPeers (conn_write c b n) = newPeers n"
  "announceChanges (conn_write c b n) = announceChanges n"
  "lockedPeers (conn_write c b n) = lockedPeers n" "clock (conn_write c b n) = clock n"
  "encAnnounce (conn_write c b n) = encAnnounce n" "accepting (conn_write c b n) = accepting n"
  "gossipPc (conn_write c b n) = gossipPc n" "acceptPc (conn_write c b n) = acceptPc n"
  "findPc (conn_write c b n) = findPc n" "seedPc (conn_write c b n) = seedPc n"
  "bindAddrs (conn_write c b n) = bindAddrs n" "peers (conn_write c b n) = peers n"
  by (simp_all add: conn_write_def)

lemma fold_close_conn: "fold close_conn cs n = n\<lparr>closed := closed n \<union> set cs\<rparr>"
  by (induction cs arbitrary: n) (simp_all add: close_conn_def)

lemma Stop_eq:
  "Stop n = n\<lparr>closed := closed n \<union> set (listeners n) \<union> set_option (socket n) \<union> set (connections n),
     stopped := True\<rparr>"
  by (cases "socket n") (simp_all add: Stop_def fold_close_conn close_conn_def Un_ac)

lemma forwardToPeers_eq:
  "forwardToPeers msg n = n\<lparr>peers := \<lambda>p.
     map_option (try_send_peer msg ^^ count_list (map snd (connectedPeers n)) p) (peers n p)\<rparr>"
proof -
  let ?snd = "\<lambda>kps p. try_send_peer msg ^^ count_list (map snd kps) p"
  have "fold (\<lambda>(k, p). set_peer p (try_send_peer msg)) kps n =
      n\<lparr>peers := \<lambda>p. map_option (?snd kps p) (peers n p)\<rparr>" for kps
  proof (induction kps arbitrary: n)
    case (Cons kp kps)
    obtain k q where kp: "kp = (k, q)" by fastforce
    have "fold (\<lambda>(k, p). set_peer p (try_send_peer msg)) (kp # kps) n =
        (set_peer q (try_send_peer msg) n)\<lparr>peers :=
          \<lambda>p. map_option (?snd kps p) (peers (set_peer q (try_send_peer msg) n) p)\<rparr>"
      using Cons by (simp add: kp)
    also have "(\<lambda>p. map_option (?snd kps p) (peers (set_peer q (try_send_peer msg) n) p)) =
        (\<lambda>p. map_option (?snd (kp # kps) p) (peers n p))"
      by (auto simp: kp option.map_comp comp_def funpow_swap1 intro!: ext)
    finally show ?case by (simp add: set_peer_def)
  qed (simp add: id_def option.map_ident)
  then show ?thesis by (simp add: forwardToPeers_def)
qed

lemma forwardToPeers_frame [simp]:
  "connectedPeers (forwardToPeers msg n) = connectedPeers n"
  "connections (forwardToPeers msg n) = connections n" "closed (forwardToPeers msg n) = closed n"
  "hands (forwardToPeers msg n) = hands n" "handlers (forwardToPeers msg n) = handlers n"
  "nodeKey (forwardToPeers msg n) = nodeKey n" "wire (forwardToPeers msg n) = wire n"
  "nextId (forwardToPeers msg n) = nextId n" "stopping (forwardToPeers msg n) = stopping n"
  "stopped (forwardToPeers msg n) = stopped n" "crashed (forwardToPeers msg n) = crashed n"
  "stState (forwardToPeers msg n) = stState n" "listeners (forwardToPeers msg n) = listeners n"
  "socket (forwardToPeers msg n) = socket n" "newPeers (forwardToPeers msg n) = newPeers n"
  "announceChanges (forwardToPeers msg n) = announceChanges n"
  "lockedPeers (forwardToPeers msg n) = lockedPeers n" "clock (forwardToPeers msg n) = clock n"
  "encAnnounce (forwardToPeers msg n) = encAnnounce n"
  "accepting (forwardToPeers msg n) = accepting n" "gossipPc (forwardToPeers msg n) = gossipPc n"
  "acceptPc (forwardToPeers msg n) = acceptPc n" "findPc (forwardToPeers msg n) = findPc n"
  "seedPc (forwardToPeers msg n) = seedPc n" "bindAddrs (forwardToPeers msg n) = bindAddrs n"
  by (simp_all add: forwardToPeers_eq)

lemma forwardToPeers_at:
  "peers (forwardToPeers msg n) p =
     map_option (try_send_peer msg ^^ count_list (map snd (connectedPeers n)) p) (peers n p)"
  by (simp add: forwardToPeers_eq)

text \<open>The message reaches every registered peer with room in its queue, once, at its end.\<close>

lemma count_list_distinct: "distinct xs \<Longrightarrow> count_list xs x = (if x \<in> set xs then 1 else 0)"
  by (induction xs) auto

lemma forwardToPeers_peers:
  "distinct (map snd (connectedPeers n)) \<Longrightarrow>
   peers (forwardToPeers msg n) p =
     (if p \<in> snd ` set (connectedPeers n) then map_option (try_send_peer msg) (peers n p)
      else peers n p)"
  by (simp add: forwardToPeers_eq count_list_distinct option.map_ident id_def comp_def)

definition accepts :: "tag4cc \<Rightarrow> 's net \<Rightarrow> nat \<Rightarrow> bool" where
  "accepts channel n h \<longleftrightarrow>
     (case hands n h of None \<Rightarrow> False | Some x \<Rightarrow> channel = hChannel x \<and> hSender x = SSelect)"

lemma forward_handlers_eq:
  "forward_handlers channel msg hs found n =
     (found \<or> (\<exists>h\<in>set hs. accepts channel n h),
      n\<lparr>hands := \<lambda>h. if h \<in> set hs \<and> accepts channel n h
                    then map_option (\<lambda>x. x\<lparr>hSender := SHdr msg\<rparr>) (hands n h) else hands n h\<rparr>)"
proof (induction hs arbitrary: found n)
  case (Cons h hs)
  show ?case
  proof (cases "accepts channel n h")
    case True
    then obtain x where x: "hands n h = Some x" "channel = hChannel x" "hSender x = SSelect"
      by (auto simp: accepts_def split: option.splits)
    let ?n = "set_hand h (\<lambda>x. x\<lparr>hSender := SHdr msg\<rparr>) n"
    have a: "accepts channel ?n g \<longleftrightarrow> g \<noteq> h \<and> accepts channel n g" for g
      using x by (auto simp: accepts_def split: option.splits)
    have "forward_handlers channel msg (h # hs) found n = forward_handlers channel msg hs True ?n"
      using x by simp
    also have "\<dots> = (True, ?n\<lparr>hands := \<lambda>g. if g \<in> set hs \<and> accepts channel ?n g
        then map_option (\<lambda>x. x\<lparr>hSender := SHdr msg\<rparr>) (hands ?n g) else hands ?n g\<rparr>)"
      by (simp only: Cons simp_thms)
    also have "(\<lambda>g. if g \<in> set hs \<and> accepts channel ?n g
        then map_option (\<lambda>x. x\<lparr>hSender := SHdr msg\<rparr>) (hands ?n g) else hands ?n g) =
      (\<lambda>g. if g \<in> set (h # hs) \<and> accepts channel n g
        then map_option (\<lambda>x. x\<lparr>hSender := SHdr msg\<rparr>) (hands n g) else hands n g)"
      using True by (auto simp: a intro!: ext)
    finally show ?thesis using True by (simp add: set_hand_def)
  next
    case False
    then have "forward_handlers channel msg (h # hs) found n = forward_handlers channel msg hs found n"
      by (auto simp: accepts_def split: option.splits)
    then show ?thesis
      using False by (auto simp: Cons intro!: arg_cong [where f = "\<lambda>x. n\<lparr>hands := x\<rparr>"] ext)
  qed
qed simp

lemma closePeer_frame [simp]:
  "hands (closePeer p n) = hands n" "handlers (closePeer p n) = handlers n"
  "nodeKey (closePeer p n) = nodeKey n" "wire (closePeer p n) = wire n"
  "nextId (closePeer p n) = nextId n" "stopping (closePeer p n) = stopping n"
  "stopped (closePeer p n) = stopped n" "crashed (closePeer p n) = crashed n"
  "stState (closePeer p n) = stState n" "listeners (closePeer p n) = listeners n"
  "socket (closePeer p n) = socket n" "newPeers (closePeer p n) = newPeers n"
  "announceChanges (closePeer p n) = announceChanges n"
  "lockedPeers (closePeer p n) = lockedPeers n" "clock (closePeer p n) = clock n"
  "encAnnounce (closePeer p n) = encAnnounce n" "accepting (closePeer p n) = accepting n"
  "gossipPc (closePeer p n) = gossipPc n" "acceptPc (closePeer p n) = acceptPc n"
  "findPc (closePeer p n) = findPc n" "seedPc (closePeer p n) = seedPc n"
  "bindAddrs (closePeer p n) = bindAddrs n" "peers (closePeer p n) = peers n"
  by (auto simp: closePeer_def Let_def split: option.splits)

lemma closeHandler_frame [simp]:
  "connectedPeers (closeHandler h n) = connectedPeers n" "hands (closeHandler h n) = hands n"
  "nodeKey (closeHandler h n) = nodeKey n" "wire (closeHandler h n) = wire n"
  "nextId (closeHandler h n) = nextId n" "stopping (closeHandler h n) = stopping n"
  "stopped (closeHandler h n) = stopped n" "crashed (closeHandler h n) = crashed n"
  "stState (closeHandler h n) = stState n" "listeners (closeHandler h n) = listeners n"
  "socket (closeHandler h n) = socket n" "newPeers (closeHandler h n) = newPeers n"
  "announceChanges (closeHandler h n) = announceChanges n"
  "lockedPeers (closeHandler h n) = lockedPeers n" "clock (closeHandler h n) = clock n"
  "encAnnounce (closeHandler h n) = encAnnounce n" "accepting (closeHandler h n) = accepting n"
  "gossipPc (closeHandler h n) = gossipPc n" "acceptPc (closeHandler h n) = acceptPc n"
  "findPc (closeHandler h n) = findPc n" "seedPc (closeHandler h n) = seedPc n"
  "bindAddrs (closeHandler h n) = bindAddrs n" "peers (closeHandler h n) = peers n"
  by (auto simp: closeHandler_def Let_def split: option.splits)

end
