(* ===== verification/PeerConn.thy ===== *)
theory PeerConn
  imports NetState
begin

text \<open>
  A peer connection (\<open>internal/netsvc/peer.go\<close>): its two goroutines \<open>receiveFromPeer\<close> and
  \<open>sendToPeer\<close>, as functions that perform one step from the program point they are at. A
  step ends where the next call blocks, writes, or takes a lock; an event says how the
  environment answers.
\<close>

section \<open>Events\<close>

text \<open>
  \<open>Tau\<close> lets the goroutine go on, \<open>Cancelled\<close> is the \<open>Context.Done()\<close> case of a
  \<open>select\<close>. A write to a closed connection fails. \<open>dnet.ReadMessage\<close> answers with an error
  or with a message whose signature it has verified and whose public key has 32 bytes.
\<close>

datatype event =
    Tau
  | Cancelled
  | WriteOk
  | WriteErr
  | ReadErr goerr
  | ReadMsg message
  | ReadBytes bytes

definition on_tau :: "event \<Rightarrow> 's net \<Rightarrow> 's net option" where
  "on_tau ev n = (if ev = Tau then Some n else None)"

definition on_write :: "event \<Rightarrow> conn \<Rightarrow> bytes \<Rightarrow> 's net \<Rightarrow> ('s net \<Rightarrow> 's net) \<Rightarrow> ('s net \<Rightarrow> 's net) \<Rightarrow>
    's net option" where
  "on_write ev c b n ok err =
     (case ev of
        WriteOk \<Rightarrow> if c \<in> closed n then None else Some (ok (conn_write c b n))
      | WriteErr \<Rightarrow> Some (err n)
      | _ \<Rightarrow> None)"

definition on_read :: "event \<Rightarrow> (message \<Rightarrow> 's net) \<Rightarrow> 's net \<Rightarrow> 's net option" where
  "on_read ev got err =
     (case ev of
        ReadMsg m \<Rightarrow> if length (mPubKey m) = 32 then Some (got m) else None
      | ReadErr e \<Rightarrow> Some err
      | _ \<Rightarrow> None)"

lemmas on_defs = on_tau_def on_write_def on_read_def

definition goto :: "nat \<Rightarrow> recv_pc \<Rightarrow> 's net \<Rightarrow> 's net" where
  "goto p pc = set_peer p (\<lambda>x. x\<lparr>pRecv := pc\<rparr>)"

definition sender_goto :: "nat \<Rightarrow> send_pc \<Rightarrow> 's net \<Rightarrow> 's net" where
  "sender_goto p pc = set_peer p (\<lambda>x. x\<lparr>pSender := pc\<rparr>)"

section \<open>ingestAddress\<close>

definition OldestAddrTime :: int where "OldestAddrTime = - (30 * 24) * Hour"
definition NewestAddrTime :: int where "NewestAddrTime = 5 * Minute"

text \<open>
  The checks before the store is called. \<open>DecodeAddrMsg\<close> and \<open>msg.PubKey[0:6]\<close> may
  panic; the deferred \<open>recover\<close> turns a panic into an error.
\<close>

definition ingest_checks :: "gossip \<Rightarrow> int \<Rightarrow> bool \<Rightarrow> message \<Rightarrow> goerr + addressMsg" where
  "ingest_checks G now local m =
     (case DecodeAddrMsg G (mPayload m) of
        None \<Rightarrow> Inl (OpaqueError ''address decode error'')
      | Some addr \<Rightarrow>
          let ipa = amAddress addr; ts = DogeLocal G (amTime addr) in
          if (\<not> IsGlobalUnicast ipa \<or> IsPrivate ipa) \<and> \<not> local
          then Inl (OpaqueError ''peer announced a private address'')
          else if ts < now + OldestAddrTime \<or> ts > now + NewestAddrTime
          then Inl (OpaqueError ''peer timestamp out of range'')
          else if length (mPubKey m) < 6
          then Inl (OpaqueError ''address decode error'')
          else Inr addr)"

definition peer_address :: "addressMsg \<Rightarrow> address" where
  "peer_address addr = \<lparr>Host = amAddress addr, Port = amPort addr\<rparr>"

definition setPeerAddress :: "nat \<Rightarrow> address \<Rightarrow> 's net \<Rightarrow> 's net" where
  [simp]: "setPeerAddress p peerAddr = set_peer p (\<lambda>x. x\<lparr>pAddr := peerAddr\<rparr>)"

text \<open>Where \<open>receiveFromPeer\<close> goes on when \<open>ingestAddress\<close> returns.\<close>

definition ingest_return :: "nat \<Rightarrow> caller \<Rightarrow> goerr option \<Rightarrow> 's net \<Rightarrow> 's net" where
  "ingest_return p who err n =
     (case err of
        Some e \<Rightarrow> goto p RClosing n
      | None \<Rightarrow>
          (case who of
             OutboundReply \<Rightarrow> goto p RLoop (sender_goto p STop n)
           | InboundFirst \<Rightarrow> goto p (RPoll zero_rawMessage) n
           | Relay \<Rightarrow> goto p RLoop n))"

text \<open>
  \<open>ingestAddress\<close> up to and including the store call, and the broadcast that follows when the
  store reports a change. The error of the store call is what the function returns, also
  after a broadcast. \<open>None\<close> where the store call does not return.
\<close>

definition ingest_store :: "gossip \<Rightarrow> 's store \<Rightarrow> nat \<Rightarrow> caller \<Rightarrow> message \<Rightarrow> peerConn \<Rightarrow> 's net \<Rightarrow>
    's net option" where
  "ingest_store G S p who m x n =
     (case ingest_checks G (clock n) (pAllowLocal x) m of
        Inl e \<Rightarrow> Some (ingest_return p who (Some e) n)
      | Inr addr \<Rightarrow>
          let n1 = setPeerAddress p (peer_address addr) n in
          (case st_AddNetNode S (mPubKey m) (peer_address addr) (Unix (DogeLocal G (amTime addr)))
                  (amOwner addr) (amChannels addr) (mPayload m) (mSignature m) (stState n1) of
             None \<Rightarrow> None
           | Some ((isnew, err), s) \<Rightarrow>
               let n2 = n1\<lparr>stState := s\<rparr> in
               Some (if isnew then goto p (RForward who m err) n2 else ingest_return p who err n2)))"

definition ingest_forward :: "nat \<Rightarrow> caller \<Rightarrow> message \<Rightarrow> goerr option \<Rightarrow> 's net \<Rightarrow> 's net" where
  "ingest_forward p who m err n =
     ingest_return p who err (forwardToPeers \<lparr>Header = mRawHdr m, Payload = mPayload m\<rparr> n)"

section \<open>sendMyAddress\<close>

text \<open>
  One turn of the polling loop: leave it with the message last read when the service is
  stopping, or with an announcement that has a header; otherwise sleep and poll again.
\<close>

definition sendMyAddress_poll :: "nat \<Rightarrow> rawMessage \<Rightarrow> 's net \<Rightarrow> 's net" where
  "sendMyAddress_poll p msg n =
     (if stopping n then goto p (RWriteHdr msg) n
      else
        let msg' = ns_GetAnnounce n in
        if length (Header msg') > 0 then goto p (RWriteHdr msg') n else goto p (RPoll msg') n)"

definition sendMyAddress_done :: "nat \<Rightarrow> peerConn \<Rightarrow> 's net \<Rightarrow> 's net" where
  "sendMyAddress_done p x n =
     (if pOutbound x then goto p RAwaitReply n else goto p RLoop (sender_goto p STop n))"

section \<open>receiveFromPeer\<close>

definition is_address :: "gossip \<Rightarrow> message \<Rightarrow> bool" where
  "is_address G m \<longleftrightarrow> mChan m = ChannelNode G \<and> mTag m = TagAddress G"

definition copy_pub :: "nat \<Rightarrow> message \<Rightarrow> 's net \<Rightarrow> 's net" where
  "copy_pub p m = set_peer p (\<lambda>x. x\<lparr>pPub := go_copy (pPub x) 0 32 (mPubKey m)\<rparr>)"

text \<open>Outbound, steps 3 to 5: the return announcement has been read.\<close>

definition outbound_self :: "nat \<Rightarrow> message \<Rightarrow> peerConn \<Rightarrow> 's net \<Rightarrow> 's net" where
  "outbound_self p m x n =
     (if mPubKey m = Pub (pNodeKey x) then goto p RClosing n
      else goto p (RIngest OutboundReply m) n)"

definition outbound_reply :: "gossip \<Rightarrow> nat \<Rightarrow> message \<Rightarrow> peerConn \<Rightarrow> 's net \<Rightarrow> 's net" where
  "outbound_reply G p m x n =
     (if \<not> is_address G m then goto p RClosing n
      else if pHasPub x then
        if mPubKey m \<noteq> pPub x then goto p RClosing n else outbound_self p m x n
      else goto p (RAdoptOut m) (copy_pub p m n))"

definition outbound_adopt :: "nat \<Rightarrow> message \<Rightarrow> peerConn \<Rightarrow> 's net \<Rightarrow> 's net" where
  "outbound_adopt p m x n =
     (case adoptPeer p (pPub x) n of
        (False, n1) \<Rightarrow> goto p RClosing n1
      | (True, n1) \<Rightarrow> outbound_self p m x n1)"

text \<open>Inbound, steps 1 to 4: the first message has been read.\<close>

definition inbound_first :: "nat \<Rightarrow> message \<Rightarrow> peerConn \<Rightarrow> 's net \<Rightarrow> 's net" where
  "inbound_first p m x n =
     (let n1 = copy_pub p m n in
      if mPubKey m = Pub (pNodeKey x) then goto p RClosing n1 else goto p (RAdoptIn m) n1)"

definition inbound_adopt :: "gossip \<Rightarrow> nat \<Rightarrow> message \<Rightarrow> peerConn \<Rightarrow> 's net \<Rightarrow> 's net" where
  "inbound_adopt G p m x n =
     (case adoptPeer p (pPub x) n of
        (False, n1) \<Rightarrow> goto p RClosing n1
      | (True, n1) \<Rightarrow>
          if \<not> is_address G m then goto p RClosing n1 else goto p (RIngest InboundFirst m) n1)"

text \<open>The loop that relays messages: a message has been read.\<close>

definition relay_message :: "gossip \<Rightarrow> nat \<Rightarrow> message \<Rightarrow> peerConn \<Rightarrow> 's net \<Rightarrow> 's net" where
  "relay_message G p m x n =
     (if mChan m = ChannelNode G then
        if mTag m = TagAddress G then
          if mPubKey m = Pub (pNodeKey x) then goto p RLoop n else goto p (RIngest Relay m) n
        else goto p RLoop n
      else goto p (RForwardHandlers m) n)"

definition relay_to_handlers :: "nat \<Rightarrow> message \<Rightarrow> 's net \<Rightarrow> 's net" where
  "relay_to_handlers p m n =
     (case forwardToHandlers (mChan m) (mRawHdr m) (mPayload m) n of (found, n1) \<Rightarrow> goto p RLoop n1)"

definition receiveFromPeer :: "gossip \<Rightarrow> 's store \<Rightarrow> event \<Rightarrow> nat \<Rightarrow> 's net \<Rightarrow> 's net option" where
  "receiveFromPeer G S ev p n =
     (case peers n p of
        None \<Rightarrow> None
      | Some x \<Rightarrow>
          (case pRecv x of
             RPoll msg \<Rightarrow> on_tau ev (sendMyAddress_poll p msg n)
           | RWriteHdr msg \<Rightarrow>
               on_write ev (pConn x) (Header msg) n (goto p (RWritePay msg)) (goto p RClosing)
           | RWritePay msg \<Rightarrow>
               on_write ev (pConn x) (Payload msg) n (sendMyAddress_done p x) (goto p RClosing)
           | RAwaitReply \<Rightarrow> on_read ev (\<lambda>m. outbound_reply G p m x n) (goto p RClosing n)
           | RAdoptOut m \<Rightarrow> on_tau ev (outbound_adopt p m x n)
           | RAwaitFirst \<Rightarrow> on_read ev (\<lambda>m. inbound_first p m x n) (goto p RClosing n)
           | RAdoptIn m \<Rightarrow> on_tau ev (inbound_adopt G p m x n)
           | RIngest who m \<Rightarrow> if ev = Tau then ingest_store G S p who m x n else None
           | RForward who m err \<Rightarrow> on_tau ev (ingest_forward p who m err n)
           | RLoop \<Rightarrow> on_tau ev (goto p (if stopping n then RDone else RRead) n)
           | RRead \<Rightarrow> on_read ev (\<lambda>m. relay_message G p m x n) (goto p RClosing n)
           | RForwardHandlers m \<Rightarrow> on_tau ev (relay_to_handlers p m n)
           | RClosing \<Rightarrow> on_tau ev (goto p RDone (closePeer p n))
           | RDone \<Rightarrow> None))"

section \<open>sendToPeer\<close>

definition sendToPeer :: "event \<Rightarrow> nat \<Rightarrow> 's net \<Rightarrow> 's net option" where
  "sendToPeer ev p n =
     (case peers n p of
        None \<Rightarrow> None
      | Some x \<Rightarrow>
          (case pSender x of
             SNone \<Rightarrow> None
           | STop \<Rightarrow> on_tau ev (sender_goto p (if stopping n then SDone else SSelect) n)
           | SSelect \<Rightarrow>
               (case ev of
                  Tau \<Rightarrow>
                    (case pSend x of
                       [] \<Rightarrow> None
                     | raw # q \<Rightarrow>
                         Some (sender_goto p (SHdr raw) (set_peer p (\<lambda>x. x\<lparr>pSend := q\<rparr>) n)))
                | Cancelled \<Rightarrow> if stopping n then Some (sender_goto p SClosing n) else None
                | _ \<Rightarrow> None)
           | SHdr raw \<Rightarrow>
               on_write ev (pConn x) (Header raw) n (sender_goto p (SPay raw)) (sender_goto p SClosing)
           | SPay raw \<Rightarrow>
               on_write ev (pConn x) (Payload raw) n (sender_goto p STop) (sender_goto p SClosing)
           | SClosing \<Rightarrow> on_tau ev (sender_goto p SDone (closePeer p n))
           | SDone \<Rightarrow> None))"

end
