(* ===== verification/HandlerConn.thy ===== *)
theory HandlerConn
  imports PeerConn
begin

text \<open>
  A handler connection (\<open>internal/netsvc/handler.go\<close>): the goroutines
  \<open>receiveFromHandler\<close> and \<open>sendToHandler\<close>, one step at a time.
\<close>

definition hgoto :: "nat \<Rightarrow> hand_pc \<Rightarrow> 's net \<Rightarrow> 's net" where
  "hgoto h pc = set_hand h (\<lambda>x. x\<lparr>hRecv := pc\<rparr>)"

definition hsender_goto :: "nat \<Rightarrow> send_pc \<Rightarrow> 's net \<Rightarrow> 's net" where
  "hsender_goto h pc = set_hand h (\<lambda>x. x\<lparr>hSender := pc\<rparr>)"

text \<open>\<open>io.ReadAtLeast\<close> fills the buffer of \<open>BindMessageSize\<close> bytes or fails.\<close>

definition readBindMessage :: "gossip \<Rightarrow> bytes \<Rightarrow> goerr + bindMessage" where
  "readBindMessage G buf =
     (case DecodeBindMessage G buf of
        None \<Rightarrow> Inl (OpaqueError ''invalid bind message (wrong size)'')
      | Some bind \<Rightarrow> Inr bind)"

definition handler_bound :: "gossip \<Rightarrow> nat \<Rightarrow> bytes \<Rightarrow> 's net \<Rightarrow> 's net" where
  "handler_bound G h buf n =
     (case readBindMessage G buf of
        Inl e \<Rightarrow> hgoto h HClosing n
      | Inr bind \<Rightarrow> hgoto h (HAddChannel bind) (set_hand h (\<lambda>x. x\<lparr>hChannel := bmChan bind\<rparr>) n))"

text \<open>The store call; \<open>None\<close> where it does not return.\<close>

definition handler_add_channel :: "gossip \<Rightarrow> 's store \<Rightarrow> nat \<Rightarrow> bindMessage \<Rightarrow> 's net \<Rightarrow> 's net option" where
  "handler_add_channel G S h bind n =
     (case st_AddChannel S (bmChan bind) (stState n) of
        None \<Rightarrow> None
      | Some (Some e, s) \<Rightarrow> Some (hgoto h HClosing (n\<lparr>stState := s\<rparr>))
      | Some (None, s) \<Rightarrow>
          let n1 = n\<lparr>stState := s\<rparr> in
          Some (if bmChan bind = ChannelIdentity G then hgoto h (HOwner bind) n1
                else hgoto h (HReply bind) n1))"

text \<open>The queue of the announce service holds ten changes; a full queue blocks the handler.\<close>

definition send_change :: "change \<Rightarrow> 's net \<Rightarrow> 's net option" where
  "send_change c n =
     map_option (\<lambda>q. n\<lparr>announceChanges := q\<rparr>) (chan_send 10 c (announceChanges n))"

definition bind_reply :: "bindMessage \<Rightarrow> 's net \<Rightarrow> bindMessage" where
  "bind_reply bind n = \<lparr>bmVersion = 1, bmChan = bmChan bind, bmPubKey = Pub (nodeKey n)\<rparr>"

definition receiveFromHandler :: "gossip \<Rightarrow> 's store \<Rightarrow> event \<Rightarrow> nat \<Rightarrow> 's net \<Rightarrow> 's net option" where
  "receiveFromHandler G S ev h n =
     (case hands n h of
        None \<Rightarrow> None
      | Some x \<Rightarrow>
          (case hRecv x of
             HBind \<Rightarrow>
               (case ev of
                  ReadBytes buf \<Rightarrow>
                    if length buf = BindMessageSize G then Some (handler_bound G h buf n) else None
                | ReadErr e \<Rightarrow> Some (hgoto h HClosing n)
                | _ \<Rightarrow> None)
           | HAddChannel bind \<Rightarrow> if ev = Tau then handler_add_channel G S h bind n else None
           | HOwner bind \<Rightarrow>
               if ev = Tau then
                 map_option (hgoto h (HChannel bind)) (send_change (ChangeOwnerKey (bmPubKey bind)) n)
               else None
           | HChannel bind \<Rightarrow>
               if ev = Tau then
                 map_option (hgoto h (HReply bind)) (send_change (ChangeChannel (bmChan bind)) n)
               else None
           | HReply bind \<Rightarrow>
               on_write ev (hConn x) (EncodeBindMessage G (bind_reply bind n)) n
                 (\<lambda>n. hgoto h HLoop (hsender_goto h STop n)) (hgoto h HClosing)
           | HLoop \<Rightarrow> on_tau ev (hgoto h (if stopping n then HDone else HRead) n)
           | HRead \<Rightarrow> on_read ev (\<lambda>m. hgoto h (HForward m) n) (hgoto h HClosing n)
           | HForward m \<Rightarrow>
               on_tau ev (hgoto h HLoop
                 (forwardToPeers \<lparr>Header = mRawHdr m, Payload = mPayload m\<rparr> n))
           | HClosing \<Rightarrow> on_tau ev (hgoto h HDone (closeHandler h n))
           | HDone \<Rightarrow> None))"

text \<open>
  \<open>sendToHandler\<close>. The message arrives while it waits in its \<open>select\<close> (\<open>SSelect\<close>), by a
  step of the goroutine that runs \<open>forwardToHandlers\<close>.
\<close>

definition sendToHandler :: "event \<Rightarrow> nat \<Rightarrow> 's net \<Rightarrow> 's net option" where
  "sendToHandler ev h n =
     (case hands n h of
        None \<Rightarrow> None
      | Some x \<Rightarrow>
          (case hSender x of
             SNone \<Rightarrow> None
           | STop \<Rightarrow> on_tau ev (hsender_goto h (if stopping n then SDone else SSelect) n)
           | SSelect \<Rightarrow>
               if ev = Cancelled \<and> stopping n then Some (hsender_goto h SClosing n) else None
           | SHdr raw \<Rightarrow>
               on_write ev (hConn x) (Header raw) n (hsender_goto h (SPay raw)) (hsender_goto h SClosing)
           | SPay raw \<Rightarrow>
               on_write ev (hConn x) (Payload raw) n (hsender_goto h STop) (hsender_goto h SClosing)
           | SClosing \<Rightarrow> on_tau ev (hsender_goto h SDone (closeHandler h n))
           | SDone \<Rightarrow> None))"

end
