(* ===== verification/NetTasks.thy ===== *)
theory NetTasks
  imports HandlerConn
begin

text \<open>
  The goroutines of \<open>NetService\<close> itself (\<open>internal/netsvc/service.go\<close>): the listeners, the
  listener for handlers, the search for peers, the gossip of random addresses and the DNS
  seeds, one step at a time.
\<close>

section \<open>Events\<close>

text \<open>
  How the environment answers: \<open>Go\<close> lets the goroutine (or its \<open>Sleep\<close>) go on, \<open>Timeout\<close>
  is the \<open>time.After\<close> case, \<open>Failed\<close> the error of a dial, listen, accept or lookup, \<open>Pick\<close>
  the number \<open>rand.Intn\<close> draws.
\<close>

datatype task_event =
    Go
  | Timeout
  | Failed goerr
  | Connected
  | Listening
  | LookedUp "ip list"
  | Pick nat
  | Accepted string

text \<open>\<open>Sleep\<close> returns when its time is over or the context is cancelled.\<close>

definition awake :: "int \<Rightarrow> 's net \<Rightarrow> bool" where
  "awake t n \<longleftrightarrow> t \<le> clock n \<or> stopping n"

text \<open>
  A new peer connection: \<open>newPeer\<close>, \<open>trackPeer\<close>, and \<open>start\<close> or \<open>conn.Close()\<close>.
\<close>

definition open_peer :: "address \<Rightarrow> pubkey \<Rightarrow> bool \<Rightarrow> bool \<Rightarrow> 's net \<Rightarrow> bool \<times> 's net" where
  "open_peer addr pub outbound hasPub n =
     (let c = nextId n; peer = newPeer c addr pub outbound hasPub n in
      case trackPeer c c pub (n\<lparr>nextId := Suc c\<rparr>) of
        (True, n1) \<Rightarrow> (True, n1\<lparr>peers := (peers n1)(c \<mapsto> peer)\<rparr>)
      | (False, n1) \<Rightarrow> (False, close_conn c n1))"

section \<open>Listeners\<close>

text \<open>
  One entry per bind address: the error of \<open>Listen\<close>, and whether the context is cancelled
  meanwhile.
\<close>

fun startListeners :: "(goerr option \<times> bool) list \<Rightarrow> 's net \<Rightarrow> 's net" where
  "startListeners [] n = n"
| "startListeners ((Some e, cancelled) # rs) n = startListeners rs n"
| "startListeners ((None, cancelled) # rs) n =
     (let l = nextId n; n1 = n\<lparr>nextId := Suc l, stopping := stopping n \<or> cancelled\<rparr> in
      if stopping n1 then close_conn l n1
      else startListeners rs (n1\<lparr>listeners := listeners n1 @ [l], accepting := insert l (accepting n1)\<rparr>))"

definition accept_ends :: "nat \<Rightarrow> 's net \<Rightarrow> 's net" where
  "accept_ends l n = close_conn l (n\<lparr>accepting := accepting n - {l}\<rparr>)"

definition acceptIncoming :: "gossip \<Rightarrow> task_event \<Rightarrow> nat \<Rightarrow> 's net \<Rightarrow> 's net option" where
  "acceptIncoming G ev l n =
     (if l \<notin> accepting n then None
      else case ev of
        Failed e \<Rightarrow> Some (accept_ends l n)
      | Accepted remoteAddr \<Rightarrow>
          if l \<in> closed n then None
          else (case open_peer (fst (ParseAddress G remoteAddr)) NoPubKey False False n of
                  (True, n1) \<Rightarrow> Some n1
                | (False, n1) \<Rightarrow> Some (accept_ends l n1))
      | _ \<Rightarrow> None)"

definition acceptHandlers :: "task_event \<Rightarrow> 's net \<Rightarrow> 's net option" where
  "acceptHandlers ev n =
     (case acceptPc n of
        AStart \<Rightarrow>
          (case ev of
             Failed e \<Rightarrow> Some (n\<lparr>acceptPc := ADone\<rparr>)
           | Listening \<Rightarrow> Some (n\<lparr>socket := Some (nextId n), nextId := Suc (nextId n), acceptPc := ATop\<rparr>)
           | _ \<Rightarrow> None)
      | ATop \<Rightarrow>
          if ev = Go then Some (n\<lparr>acceptPc := (if stopping n then ADone else AAccept)\<rparr>) else None
      | AAccept \<Rightarrow>
          (case ev of
             Failed e \<Rightarrow> Some (n\<lparr>crashed := True\<rparr>)
           | Accepted remoteAddr \<Rightarrow>
               if set_option (socket n) \<subseteq> closed n then None
               else
                 let c = nextId n; hand = newHandler c in
                 (case trackHandler c c (n\<lparr>nextId := Suc c\<rparr>) of
                    (True, n1) \<Rightarrow> Some (n1\<lparr>hands := (hands n1)(c \<mapsto> hand), acceptPc := ATop\<rparr>)
                  | (False, n1) \<Rightarrow> Some ((close_conn c n1)\<lparr>acceptPc := ADone\<rparr>))
           | _ \<Rightarrow> None)
      | ADone \<Rightarrow> None)"

section \<open>Gossip of random addresses\<close>

text \<open>The conversion of the key to an array pointer panics when it has fewer than 32 bytes.\<close>

definition gossipRandomAddresses :: "gossip \<Rightarrow> 's store \<Rightarrow> task_event \<Rightarrow> 's net \<Rightarrow> 's net option" where
  "gossipRandomAddresses G S ev n =
     (case gossipPc n of
        GTop \<Rightarrow>
          (case ev of
             Go \<Rightarrow> if stopping n then Some (n\<lparr>gossipPc := GDone\<rparr>) else None
           | Pick r \<Rightarrow>
               if \<not> stopping n \<and> r < GossipAddressRandom
               then Some (n\<lparr>gossipPc := GSleep (clock n + (GossipAddressInverval + int r * Second))\<rparr>) else None
           | _ \<Rightarrow> None)
      | GSleep t \<Rightarrow> if ev = Go \<and> awake t n then Some (n\<lparr>gossipPc := GChoose\<rparr>) else None
      | GChoose \<Rightarrow>
          if ev \<noteq> Go then None
          else (case st_ChooseNetNodeMsg S (stState n) of
             None \<Rightarrow> None
           | Some ((nm, Some e), s) \<Rightarrow> Some (n\<lparr>stState := s, gossipPc := GTop\<rparr>)
           | Some ((nm, None), s) \<Rightarrow>
               if length (nrPubKey nm) < 32 then Some (n\<lparr>stState := s, crashed := True\<rparr>)
               else Some (n\<lparr>stState := s, gossipPc := GForward (ReEncodeMessage G (DnetChannelNode G)
                      (TagAddress G) (take 32 (nrPubKey nm)) (nrSig nm) (nrPayload nm))\<rparr>))
      | GForward msg \<Rightarrow> if ev = Go then Some ((forwardToPeers msg n)\<lparr>gossipPc := GTop\<rparr>) else None
      | GDone \<Rightarrow> None)"

section \<open>The search for peers\<close>

text \<open>
  \<open>choosePeer\<close>: \<open>FPick\<close> is the head of its loop with the first \<open>select\<close>, \<open>FPause\<close> the sleep
  before the store is asked, \<open>FWait\<close> the second \<open>select\<close>; it returns to \<open>FGot\<close>.
\<close>

definition choosePeer :: "'s store \<Rightarrow> task_event \<Rightarrow> 's net \<Rightarrow> 's net option" where
  "choosePeer S ev n =
     (case (findPc n, ev) of
        (FPick, Go) \<Rightarrow>
          if stopping n then Some (n\<lparr>findPc := FGot zero_nodeInfo False\<rparr>)
          else (case newPeers n of
                  np # q \<Rightarrow> Some (n\<lparr>newPeers := q, findPc := FGot np True\<rparr>)
                | [] \<Rightarrow> Some (n\<lparr>findPc := (if countPeers n < IdealPeers then FPause (clock n + 5 * Second)
                                              else FWait (clock n + 30 * Second))\<rparr>))
      | (FPause t, Go) \<Rightarrow>
          if \<not> awake t n then None
          else (case st_ChooseNetNode S (stState n) of
             None \<Rightarrow> None
           | Some ((np, Some e), s) \<Rightarrow> Some (n\<lparr>stState := s, findPc := FWait (clock n + 30 * Second)\<rparr>)
           | Some ((np, None), s) \<Rightarrow> Some (n\<lparr>stState := s, findPc := FGot np False\<rparr>))
      | (FWait t, Go) \<Rightarrow>
          (case newPeers n of
             np # q \<Rightarrow> Some (n\<lparr>newPeers := q, findPc := FGot np True\<rparr>)
           | [] \<Rightarrow> None)
      | (FWait t, Timeout) \<Rightarrow> if t \<le> clock n then Some (n\<lparr>findPc := FPick\<rparr>) else None
      | _ \<Rightarrow> None)"

definition findPeers :: "gossip \<Rightarrow> 's store \<Rightarrow> task_event \<Rightarrow> 's net \<Rightarrow> 's net option" where
  "findPeers G S ev n =
     (case findPc n of
        FTop \<Rightarrow> if ev = Go then Some (n\<lparr>findPc := (if stopping n then FDone else FPick)\<rparr>) else None
      | FGot node isNewPeer \<Rightarrow>
          if ev \<noteq> Go then None
          else if NodeInfo_IsValid G node \<and> \<not> havePeer (niPubKey node) n
          then Some (n\<lparr>findPc := FLock node isNewPeer\<rparr>)
          else Some (n\<lparr>findPc := FSleep (clock n + 5 * Second)\<rparr>)
      | FLock node isNewPeer \<Rightarrow>
          if ev \<noteq> Go then None
          else (case lockPeer (niPubKey node) n of
                  (locked, n1) \<Rightarrow>
                    Some (n1\<lparr>findPc := (if locked \<and> \<not> isMyAddress G node n1 then FDial node isNewPeer
                                       else FSleep (clock n1 + 5 * Second))\<rparr>))
      | FDial node isNewPeer \<Rightarrow>
          (case ev of
             Failed e \<Rightarrow> Some (n\<lparr>findPc := FSleep (clock n + 5 * Second)\<rparr>)
           | Connected \<Rightarrow>
               (case open_peer (niAddr node) (niPubKey node) True True n of
                  (True, n1) \<Rightarrow> Some (n1\<lparr>findPc := FSleep (clock n1 + 5 * Second)\<rparr>)
                | (False, n1) \<Rightarrow> Some (n1\<lparr>findPc := FDone\<rparr>))
           | _ \<Rightarrow> None)
      | FSleep t \<Rightarrow> if ev = Go \<and> awake t n then Some (n\<lparr>findPc := FTop\<rparr>) else None
      | FDone \<Rightarrow> None
      | _ \<Rightarrow> choosePeer S ev n)"

section \<open>DNS seeds\<close>

definition seedFromDNS :: "gossip \<Rightarrow> task_event \<Rightarrow> 's net \<Rightarrow> 's net option" where
  "seedFromDNS G ev n =
     (case seedPc n of
        DLookup \<Rightarrow>
          if stopping n then (if ev = Go then Some (n\<lparr>seedPc := DTop []\<rparr>) else None)
          else (case ev of
                  Failed e \<Rightarrow> Some (n\<lparr>seedPc := DLookupPause\<rparr>)
                | LookedUp seed_ips \<Rightarrow>
                    Some (n\<lparr>seedPc := (if length seed_ips > 0 then DTop seed_ips else DLookupPause)\<rparr>)
                | _ \<Rightarrow> None)
      | DLookupPause \<Rightarrow>
          (case ev of
             Pick r \<Rightarrow>
               if r < SeedAttemptRandom
               then Some (n\<lparr>seedPc := DLookupSleep (clock n + (SeedAttemptTime + int r * Second))\<rparr>) else None
           | _ \<Rightarrow> None)
      | DLookupSleep t \<Rightarrow> if ev = Go \<and> awake t n then Some (n\<lparr>seedPc := DLookup\<rparr>) else None
      | DTop seed_ips \<Rightarrow>
          if length seed_ips > 0 \<and> \<not> stopping n
          then (case ev of
                  Pick idx \<Rightarrow> if idx < length seed_ips then Some (n\<lparr>seedPc := DDial seed_ips idx\<rparr>) else None
                | _ \<Rightarrow> None)
          else (if ev = Go then Some (n\<lparr>seedPc := DDone\<rparr>) else None)
      | DDial seed_ips idx \<Rightarrow>
          (case ev of
             Failed e \<Rightarrow> Some (n\<lparr>seedPc := DPause seed_ips\<rparr>)
           | Connected \<Rightarrow>
               (case open_peer \<lparr>Host = seed_ips ! idx, Port = DogeNetDefaultPort G\<rparr> NoPubKey True False n of
                  (True, n1) \<Rightarrow> Some (n1\<lparr>seedPc := DPause (swap_remove idx seed_ips)\<rparr>)
                | (False, n1) \<Rightarrow> Some (n1\<lparr>seedPc := DDone\<rparr>))
           | _ \<Rightarrow> None)
      | DPause seed_ips \<Rightarrow>
          (case ev of
             Pick r \<Rightarrow>
               if r < SeedAttemptRandom
               then Some (n\<lparr>seedPc := DSleep seed_ips (clock n + (SeedAttemptTime + int r * Second))\<rparr>) else None
           | _ \<Rightarrow> None)
      | DSleep seed_ips t \<Rightarrow> if ev = Go \<and> awake t n then Some (n\<lparr>seedPc := DTop seed_ips\<rparr>) else None
      | DDone \<Rightarrow> None)"

text \<open>\<open>Run\<close>: the listeners are opened, then the four goroutines start.\<close>

definition NetService_Run :: "(goerr option \<times> bool) list \<Rightarrow> 's net \<Rightarrow> 's net" where
  "NetService_Run answers n = startListeners answers n"

end
