(* ===== verification/NetInv.thy ===== *)
theory NetInv
  imports NetTasks
begin

text \<open>
  The invariants of the net service, one goroutine at a time: what each connection structure
  satisfies at each program point, what the registry of peers and the tracked connections
  satisfy, and that every step of every goroutine keeps it.
\<close>

declare map_of_eq_Some_iff [simp del]

section \<open>One peer connection\<close>

text \<open>Before the peer's key is known; its key may still change.\<close>

definition pre_adopt :: "peerConn \<Rightarrow> bool" where
  "pre_adopt x \<longleftrightarrow> \<not> pHasPub x \<and>
     (case pRecv x of
        RAwaitFirst \<Rightarrow> True | RAdoptIn m \<Rightarrow> True | RAwaitReply \<Rightarrow> True | RAdoptOut m \<Rightarrow> True
      | RPoll m \<Rightarrow> pOutbound x | RWriteHdr m \<Rightarrow> pOutbound x | RWritePay m \<Rightarrow> pOutbound x
      | _ \<Rightarrow> False)"

text \<open>After the handshake: messages are relayed.\<close>

definition established :: "peerConn \<Rightarrow> bool" where
  "established x \<longleftrightarrow>
     (case pRecv x of
        RLoop \<Rightarrow> True | RRead \<Rightarrow> True | RForwardHandlers m \<Rightarrow> True
      | RIngest who m \<Rightarrow> who = Relay | RForward who m err \<Rightarrow> who = Relay
      | _ \<Rightarrow> False)"

text \<open>The peer's announced key has been compared with this node's own key.\<close>

definition self_checked :: "peerConn \<Rightarrow> bool" where
  "self_checked x \<longleftrightarrow> established x \<or> pSender x \<noteq> SNone \<or>
     (case pRecv x of
        RIngest who m \<Rightarrow> True | RForward who m err \<Rightarrow> True
      | RPoll m \<Rightarrow> \<not> pOutbound x | RWriteHdr m \<Rightarrow> \<not> pOutbound x | RWritePay m \<Rightarrow> \<not> pOutbound x
      | RAdoptIn m \<Rightarrow> True
      | _ \<Rightarrow> False)"

text \<open>Registered under its key, unless closed since. Keys of outbound peers are known from
  the start; the key of zeros stands for none.\<close>

definition joined :: "peerConn \<Rightarrow> bool" where
  "joined x \<longleftrightarrow>
     (if pHasPub x then pPub x \<noteq> NoPubKey \<and> pRecv x \<noteq> RClosing \<and> pRecv x \<noteq> RDone
      else \<not> pre_adopt x \<and> pRecv x \<noteq> RClosing \<and> pRecv x \<noteq> RDone)"

text \<open>The program points that belong to the direction of the connection.\<close>

definition direction_ok :: "peerConn \<Rightarrow> bool" where
  "direction_ok x \<longleftrightarrow>
     (pHasPub x \<longrightarrow> pOutbound x) \<and>
     (case pRecv x of
        RAwaitReply \<Rightarrow> pOutbound x
      | RAdoptOut m \<Rightarrow> pOutbound x \<and> \<not> pHasPub x \<and> pPub x = mPubKey m
      | RAwaitFirst \<Rightarrow> \<not> pOutbound x
      | RAdoptIn m \<Rightarrow> \<not> pOutbound x \<and> pPub x = mPubKey m
      | RIngest who m \<Rightarrow> (who = OutboundReply \<longrightarrow> pOutbound x) \<and> (who = InboundFirst \<longrightarrow> \<not> pOutbound x) \<and>
          length (mPubKey m) = 32 \<and> mPubKey m \<noteq> Pub (pNodeKey x)
      | RForward who m err \<Rightarrow> (who = OutboundReply \<longrightarrow> pOutbound x) \<and> (who = InboundFirst \<longrightarrow> \<not> pOutbound x)
      | _ \<Rightarrow> True)"

text \<open>
  What has been written before \<open>sendToPeer\<close> starts: nothing, or this node's announcement,
  header first; to an inbound peer nothing before its own announcement has been accepted.
\<close>

definition handshake_wire :: "peerConn \<Rightarrow> bytes list \<Rightarrow> bool" where
  "handshake_wire x w \<longleftrightarrow>
     (case pRecv x of
        RPoll m \<Rightarrow> w = [] | RWriteHdr m \<Rightarrow> w = [] | RWritePay m \<Rightarrow> w = [Header m]
      | RAwaitFirst \<Rightarrow> w = [] | RAdoptIn m \<Rightarrow> w = []
      | RIngest who m \<Rightarrow> who = InboundFirst \<longrightarrow> w = []
      | RForward who m err \<Rightarrow> who = InboundFirst \<longrightarrow> w = []
      | _ \<Rightarrow> True) \<and>
     (pSender x = SNone \<longrightarrow> length w \<le> 2 \<and> \<not> established x)"

definition peer_ok :: "keyPair \<Rightarrow> nat \<Rightarrow> bytes list \<Rightarrow> peerConn \<Rightarrow> bool" where
  "peer_ok key p w x \<longleftrightarrow>
     pConn x = p \<and> pNodeKey x = key \<and> length (pSend x) \<le> 100 \<and> length (pPub x) = 32 \<and>
     direction_ok x \<and> handshake_wire x w \<and>
     (self_checked x \<longrightarrow> pPub x \<noteq> Pub key) \<and>
     (pSender x \<noteq> SNone \<longrightarrow> established x \<or> pRecv x = RClosing \<or> pRecv x = RDone)"

lemmas peer_defs = pre_adopt_def established_def self_checked_def joined_def direction_ok_def
  handshake_wire_def

lemma try_send_fields [simp]:
  "pConn ((try_send_peer msg ^^ k) x) = pConn x" "pAllowLocal ((try_send_peer msg ^^ k) x) = pAllowLocal x"
  "pOutbound ((try_send_peer msg ^^ k) x) = pOutbound x" "pHasPub ((try_send_peer msg ^^ k) x) = pHasPub x"
  "pPub ((try_send_peer msg ^^ k) x) = pPub x" "pNodeKey ((try_send_peer msg ^^ k) x) = pNodeKey x"
  "pRecv ((try_send_peer msg ^^ k) x) = pRecv x" "pSender ((try_send_peer msg ^^ k) x) = pSender x"
  "pAddr ((try_send_peer msg ^^ k) x) = pAddr x"
  "length (pSend x) \<le> 100 \<Longrightarrow> length (pSend ((try_send_peer msg ^^ k) x)) \<le> 100"
  by (induction k) (simp_all add: try_send_peer_def length_chan_try_send)

lemma try_send_ok [simp]:
  "pre_adopt ((try_send_peer msg ^^ k) x) = pre_adopt x" "joined ((try_send_peer msg ^^ k) x) = joined x"
  "established ((try_send_peer msg ^^ k) x) = established x"
  "self_checked ((try_send_peer msg ^^ k) x) = self_checked x"
  "direction_ok ((try_send_peer msg ^^ k) x) = direction_ok x"
  "handshake_wire ((try_send_peer msg ^^ k) x) w = handshake_wire x w"
  "peer_ok key p w x \<Longrightarrow> peer_ok key p w ((try_send_peer msg ^^ k) x)"
  by (auto simp: peer_defs peer_ok_def split: recv_pc.splits)

lemma peer_ok_addr [simp]: "peer_ok key p w (x\<lparr>pAddr := a\<rparr>) = peer_ok key p w x"
  by (auto simp: peer_defs peer_ok_def split: recv_pc.splits)

section \<open>The service\<close>

definition peers_ok :: "'s net \<Rightarrow> bool" where
  "peers_ok n \<longleftrightarrow>
     (\<forall>p x. peers n p = Some x \<longrightarrow> peer_ok (nodeKey n) p (wire n p) x \<and> p < nextId n \<and> hands n p = None)"

definition registry_ok :: "'s net \<Rightarrow> bool" where
  "registry_ok n \<longleftrightarrow> distinct (map fst (connectedPeers n)) \<and>
     (\<forall>k p. map_of (connectedPeers n) k = Some p \<longrightarrow>
        (\<exists>x. peers n p = Some x \<and> pPub x = k \<and> \<not> pre_adopt x)) \<and>
     (\<forall>p x. peers n p = Some x \<and> joined x \<and> p \<notin> closed n \<longrightarrow>
        map_of (connectedPeers n) (pPub x) = Some p)"


subsection \<open>Peers: one structure changes at a time\<close>

lemma peers_ok_frame [simp]:
  "peers_ok (n\<lparr>connectedPeers := a\<rparr>) = peers_ok n" "peers_ok (n\<lparr>connections := b\<rparr>) = peers_ok n"
  "peers_ok (n\<lparr>closed := c\<rparr>) = peers_ok n" "peers_ok (n\<lparr>stState := s\<rparr>) = peers_ok n"
  "peers_ok (n\<lparr>handlers := hs\<rparr>) = peers_ok n" "peers_ok (n\<lparr>lockedPeers := l\<rparr>) = peers_ok n"
  "peers_ok (n\<lparr>newPeers := np\<rparr>) = peers_ok n" "peers_ok (n\<lparr>announceChanges := q\<rparr>) = peers_ok n"
  "peers_ok (n\<lparr>encAnnounce := e\<rparr>) = peers_ok n" "peers_ok (n\<lparr>clock := t\<rparr>) = peers_ok n"
  "peers_ok (n\<lparr>stopping := st\<rparr>) = peers_ok n" "peers_ok (n\<lparr>stopped := sp\<rparr>) = peers_ok n"
  "peers_ok (n\<lparr>crashed := cr\<rparr>) = peers_ok n" "peers_ok (n\<lparr>accepting := ac\<rparr>) = peers_ok n"
  "peers_ok (n\<lparr>listeners := li\<rparr>) = peers_ok n" "peers_ok (n\<lparr>socket := so\<rparr>) = peers_ok n"
  "peers_ok (n\<lparr>findPc := fp\<rparr>) = peers_ok n" "peers_ok (n\<lparr>gossipPc := gp\<rparr>) = peers_ok n"
  "peers_ok (n\<lparr>seedPc := sd\<rparr>) = peers_ok n" "peers_ok (n\<lparr>acceptPc := apc\<rparr>) = peers_ok n"
  "peers_ok (close_conn cc n) = peers_ok n"
  by (simp_all add: peers_ok_def close_conn_def)

lemma peers_ok_peer: "peers_ok n \<Longrightarrow> peers n p = Some x \<Longrightarrow> peer_ok (nodeKey n) p (wire n p) x"
  by (simp add: peers_ok_def)

lemma peers_ok_forward [simp]: "peers_ok n \<Longrightarrow> peers_ok (forwardToPeers msg n)"
  by (auto simp: peers_ok_def forwardToPeers_eq)

lemma peers_ok_hands [simp]: "peers_ok n \<Longrightarrow> peers_ok (n\<lparr>hands := \<lambda>h. if P h then map_option f (hands n h) else hands n h\<rparr>)"
  by (auto simp: peers_ok_def)

lemma peers_ok_forwardToHandlers: "peers_ok n \<Longrightarrow> peers_ok (snd (forwardToHandlers ch hdr pl n))"
  by (simp add: forwardToHandlers_def forward_handlers_eq)

lemma peers_ok_set_peer:
  assumes "peers_ok n" and "\<And>x. peers n p = Some x \<Longrightarrow> peer_ok (nodeKey n) p (wire n p) (f x)"
  shows "peers_ok (set_peer p f n)"
  using assms by (auto simp: peers_ok_def set_peer_def)

lemma peers_ok_write:
  assumes "peers_ok n" "peers n p = Some x" "peer_ok (nodeKey n) p (wire n p @ [b]) (f x)"
  shows "peers_ok (set_peer p f (conn_write (pConn x) b n))"
  using assms by (auto simp: peers_ok_def set_peer_def conn_write_def peer_ok_def)

lemma set_peer_set_peer [simp]: "set_peer p f (set_peer p g n) = set_peer p (\<lambda>x. f (g x)) n"
  by (simp add: set_peer_def option.map_comp comp_def)

lemma peers_ok_closePeer [simp]: "peers_ok (closePeer p n) = peers_ok n"
  by (auto simp: closePeer_def Let_def split: option.splits)

lemmas gotos = goto_def sender_goto_def copy_pub_def

lemma go_copy_pub [simp]: "length d = 32 \<Longrightarrow> length k = 32 \<Longrightarrow> go_copy d 0 32 k = k"
  by (simp add: go_copy_def)

lemma peers_ok_adopt: "adoptPeer p k n = (b, n1) \<Longrightarrow> peers_ok n \<Longrightarrow>
   peers_ok n1 \<and> nodeKey n1 = nodeKey n \<and> wire n1 = wire n \<and> peers n1 = peers n"
  by (auto simp: adoptPeer_def split: if_splits)

lemma peers_ok_ingest_return:
  assumes "peers_ok n" "peers n p = Some x"
    and "pRecv x = RForward who m err' \<or> pRecv x = RIngest who m"
  shows "peers_ok (ingest_return p who err n)"
proof -
  have "peer_ok (nodeKey n) p (wire n p) (x\<lparr>pRecv := RClosing\<rparr>)"
    "who = OutboundReply \<Longrightarrow> peer_ok (nodeKey n) p (wire n p) (x\<lparr>pSender := STop, pRecv := RLoop\<rparr>)"
    "who = InboundFirst \<Longrightarrow> peer_ok (nodeKey n) p (wire n p) (x\<lparr>pRecv := RPoll zero_rawMessage\<rparr>)"
    "who = Relay \<Longrightarrow> peer_ok (nodeKey n) p (wire n p) (x\<lparr>pRecv := RLoop\<rparr>)"
    using peers_ok_peer [OF assms(1,2)] assms(3) by (auto simp: peer_ok_def peer_defs)
  then show ?thesis
    using assms(1,2) unfolding ingest_return_def gotos
    by (auto split: option.splits caller.splits intro!: peers_ok_set_peer)
qed

lemma peers_ok_on_write:
  assumes "on_write ev (pConn x) b n (set_peer p f) (set_peer p g) = Some n'"
    and "peers_ok n" "peers n p = Some x"
    and "peer_ok (nodeKey n) p (wire n p @ [b]) (f x)" "peer_ok (nodeKey n) p (wire n p) (g x)"
  shows "peers_ok n'"
  using assms peers_ok_write [where f = f, OF assms(2,3,4)] peers_ok_set_peer [OF assms(2), of p g]
  by (auto simp: on_write_def split: event.splits if_splits)

subsection \<open>Steps of a peer\<close>

text \<open>The two writes of \<open>sendMyAddress\<close>, as writes that then change one structure.\<close>

lemma receive_header:
  "receiveFromPeer G S ev p n = Some n' \<Longrightarrow> peers n p = Some x \<Longrightarrow> pRecv x = RWriteHdr m \<Longrightarrow>
   on_write ev (pConn x) (Header m) n (set_peer p (\<lambda>x. x\<lparr>pRecv := RWritePay m\<rparr>))
     (set_peer p (\<lambda>x. x\<lparr>pRecv := RClosing\<rparr>)) = Some n'"
  by (simp add: receiveFromPeer_def goto_def)

lemma receive_payload:
  "receiveFromPeer G S ev p n = Some n' \<Longrightarrow> peers n p = Some x \<Longrightarrow> pRecv x = RWritePay m \<Longrightarrow>
   on_write ev (pConn x) (Payload m) n
     (set_peer p (\<lambda>x. if pOutbound x then x\<lparr>pRecv := RAwaitReply\<rparr> else x\<lparr>pSender := STop, pRecv := RLoop\<rparr>))
     (set_peer p (\<lambda>x. x\<lparr>pRecv := RClosing\<rparr>)) = Some n'"
  by (auto simp: receiveFromPeer_def gotos sendMyAddress_done_def on_write_def conn_write_def set_peer_def
      split: event.splits if_splits)

lemma peers_ok_ingest:
  assumes "ingest_store G S p who m x n = Some n'" "peers_ok n" "peers n p = Some x" "pRecv x = RIngest who m"
  shows "peers_ok n'"
proof -
  note ok = peers_ok_peer [OF assms(2,3)]
  have r: "peers_ok (ingest_return p who e n1)" if "peers_ok n1" "peers n1 p = Some y" "pRecv y = pRecv x" for n1 :: "'a net" and e y
    using that assms(4) by (intro peers_ok_ingest_return [where m = m and err' = e]) auto
  have f: "peer_ok (nodeKey n) p (wire n p) (x\<lparr>pAddr := ad, pRecv := RForward who m e\<rparr>)" for ad e
    using ok assms(4) by (auto simp: peer_ok_def peer_defs)
  have a: "peers_ok (set_peer p (\<lambda>x. x\<lparr>pAddr := ad\<rparr>) n)" for ad
    using assms(2,3) ok by (intro peers_ok_set_peer) auto
  have g: "peers_ok (goto p (RForward who m e) ((set_peer p (\<lambda>x. x\<lparr>pAddr := ad\<rparr>) n)\<lparr>stState := s\<rparr>))" for ad e s
    unfolding goto_def using a f assms(3) by (intro peers_ok_set_peer) auto
  show ?thesis using assms
    by (auto simp: ingest_store_def Let_def split: if_splits sum.splits option.splits prod.splits intro!: r g a)
qed

lemma peers_ok_receive:
  assumes "receiveFromPeer G S ev p n = Some n'" and "peers_ok n"
  shows "peers_ok n'"
proof -
  obtain x where x: "peers n p = Some x" using assms(1) by (auto simp: receiveFromPeer_def split: option.splits)
  note ok = peers_ok_peer [OF assms(2) x]
  show ?thesis
  proof (cases "pRecv x")
    case (RPoll m)
    then show ?thesis using assms x ok
      by (auto simp: receiveFromPeer_def on_defs sendMyAddress_poll_def gotos Let_def peer_ok_def peer_defs split: if_splits intro!: peers_ok_set_peer)
  next
    case (RWriteHdr m)
    from receive_header [OF assms(1) x this] show ?thesis using assms(2) x
      by (rule peers_ok_on_write) (use ok RWriteHdr in \<open>auto simp: peer_ok_def peer_defs\<close>)
  next
    case (RWritePay m)
    from receive_payload [OF assms(1) x this] show ?thesis using assms(2) x
      by (rule peers_ok_on_write) (use ok RWritePay in \<open>auto simp: peer_ok_def peer_defs\<close>)
  next
    case RAwaitReply
    then show ?thesis using assms x ok
      by (auto simp: receiveFromPeer_def on_defs gotos outbound_reply_def outbound_self_def peer_ok_def peer_defs split: if_splits event.splits intro!: peers_ok_set_peer)
  next
    case (RAdoptOut m)
    then show ?thesis using assms x ok
      by (auto simp: receiveFromPeer_def on_defs gotos outbound_adopt_def outbound_self_def peer_ok_def peer_defs split: if_splits bool.splits prod.splits intro!: peers_ok_set_peer dest!: peers_ok_adopt)
  next
    case RAwaitFirst
    then show ?thesis using assms x ok
      by (auto simp: receiveFromPeer_def on_defs gotos inbound_first_def Let_def peer_ok_def peer_defs split: if_splits event.splits intro!: peers_ok_set_peer)
  next
    case (RAdoptIn m)
    then show ?thesis using assms x ok
      by (auto simp: receiveFromPeer_def on_defs gotos inbound_adopt_def peer_ok_def peer_defs split: if_splits bool.splits prod.splits intro!: peers_ok_set_peer dest!: peers_ok_adopt)
  next
    case (RIngest who m)
    then show ?thesis using assms x peers_ok_ingest by (auto simp: receiveFromPeer_def split: if_splits)
  next
    case (RForward who m err)
    have "peers_ok (ingest_forward p who m err n)"
      unfolding ingest_forward_def using RForward assms(2) x
      by (intro peers_ok_ingest_return [where err' = err and m = m]) (auto simp: forwardToPeers_at)
    then show ?thesis using RForward assms x ok
      by (auto simp: receiveFromPeer_def on_defs split: if_splits)
  next
    case RLoop
    then show ?thesis using assms x ok
      by (auto simp: receiveFromPeer_def on_defs gotos peer_ok_def peer_defs split: if_splits intro!: peers_ok_set_peer)
  next
    case RRead
    then show ?thesis using assms x ok
      by (auto simp: receiveFromPeer_def on_defs gotos relay_message_def peer_ok_def peer_defs split: if_splits event.splits intro!: peers_ok_set_peer)
  next
    case (RForwardHandlers m)
    then show ?thesis using assms x ok
      apply (auto simp: receiveFromPeer_def on_defs gotos relay_to_handlers_def forwardToHandlers_def forward_handlers_eq peer_ok_def peer_defs split: if_splits prod.splits intro!: peers_ok_set_peer)
      done
  next
    case RClosing
    then show ?thesis using assms x ok
      apply (auto simp: receiveFromPeer_def on_defs gotos peer_ok_def peer_defs split: if_splits prod.splits intro!: peers_ok_set_peer)
      done
  next
    case RDone
    then show ?thesis using assms x ok by (simp add: receiveFromPeer_def)
  qed
qed

lemma peers_ok_send:
  assumes "sendToPeer ev p n = Some n'" and "peers_ok n"
  shows "peers_ok n'"
proof -
  obtain x where x: "peers n p = Some x" using assms(1) by (auto simp: sendToPeer_def split: option.splits)
  note ok = peers_ok_peer [OF assms(2) x]
  show ?thesis
  proof (cases "pSender x")
    case (SHdr m)
    then have "on_write ev (pConn x) (Header m) n (set_peer p (\<lambda>x. x\<lparr>pSender := SPay m\<rparr>))
        (set_peer p (\<lambda>x. x\<lparr>pSender := SClosing\<rparr>)) = Some n'"
      using assms(1) x by (simp add: sendToPeer_def sender_goto_def)
    then show ?thesis using assms(2) x
      by (rule peers_ok_on_write) (use ok SHdr in \<open>auto simp: peer_ok_def peer_defs split: recv_pc.splits\<close>)
  next
    case (SPay m)
    then have "on_write ev (pConn x) (Payload m) n (set_peer p (\<lambda>x. x\<lparr>pSender := STop\<rparr>))
        (set_peer p (\<lambda>x. x\<lparr>pSender := SClosing\<rparr>)) = Some n'"
      using assms(1) x by (simp add: sendToPeer_def sender_goto_def)
    then show ?thesis using assms(2) x
      by (rule peers_ok_on_write) (use ok SPay in \<open>auto simp: peer_ok_def peer_defs split: recv_pc.splits\<close>)
  next
    case SSelect
    have "peer_ok (nodeKey n) p (wire n p) (x\<lparr>pSend := q, pSender := SHdr r\<rparr>)" if "pSend x = r # q" for r q
      using ok SSelect that by (auto simp: peer_ok_def peer_defs split: recv_pc.splits)
    moreover have "peer_ok (nodeKey n) p (wire n p) (x\<lparr>pSender := SClosing\<rparr>)"
      using ok SSelect by (auto simp: peer_ok_def peer_defs split: recv_pc.splits)
    ultimately show ?thesis using assms x SSelect
      by (auto simp: sendToPeer_def sender_goto_def split: event.splits list.splits if_splits intro!: peers_ok_set_peer)
  next
    case STop
    have "peer_ok (nodeKey n) p (wire n p) (x\<lparr>pSender := s\<rparr>)" if "s \<noteq> SNone" for s
      using ok STop that by (auto simp: peer_ok_def peer_defs split: recv_pc.splits)
    then show ?thesis using assms x STop
      by (auto simp: sendToPeer_def sender_goto_def on_defs split: if_splits intro!: peers_ok_set_peer)
  next
    case SClosing
    have "peer_ok (nodeKey n) p (wire n p) (x\<lparr>pSender := SDone\<rparr>)"
      using ok SClosing by (auto simp: peer_ok_def peer_defs split: recv_pc.splits)
    then show ?thesis using assms x SClosing
      by (auto simp: sendToPeer_def sender_goto_def on_defs split: if_splits intro!: peers_ok_set_peer)
  qed (use assms x in \<open>simp_all add: sendToPeer_def\<close>)
qed

subsection \<open>The registry\<close>

lemma registry_frame [simp]:
  "registry_ok (n\<lparr>connections := b\<rparr>) = registry_ok n" "registry_ok (n\<lparr>stState := s\<rparr>) = registry_ok n"
  "registry_ok (n\<lparr>handlers := hs\<rparr>) = registry_ok n" "registry_ok (n\<lparr>lockedPeers := l\<rparr>) = registry_ok n"
  "registry_ok (n\<lparr>newPeers := np\<rparr>) = registry_ok n" "registry_ok (n\<lparr>announceChanges := q\<rparr>) = registry_ok n"
  "registry_ok (n\<lparr>encAnnounce := e\<rparr>) = registry_ok n" "registry_ok (n\<lparr>clock := t\<rparr>) = registry_ok n"
  "registry_ok (n\<lparr>stopping := st\<rparr>) = registry_ok n" "registry_ok (n\<lparr>stopped := sp\<rparr>) = registry_ok n"
  "registry_ok (n\<lparr>crashed := cr\<rparr>) = registry_ok n" "registry_ok (n\<lparr>accepting := ac\<rparr>) = registry_ok n"
  "registry_ok (n\<lparr>listeners := li\<rparr>) = registry_ok n" "registry_ok (n\<lparr>socket := so\<rparr>) = registry_ok n"
  "registry_ok (n\<lparr>findPc := fp\<rparr>) = registry_ok n" "registry_ok (n\<lparr>gossipPc := gp\<rparr>) = registry_ok n"
  "registry_ok (n\<lparr>seedPc := sd\<rparr>) = registry_ok n" "registry_ok (n\<lparr>acceptPc := apc\<rparr>) = registry_ok n"
  "registry_ok (n\<lparr>hands := h\<rparr>) = registry_ok n" "registry_ok (n\<lparr>nextId := i\<rparr>) = registry_ok n"
  "registry_ok (conn_write c w n) = registry_ok n"
  by (simp_all add: registry_ok_def conn_write_def)

lemma registry_forward [simp]: "registry_ok n \<Longrightarrow> registry_ok (forwardToPeers msg n)"
  by (fastforce simp: registry_ok_def forwardToPeers_at)

lemma registry_close [simp]: "registry_ok n \<Longrightarrow> registry_ok (close_conn c n)"
  by (auto simp: registry_ok_def close_conn_def)

lemma registry_set_peer:
  assumes "registry_ok n"
    and "\<And>x. peers n p = Some x \<Longrightarrow> pPub (f x) = pPub x"
    and "\<And>x. peers n p = Some x \<Longrightarrow> \<not> pre_adopt x \<Longrightarrow> \<not> pre_adopt (f x)"
    and "\<And>x. peers n p = Some x \<Longrightarrow> joined (f x) \<Longrightarrow> joined x"
  shows "registry_ok (set_peer p f n)"
  using assms unfolding registry_ok_def by (auto simp: set_peer_def) (metis option.inject)+

lemma registry_entry:
  "registry_ok n \<Longrightarrow> map_of (connectedPeers n) k = Some p \<Longrightarrow> peers n p = Some x \<Longrightarrow>
   pPub x = k \<and> \<not> pre_adopt x"
  unfolding registry_ok_def by (metis option.inject)

text \<open>While the key is not fixed, the peer is not registered.\<close>

lemma registry_set_key:
  assumes "registry_ok n" "peers n p = Some x" "pre_adopt x" "pre_adopt (f x)"
  shows "registry_ok (set_peer p f n)"
  using assms unfolding registry_ok_def set_peer_def
  by (auto simp: joined_def pre_adopt_def split: if_splits) (metis option.inject)+

lemma registry_okI:
  assumes "distinct (map fst (connectedPeers n))"
    and "\<And>k p. map_of (connectedPeers n) k = Some p \<Longrightarrow> \<exists>x. peers n p = Some x \<and> pPub x = k \<and> \<not> pre_adopt x"
    and "\<And>p x. peers n p = Some x \<Longrightarrow> joined x \<Longrightarrow> p \<notin> closed n \<Longrightarrow> map_of (connectedPeers n) (pPub x) = Some p"
  shows "registry_ok n"
  using assms by (simp add: registry_ok_def)

lemma registry_okD:
  assumes "registry_ok n"
  shows "distinct (map fst (connectedPeers n))"
    and "map_of (connectedPeers n) k = Some p \<Longrightarrow> \<exists>x. peers n p = Some x \<and> pPub x = k \<and> \<not> pre_adopt x"
    and "peers n p = Some x \<Longrightarrow> joined x \<Longrightarrow> p \<notin> closed n \<Longrightarrow> map_of (connectedPeers n) (pPub x) = Some p"
  using assms by (simp_all add: registry_ok_def)

lemma registry_adopt:
  assumes "registry_ok n" "peers n p = Some x" "pre_adopt x" "adoptPeer p (pPub x) n = (b, n1)"
    and "pPub (f x) = pPub x" and "\<not> pre_adopt (f x)" and "\<not> b \<Longrightarrow> \<not> joined (f x)"
  shows "registry_ok (set_peer p f n1)"
proof (cases b)
  case True
  then have n1: "n1 = n\<lparr>connectedPeers := AList.update (pPub x) p (connectedPeers n)\<rparr>"
    and free: "map_of (connectedPeers n) (pPub x) = None"
    using assms(4) by (auto simp: adoptPeer_def split: if_splits)
  have no: "map_of (connectedPeers n) k \<noteq> Some p" for k
    using registry_entry [OF assms(1) _ assms(2)] assms(3) by blast
  show ?thesis
  proof (rule registry_okI)
    show "distinct (map fst (connectedPeers (set_peer p f n1)))"
      using registry_okD(1) [OF assms(1)] by (simp add: n1 distinct_update)
    show "\<exists>y. peers (set_peer p f n1) q = Some y \<and> pPub y = k \<and> \<not> pre_adopt y"
      if "map_of (connectedPeers (set_peer p f n1)) k = Some q" for k q
      using that registry_okD(2) [OF assms(1), of k q] no [of k] assms(2,5,6)
      by (cases "k = pPub x") (auto simp: n1)
    show "map_of (connectedPeers (set_peer p f n1)) (pPub y) = Some q"
      if "peers (set_peer p f n1) q = Some y" "joined y" "q \<notin> closed (set_peer p f n1)" for q y
    proof (cases "q = p")
      case True
      then have "y = f x" using that(1) assms(2) by (simp add: n1)
      then show ?thesis using True assms(5) by (simp add: n1)
    next
      case False
      then have "map_of (connectedPeers n) (pPub y) = Some q"
        using that registry_okD(3) [OF assms(1), of q y] by (simp add: n1)
      then show ?thesis using free by (cases "pPub y = pPub x") (simp_all add: n1)
    qed
  qed
next
  case False
  then have "n1 = n" using assms(4) by (auto simp: adoptPeer_def split: if_splits)
  then show ?thesis
    using assms False by (intro registry_set_peer) auto
qed

lemma registry_closePeer:
  assumes "registry_ok n" "peers_ok n" "peers n p = Some x"
    and "pPub (f x) = pPub x" and "\<not> pre_adopt (f x)"
  shows "registry_ok (set_peer p f (closePeer p n))"
proof -
  have c: "pConn x = p" using peers_ok_peer [OF assms(2,3)] by (simp add: peer_ok_def)
  have reg: "connectedPeers (closePeer p n) =
      (if map_of (connectedPeers n) (pPub x) = Some p then AList.delete (pPub x) (connectedPeers n)
       else connectedPeers n)" "closed (closePeer p n) = insert p (closed n)"
    using assms(3) c by (auto simp: closePeer_def close_conn_def Let_def)
  have look: "map_of (connectedPeers (closePeer p n)) k =
      (if map_of (connectedPeers n) k = Some p then None else map_of (connectedPeers n) k)" for k
  proof (cases "map_of (connectedPeers n) k = Some p")
    case True
    then have "pPub x = k" using registry_entry [OF assms(1) _ assms(3)] by simp
    then show ?thesis using True by (simp add: reg)
  next
    case False
    then show ?thesis by (auto simp: reg)
  qed
  show ?thesis
  proof (rule registry_okI)
    show "distinct (map fst (connectedPeers (set_peer p f (closePeer p n))))"
      using registry_okD(1) [OF assms(1)] by (simp add: reg distinct_delete)
    show "\<exists>y. peers (set_peer p f (closePeer p n)) q = Some y \<and> pPub y = k \<and> \<not> pre_adopt y"
      if "map_of (connectedPeers (set_peer p f (closePeer p n))) k = Some q" for k q
      using that registry_okD(2) [OF assms(1), of k q] by (simp add: look split: if_splits)
    show "map_of (connectedPeers (set_peer p f (closePeer p n))) (pPub y) = Some q"
      if "peers (set_peer p f (closePeer p n)) q = Some y" "joined y"
        "q \<notin> closed (set_peer p f (closePeer p n))" for q y
      using that registry_okD(3) [OF assms(1), of q y] by (auto simp: look reg split: if_splits)
  qed
qed

lemma pre_adopt_fields [simp]:
  "pre_adopt (x\<lparr>pSender := s\<rparr>) = pre_adopt x" "pre_adopt (x\<lparr>pSend := q\<rparr>) = pre_adopt x"
  "pre_adopt (x\<lparr>pAddr := a\<rparr>) = pre_adopt x"
  by (auto simp: pre_adopt_def split: recv_pc.splits)

lemma joined_fields [simp]:
  "joined (x\<lparr>pSender := s\<rparr>) = joined x" "joined (x\<lparr>pSend := q\<rparr>) = joined x"
  "joined (x\<lparr>pAddr := a\<rparr>) = joined x"
  by (simp_all add: joined_def)

lemma registry_write:
  assumes "on_write ev c b n (set_peer p f) (set_peer p g) = Some n'"
    and "registry_ok n"
    and "\<And>x. peers n p = Some x \<Longrightarrow> pPub (f x) = pPub x \<and> pPub (g x) = pPub x"
    and "\<And>x. peers n p = Some x \<Longrightarrow> \<not> pre_adopt x \<Longrightarrow> \<not> pre_adopt (f x) \<and> \<not> pre_adopt (g x)"
    and "\<And>x. peers n p = Some x \<Longrightarrow> joined (f x) \<or> joined (g x) \<Longrightarrow> joined x"
  shows "registry_ok n'"
  using assms by (auto simp: on_write_def intro!: registry_set_peer split: event.splits if_splits)

lemma registry_ingest_return:
  assumes "registry_ok n" "peers n p = Some x"
    and "pRecv x = RForward who m err' \<or> pRecv x = RIngest who m" "direction_ok x"
  shows "registry_ok (ingest_return p who err n)"
  using assms unfolding ingest_return_def gotos
  by (auto split: option.splits caller.splits intro!: registry_set_peer simp: joined_def pre_adopt_def direction_ok_def)

lemma registry_ingest:
  assumes "ingest_store G S p who m x n = Some n'" "registry_ok n" "peers n p = Some x" "pRecv x = RIngest who m"
    and dir: "direction_ok x"
  shows "registry_ok n'"
proof -
  have r: "registry_ok (ingest_return p who e n1)" if "registry_ok n1" "peers n1 p = Some y" "pRecv y = pRecv x" "direction_ok y" for n1 :: "'a net" and e y
    using that assms(4) by (intro registry_ingest_return [where m = m and err' = e]) auto
  have a: "registry_ok (set_peer p (\<lambda>x. x\<lparr>pAddr := ad\<rparr>) n)" for ad
    using assms(2) by (intro registry_set_peer) auto
  have dir': "direction_ok (x\<lparr>pAddr := ad\<rparr>)" for ad
    using dir by (auto simp: direction_ok_def split: recv_pc.splits)
  have g: "registry_ok (goto p (RForward who m e) ((set_peer p (\<lambda>x. x\<lparr>pAddr := ad\<rparr>) n)\<lparr>stState := s\<rparr>))" for ad e s
    unfolding goto_def using a assms(3,4) by (intro registry_set_peer) (auto simp: joined_def pre_adopt_def)
  show ?thesis using assms
    by (auto simp: ingest_store_def Let_def split: if_splits sum.splits option.splits prod.splits intro!: r g a dir dir')
qed

lemma registry_await_first:
  assumes "receiveFromPeer G S ev p n = Some n'" "registry_ok n" "peers n p = Some x" "pRecv x = RAwaitFirst"
    and dir: "direction_ok x"
  shows "registry_ok n'"
proof -
  have c: "registry_ok (set_peer p (\<lambda>x. x\<lparr>pPub := k x, pRecv := RAdoptIn m\<rparr>) n)"
    "registry_ok (set_peer p (\<lambda>x. x\<lparr>pPub := k x\<rparr>) n)" for m k
    using assms(2-4) dir by (auto simp: pre_adopt_def direction_ok_def intro!: registry_set_key [OF _ assms(3)])
  have d: "registry_ok (set_peer p (\<lambda>x. x\<lparr>pPub := k x, pRecv := RClosing\<rparr>) n)" for k
    using registry_set_peer [OF c(2) [of k], of p "\<lambda>x. x\<lparr>pRecv := RClosing\<rparr>"] assms(3,4) dir
    by (auto simp: joined_def pre_adopt_def direction_ok_def)
  have e: "registry_ok (set_peer p (\<lambda>x. x\<lparr>pRecv := RClosing\<rparr>) n)"
    using d [of pPub] by simp
  show ?thesis using assms c d e
    by (auto simp: receiveFromPeer_def on_defs gotos inbound_first_def Let_def split: if_splits event.splits)
qed

text \<open>Adoption, from either side.\<close>

lemma registry_adopting:
  assumes "receiveFromPeer G S ev p n = Some n'" "registry_ok n" "peers n p = Some x" "direction_ok x"
    and "pRecv x = RAdoptOut m \<or> pRecv x = RAdoptIn m"
  shows "registry_ok n'"
proof -
  have a: "registry_ok (set_peer p (\<lambda>x. x\<lparr>pRecv := pc\<rparr>) n1)"
    if "adoptPeer p (pPub x) n = (b, n1)"
      "pc = RClosing \<or> b \<and> (pc = RIngest OutboundReply m \<or> pc = RIngest InboundFirst m)" for b n1 pc
    using that assms(4,5)
    by (intro registry_adopt [OF assms(2,3) _ that(1)]) (auto simp: pre_adopt_def joined_def direction_ok_def)
  show ?thesis using assms(1,3,5)
    by (auto simp: receiveFromPeer_def on_defs gotos outbound_adopt_def outbound_self_def inbound_adopt_def
        split: if_splits bool.splits prod.splits intro!: a)
qed

lemma registry_receive:
  assumes "receiveFromPeer G S ev p n = Some n'" and "peers_ok n" "registry_ok n"
  shows "registry_ok n'"
proof -
  obtain x where x: "peers n p = Some x" using assms(1) by (auto simp: receiveFromPeer_def split: option.splits)
  note ok = peers_ok_peer [OF assms(2) x]
  then have dir: "direction_ok x" and len: "length (pPub x) = 32" by (simp_all add: peer_ok_def)
  show ?thesis
  proof (cases "pRecv x")
    case (RPoll m)
    then show ?thesis using assms x
      by (auto simp: receiveFromPeer_def on_defs sendMyAddress_poll_def gotos Let_def joined_def pre_adopt_def split: if_splits intro!: registry_set_peer)
  next
    case (RWriteHdr m)
    from receive_header [OF assms(1) x this] show ?thesis using assms(3)
      by (rule registry_write) (use x RWriteHdr in \<open>auto simp: joined_def pre_adopt_def split: if_splits\<close>)
  next
    case (RWritePay m)
    from receive_payload [OF assms(1) x this] show ?thesis using assms(3)
      by (rule registry_write) (use x RWritePay dir in \<open>auto simp: joined_def pre_adopt_def direction_ok_def split: if_splits\<close>)
  next
    case RAwaitReply
    have c: "registry_ok (set_peer p (\<lambda>x. x\<lparr>pPub := k x, pRecv := RAdoptOut m\<rparr>) n)" if "\<not> pHasPub x" for m k
      using assms(3) x that RAwaitReply by (intro registry_set_key) (auto simp: pre_adopt_def)
    show ?thesis using assms(1,3) x RAwaitReply
      by (auto simp: receiveFromPeer_def on_defs gotos outbound_reply_def outbound_self_def joined_def pre_adopt_def split: if_splits event.splits intro!: c registry_set_peer)
  next
    case (RAdoptOut m)
    then show ?thesis using registry_adopting [OF assms(1,3) x dir] by blast
  next
    case RAwaitFirst
    then show ?thesis using registry_await_first [OF assms(1,3) x _ dir] by blast
  next
    case (RAdoptIn m)
    then show ?thesis using registry_adopting [OF assms(1,3) x dir] by blast
  next
    case (RIngest who m)
    then show ?thesis using assms(1,3) x registry_ingest [OF _ assms(3) x _ dir]
      by (auto simp: receiveFromPeer_def split: if_splits)
  next
    case (RForward who m err)
    let ?fwd = "forwardToPeers \<lparr>Header = mRawHdr m, Payload = mPayload m\<rparr> n"
    obtain y where y: "peers ?fwd p = Some y" "pRecv y = pRecv x" "direction_ok y"
      using x dir by (auto simp: forwardToPeers_at)
    have "registry_ok (ingest_forward p who m err n)"
      unfolding ingest_forward_def using assms(3) RForward y
      by (intro registry_ingest_return [OF _ y(1)]) auto
    then show ?thesis using RForward assms x
      by (auto simp: receiveFromPeer_def on_defs split: if_splits)
  next
    case RLoop
    then show ?thesis using assms x
      by (auto simp: receiveFromPeer_def on_defs gotos joined_def pre_adopt_def split: if_splits intro!: registry_set_peer)
  next
    case RRead
    then show ?thesis using assms x
      by (auto simp: receiveFromPeer_def on_defs gotos relay_message_def joined_def pre_adopt_def split: if_splits event.splits intro!: registry_set_peer)
  next
    case (RForwardHandlers m)
    then show ?thesis using assms x
      by (auto simp: receiveFromPeer_def on_defs gotos relay_to_handlers_def forwardToHandlers_def forward_handlers_eq joined_def pre_adopt_def split: if_splits prod.splits intro!: registry_set_peer)
  next
    case RClosing
    then have "n' = set_peer p (\<lambda>x. x\<lparr>pRecv := RDone\<rparr>) (closePeer p n)"
      using assms(1) x by (auto simp: receiveFromPeer_def on_defs gotos split: if_splits)
    then show ?thesis
      using registry_closePeer [OF assms(3,2) x] by (simp add: pre_adopt_def)
  next
    case RDone
    then show ?thesis using assms x by (simp add: receiveFromPeer_def)
  qed
qed

lemma registry_send:
  assumes "sendToPeer ev p n = Some n'" and "peers_ok n" "registry_ok n"
  shows "registry_ok n'"
proof -
  obtain x where x: "peers n p = Some x" using assms(1) by (auto simp: sendToPeer_def split: option.splits)
  note ok = peers_ok_peer [OF assms(2) x]
  have move: "registry_ok (set_peer p (\<lambda>x. x\<lparr>pSender := s\<rparr>) n)"
    "registry_ok (set_peer p (\<lambda>x. x\<lparr>pSend := q, pSender := s\<rparr>) n)" for s q
    using assms(3) by (auto intro!: registry_set_peer)
  have wr: "registry_ok n'"
    if "on_write ev (pConn x) b n (set_peer p (\<lambda>x. x\<lparr>pSender := s\<rparr>)) (set_peer p (\<lambda>x. x\<lparr>pSender := t\<rparr>)) = Some n'" for b s t
    using that assms(3) by (rule registry_write) auto
  show ?thesis
  proof (cases "pSender x = SClosing")
    case True
    then have n': "n' = set_peer p (\<lambda>x. x\<lparr>pSender := SDone\<rparr>) (closePeer p n)"
      using assms(1) x by (auto simp: sendToPeer_def on_defs sender_goto_def split: if_splits)
    have "\<not> pre_adopt x" using True ok by (auto simp: peer_ok_def pre_adopt_def established_def split: recv_pc.splits)
    then show ?thesis
      unfolding n' using assms(2,3) x by (intro registry_closePeer) auto
  next
    case False
    then show ?thesis using assms(1) x
      by (auto simp: sendToPeer_def sender_goto_def on_tau_def intro!: move wr
        split: send_pc.splits event.splits list.splits if_splits)
  qed
qed


end
