(* ===== verification/NetTracked.thy ===== *)
theory NetTracked
  imports NetInv
begin

text \<open>
  The second half of the invariant: the tracked connections and handlers, fresh numbers,
  bounded queues, shutdown; and that every step of every goroutine of the service keeps
  the whole invariant.
\<close>

section \<open>Tracked connections\<close>

definition tracked_ok :: "'s net \<Rightarrow> bool" where
  "tracked_ok n \<longleftrightarrow>
     distinct (connections n) \<and> distinct (handlers n) \<and>
     (\<forall>c \<in> set (connections n) \<union> set (handlers n) \<union> dom (peers n). c < nextId n) \<and>
     (\<forall>p \<in> dom (peers n). p \<notin> closed n \<longrightarrow> p \<in> set (connections n)) \<and>
     (\<forall>h x. hands n h = Some x \<longrightarrow> hConn x = h \<and> h < nextId n \<and>
        (h \<notin> closed n \<longrightarrow> h \<in> set (connections n) \<and> h \<in> set (handlers n))) \<and>
     (\<forall>c. nextId n \<le> c \<longrightarrow> wire n c = []) \<and>
     (stopped n \<longrightarrow> stopping n \<and> set (connections n) \<subseteq> closed n)"

definition queues_ok :: "'s net \<Rightarrow> bool" where
  "queues_ok n \<longleftrightarrow> length (newPeers n) \<le> 10 \<and> length (announceChanges n) \<le> 10 \<and>
     (\<forall>np\<in>set (newPeers n). length (niPubKey np) = 32) \<and>
     (case findPc n of
        FGot np b \<Rightarrow> length (niPubKey np) = 32 | FLock np b \<Rightarrow> length (niPubKey np) = 32
      | FDial np b \<Rightarrow> length (niPubKey np) = 32 | _ \<Rightarrow> True)"

definition net_ok :: "'s net \<Rightarrow> bool" where
  "net_ok n \<longleftrightarrow> peers_ok n \<and> registry_ok n \<and> tracked_ok n \<and> queues_ok n"

lemma net_ok_peer: "net_ok n \<Longrightarrow> peers n p = Some x \<Longrightarrow> peer_ok (nodeKey n) p (wire n p) x"
  by (simp add: net_ok_def peers_ok_def)

text \<open>What the service relies on of the type of \<open>NodeInfo.PubKey\<close>, an array of 32 bytes.\<close>

definition store_typed :: "'s store \<Rightarrow> bool" where
  "store_typed S \<longleftrightarrow>
     (\<forall>s np s'. st_ChooseNetNode S s = Some ((np, None), s') \<longrightarrow> length (niPubKey np) = 32)"

lemma tracked_simps [simp]:
  "tracked_ok (set_peer p f n) = tracked_ok n"
  "tracked_ok (forwardToPeers msg n) = tracked_ok n"
  "tracked_ok (n\<lparr>stState := s\<rparr>) = tracked_ok n" "tracked_ok (n\<lparr>connectedPeers := cp\<rparr>) = tracked_ok n"
  "tracked_ok (n\<lparr>lockedPeers := l\<rparr>) = tracked_ok n" "tracked_ok (n\<lparr>newPeers := np\<rparr>) = tracked_ok n"
  "tracked_ok (n\<lparr>announceChanges := q\<rparr>) = tracked_ok n" "tracked_ok (n\<lparr>encAnnounce := e\<rparr>) = tracked_ok n"
  "tracked_ok (n\<lparr>clock := t\<rparr>) = tracked_ok n" "tracked_ok (n\<lparr>crashed := cr\<rparr>) = tracked_ok n"
  "tracked_ok (n\<lparr>accepting := ac\<rparr>) = tracked_ok n" "tracked_ok (n\<lparr>listeners := li\<rparr>) = tracked_ok n"
  "tracked_ok (n\<lparr>socket := so\<rparr>) = tracked_ok n" "tracked_ok (n\<lparr>findPc := fp\<rparr>) = tracked_ok n"
  "tracked_ok (n\<lparr>gossipPc := gp\<rparr>) = tracked_ok n" "tracked_ok (n\<lparr>seedPc := sd\<rparr>) = tracked_ok n"
  "tracked_ok (n\<lparr>acceptPc := apc\<rparr>) = tracked_ok n"
  "tracked_ok (n\<lparr>hands := \<lambda>h. if P h then map_option (\<lambda>x. x\<lparr>hSender := sp\<rparr>) (hands n h) else hands n h\<rparr>) = tracked_ok n"
  by (auto simp: tracked_ok_def set_peer_def forwardToPeers_eq dom_def split: if_splits)

lemma tracked_set_hand:
  assumes "\<And>x. hConn (f x) = hConn x" "tracked_ok n"
  shows "tracked_ok (set_hand h f n)"
proof -
  have "\<exists>x. hands n g = Some x \<and> hConn y = hConn x" if "hands (set_hand h f n) g = Some y" for g y
    using that assms(1) by (auto split: if_splits)
  then show ?thesis
    using assms(2) unfolding tracked_ok_def set_hand_frame by fastforce
qed

lemma tracked_write [simp]: "tracked_ok n \<Longrightarrow> c < nextId n \<Longrightarrow> tracked_ok (conn_write c b n)"
  by (auto simp: tracked_ok_def conn_write_def)

lemma tracked_close [simp]: "tracked_ok n \<Longrightarrow> tracked_ok (close_conn c n)"
  by (auto simp: tracked_ok_def close_conn_def)

lemma tracked_closePeer:
  assumes "tracked_ok n" "peers n p = Some x" "pConn x = p"
  shows "tracked_ok (closePeer p n)"
proof -
  have c: "connections (closePeer p n) = remove_unordered p (connections n)"
    "closed (closePeer p n) = insert p (closed n)" "handlers (closePeer p n) = handlers n"
    using assms(2,3) by (auto simp: closePeer_def Let_def close_conn_def)
  show ?thesis
    using assms(1) unfolding tracked_ok_def by (auto simp: c)
qed

lemma tracked_closeHandler:
  assumes "tracked_ok n" "hands n h = Some x"
  shows "tracked_ok (closeHandler h n)"
proof -
  have "hConn x = h" using assms by (simp add: tracked_ok_def)
  then have c: "connections (closeHandler h n) = remove_unordered h (connections n)"
    "closed (closeHandler h n) = insert h (closed n)" "handlers (closeHandler h n) = remove_unordered h (handlers n)"
    using assms(2) by (auto simp: closeHandler_def Let_def close_conn_def)
  show ?thesis
    using assms(1) unfolding tracked_ok_def by (auto simp: c)
qed

lemma tracked_adopt: "tracked_ok n \<Longrightarrow> adoptPeer p k n = (b, n1) \<Longrightarrow> tracked_ok n1"
  by (auto simp: adoptPeer_def split: if_splits)

lemma queues_adopt: "queues_ok n \<Longrightarrow> adoptPeer p k n = (b, n1) \<Longrightarrow> queues_ok n1"
  by (auto simp: adoptPeer_def queues_ok_def split: if_splits)

lemma queues_frame [simp]:
  "queues_ok (set_peer p f n) = queues_ok n" "queues_ok (set_hand h g n) = queues_ok n"
  "queues_ok (forwardToPeers msg n) = queues_ok n" "queues_ok (closePeer p n) = queues_ok n"
  "queues_ok (closeHandler h n) = queues_ok n" "queues_ok (conn_write c w n) = queues_ok n"
  "queues_ok (close_conn c n) = queues_ok n"
  "queues_ok (n\<lparr>stState := s\<rparr>) = queues_ok n" "queues_ok (n\<lparr>hands := hs\<rparr>) = queues_ok n"
  by (simp_all add: queues_ok_def)

lemma tracked_receive:
  assumes "receiveFromPeer G S ev p n = Some n'" and "peers_ok n" "tracked_ok n" "queues_ok n"
  shows "tracked_ok n' \<and> queues_ok n'"
proof -
  obtain x where x: "peers n p = Some x" using assms(1) by (auto simp: receiveFromPeer_def split: option.splits)
  then have c: "pConn x = p" "p < nextId n" using assms(2) by (auto simp: peers_ok_def peer_ok_def)
  show ?thesis
    using assms x c
    by (auto simp: receiveFromPeer_def on_defs gotos sendMyAddress_poll_def sendMyAddress_done_def outbound_reply_def outbound_self_def
     outbound_adopt_def inbound_first_def inbound_adopt_def relay_message_def relay_to_handlers_def ingest_store_def ingest_forward_def ingest_return_def
      forwardToHandlers_def forward_handlers_eq Let_def tracked_closePeer dest: tracked_adopt queues_adopt
      split: recv_pc.splits event.splits if_splits option.splits prod.splits sum.splits bool.splits caller.splits)
qed

lemma tracked_send:
  assumes "sendToPeer ev p n = Some n'" and "peers_ok n" "tracked_ok n" "queues_ok n"
  shows "tracked_ok n' \<and> queues_ok n'"
proof -
  obtain x where x: "peers n p = Some x" using assms(1) by (auto simp: sendToPeer_def split: option.splits)
  then have c: "pConn x = p" "p < nextId n" using assms(2) by (auto simp: peers_ok_def peer_ok_def)
  show ?thesis
    using assms x c
    by (auto simp: sendToPeer_def on_defs sender_goto_def tracked_closePeer 
      split: send_pc.splits event.splits if_splits list.splits)
qed

lemma net_ok_receive: "receiveFromPeer G S ev p n = Some n' \<Longrightarrow> net_ok n \<Longrightarrow> net_ok n'"
  using peers_ok_receive registry_receive tracked_receive unfolding net_ok_def by blast

lemma net_ok_send: "sendToPeer ev p n = Some n' \<Longrightarrow> net_ok n \<Longrightarrow> net_ok n'"
  using peers_ok_send registry_send tracked_send unfolding net_ok_def by blast

section \<open>Handlers\<close>

lemma peers_ok_set_hand [simp]: "peers_ok n \<Longrightarrow> peers_ok (set_hand h f n)"
  by (auto simp: peers_ok_def set_hand_def)

lemma registry_set_hand [simp]: "registry_ok (set_hand h f n) = registry_ok n"
  by (simp add: set_hand_def)

lemma peers_ok_hand_write: "peers_ok n \<Longrightarrow> hands n h = Some x \<Longrightarrow> peers_ok (conn_write h b n)"
  by (auto simp: peers_ok_def conn_write_def)

lemma registry_closeHandler [simp]: "registry_ok n \<Longrightarrow> registry_ok (closeHandler h n)"
  by (auto simp: closeHandler_def Let_def split: option.splits)

lemma peers_ok_closeHandler [simp]: "peers_ok (closeHandler h n) = peers_ok n"
  by (auto simp: closeHandler_def Let_def split: option.splits)

lemma net_ok_set_hand: "net_ok n \<Longrightarrow> (\<And>x. hConn (f x) = hConn x) \<Longrightarrow> net_ok (set_hand h f n)"
  by (simp add: net_ok_def tracked_set_hand)

lemma tracked_handD: "tracked_ok n \<Longrightarrow> hands n h = Some x \<Longrightarrow> hConn x = h \<and> h < nextId n"
  by (simp add: tracked_ok_def)

lemma net_ok_hand_write:
  "net_ok n \<Longrightarrow> hands n h = Some x \<Longrightarrow> hConn x = h \<and> net_ok (conn_write h b n)"
  using tracked_handD [of n h x] by (auto simp: net_ok_def peers_ok_hand_write)

lemma net_ok_closeHandler: "net_ok n \<Longrightarrow> hands n h = Some x \<Longrightarrow> net_ok (closeHandler h n)"
  by (auto simp: net_ok_def tracked_closeHandler)

lemma net_ok_forward: "net_ok n \<Longrightarrow> net_ok (forwardToPeers msg n)"
  by (simp add: net_ok_def)

lemma net_ok_stState: "net_ok n \<Longrightarrow> net_ok (n\<lparr>stState := s\<rparr>)"
  by (simp add: net_ok_def)

lemma net_ok_send_change: "send_change c n = Some n' \<Longrightarrow> net_ok n \<Longrightarrow> net_ok n'"
  by (auto simp: send_change_def chan_send_def net_ok_def queues_ok_def split: if_splits)

lemmas net_ok_hand = net_ok_set_hand net_ok_closeHandler net_ok_forward net_ok_stState

lemma net_ok_receiveHandler:
  assumes "receiveFromHandler G S ev h n = Some n'" "net_ok n"
  shows "net_ok n'"
proof -
  obtain x where x: "hands n h = Some x" using assms(1) by (auto simp: receiveFromHandler_def split: option.splits)
  note w = net_ok_hand_write [OF assms(2) x]
  show ?thesis using assms x w
    by (auto simp: receiveFromHandler_def on_defs hgoto_def hsender_goto_def handler_bound_def handler_add_channel_def Let_def
      intro!: net_ok_hand dest: net_ok_send_change
      split: hand_pc.splits event.splits if_splits option.splits sum.splits prod.splits)
qed

lemma net_ok_sendHandler:
  assumes "sendToHandler ev h n = Some n'" "net_ok n"
  shows "net_ok n'"
proof -
  obtain x where x: "hands n h = Some x" using assms(1) by (auto simp: sendToHandler_def split: option.splits)
  note w = net_ok_hand_write [OF assms(2) x]
  show ?thesis using assms x w
    by (auto simp: sendToHandler_def on_defs hsender_goto_def 
      intro!: net_ok_hand
      split: send_pc.splits event.splits if_splits)
qed

section \<open>The service's own goroutines\<close>

lemma net_ok_next: "net_ok n \<Longrightarrow> net_ok (n\<lparr>nextId := Suc (nextId n)\<rparr>)"
  by (auto simp: net_ok_def peers_ok_def registry_ok_def tracked_ok_def queues_ok_def less_Suc_eq)

lemma tracked_connection:
  "tracked_ok n \<Longrightarrow> \<not> stopped n \<Longrightarrow>
   tracked_ok (n\<lparr>nextId := Suc (nextId n), connections := connections n @ [nextId n]\<rparr>)"
  by (auto simp: tracked_ok_def less_Suc_eq)

lemma net_ok_connection:
  "net_ok n \<Longrightarrow> \<not> stopping n \<Longrightarrow>
   net_ok (n\<lparr>nextId := Suc (nextId n), connections := connections n @ [nextId n]\<rparr>)"
  using tracked_connection [of n]
  by (auto simp: net_ok_def peers_ok_def registry_ok_def queues_ok_def tracked_ok_def less_Suc_eq)

lemma net_ok_close_conn: "net_ok n \<Longrightarrow> net_ok (close_conn c n)"
  by (simp add: net_ok_def)

text \<open>A new peer structure, registered at once when its key is known.\<close>

lemma net_ok_new_peer:
  assumes "net_ok n" "c \<in> set (connections n)" "c < nextId n" "peers n c = None" "hands n c = None"
    and x: "peer_ok (nodeKey n) c (wire n c) x"
    and cp: "if joined x then map_of (connectedPeers n) (pPub x) = None \<and> \<not> pre_adopt x \<and>
               cp = AList.update (pPub x) c (connectedPeers n) else cp = connectedPeers n"
  shows "net_ok (n\<lparr>connectedPeers := cp, peers := (peers n)(c \<mapsto> x)\<rparr>)"
proof -
  let ?n = "n\<lparr>connectedPeers := cp, peers := (peers n)(c \<mapsto> x)\<rparr>"
  have no: "map_of (connectedPeers n) k \<noteq> Some c" for k
    using assms(1,4) registry_okD(2) [of n k c] by (auto simp: net_ok_def)
  have reg: "registry_ok n" using assms(1) by (simp add: net_ok_def)
  have "registry_ok ?n"
  proof (rule registry_okI)
    show "distinct (map fst (connectedPeers ?n))"
      using cp registry_okD(1) [OF reg] by (auto simp: distinct_update split: if_splits)
    show "\<exists>y. peers ?n q = Some y \<and> pPub y = k \<and> \<not> pre_adopt y"
      if "map_of (connectedPeers ?n) k = Some q" for k q
    proof (cases "q = c")
      case True
      then show ?thesis using that cp no [of k] by (auto split: if_splits)
    next
      case False
      then have "map_of (connectedPeers n) k = Some q"
        using that cp by (auto split: if_splits)
      then show ?thesis using registry_okD(2) [OF reg] False by auto
    qed
    show "map_of (connectedPeers ?n) (pPub y) = Some q"
      if "peers ?n q = Some y" "joined y" "q \<notin> closed ?n" for q y
    proof (cases "q = c")
      case True
      then show ?thesis using that cp by (auto split: if_splits)
    next
      case False
      then have "map_of (connectedPeers n) (pPub y) = Some q"
        using that registry_okD(3) [OF reg, of q y] by simp
      then show ?thesis using cp by (cases "joined x"; cases "pPub y = pPub x") auto
    qed
  qed
  moreover have "peers_ok ?n" using assms(1,3,5) x by (auto simp: net_ok_def peers_ok_def)
  moreover have "tracked_ok ?n" using assms(1-3) by (auto simp: net_ok_def tracked_ok_def)
  moreover have "queues_ok ?n" using assms(1) by (simp add: net_ok_def queues_ok_def)
  ultimately show ?thesis by (simp add: net_ok_def)
qed

lemma fresh_id:
  assumes "net_ok n"
  shows "peers n (nextId n) = None" "hands n (nextId n) = None" "wire n (nextId n) = []"
proof -
  show "peers n (nextId n) = None"
    using assms by (cases "peers n (nextId n)") (auto simp: net_ok_def peers_ok_def)
  show "hands n (nextId n) = None"
    using assms by (cases "hands n (nextId n)") (auto simp: net_ok_def tracked_ok_def)
  show "wire n (nextId n) = []"
    using assms by (simp add: net_ok_def tracked_ok_def)
qed

lemma newPeer_ok:
  assumes "length pub = 32" "hasPub \<longrightarrow> outbound"
  shows "peer_ok (nodeKey n) c [] (newPeer c addr pub outbound hasPub n)"
  using assms by (auto simp: peer_ok_def newPeer_def peer_defs)

lemma newPeer_joined:
  "hasPub \<longrightarrow> outbound \<Longrightarrow> joined (newPeer c addr pub outbound hasPub n) \<longleftrightarrow> hasPub \<and> pub \<noteq> NoPubKey"
  "hasPub \<Longrightarrow> \<not> pre_adopt (newPeer c addr pub outbound hasPub n)"
  "pPub (newPeer c addr pub outbound hasPub n) = pub"
  by (auto simp: newPeer_def joined_def pre_adopt_def)

lemma net_ok_open_peer:
  assumes "open_peer addr pub outbound hasPub n = (b, n')" "net_ok n" "length pub = 32"
    and "hasPub \<longrightarrow> outbound" "pub \<noteq> NoPubKey \<longrightarrow> hasPub"
  shows "net_ok n'"
proof (cases "stopping n")
  case True
  then show ?thesis
    using assms(1,2) by (auto simp: open_peer_def trackPeer_def Let_def intro!: net_ok_close_conn net_ok_next)
next
  case False
  let ?c = "nextId n"
  let ?x = "newPeer ?c addr pub outbound hasPub n"
  let ?n = "n\<lparr>nextId := Suc ?c, connections := connections n @ [?c]\<rparr>"
  have n: "net_ok ?n" using assms(2) False by (rule net_ok_connection)
  have new: "net_ok (?n\<lparr>connectedPeers := cp, peers := (peers ?n)(?c \<mapsto> ?x)\<rparr>)"
    if "if joined ?x then map_of (connectedPeers ?n) (pPub ?x) = None \<and> \<not> pre_adopt ?x \<and>
               cp = AList.update (pPub ?x) ?c (connectedPeers ?n) else cp = connectedPeers ?n" for cp
    using that newPeer_ok [OF assms(3,4)] fresh_id [OF assms(2)] by (intro net_ok_new_peer [OF n]) auto
  consider "pub = NoPubKey" | "pub \<noteq> NoPubKey" "map_of (connectedPeers n) pub \<noteq> None"
    | "pub \<noteq> NoPubKey" "map_of (connectedPeers n) pub = None" by blast
  then show ?thesis
  proof cases
    case 1
    then show ?thesis
      using new [of "connectedPeers n"] assms(1,4) False
      by (auto simp: open_peer_def trackPeer_def Let_def newPeer_joined)
  next
    case 2
    then show ?thesis
      using n assms(1) False by (auto simp: open_peer_def trackPeer_def Let_def intro!: net_ok_close_conn)
  next
    case 3
    then show ?thesis
      using new [of "AList.update pub ?c (connectedPeers n)"] assms(1,4,5) False
      by (auto simp: open_peer_def trackPeer_def Let_def newPeer_joined)
  qed
qed

lemma net_ok_frame [simp]:
  "net_ok (n\<lparr>accepting := ac\<rparr>) = net_ok n" "net_ok (n\<lparr>listeners := li\<rparr>) = net_ok n"
  "net_ok (n\<lparr>socket := so\<rparr>) = net_ok n" "net_ok (n\<lparr>acceptPc := apc\<rparr>) = net_ok n"
  "net_ok (n\<lparr>gossipPc := gp\<rparr>) = net_ok n" "net_ok (n\<lparr>seedPc := sd\<rparr>) = net_ok n"
  "net_ok (n\<lparr>crashed := cr\<rparr>) = net_ok n" "net_ok (n\<lparr>clock := t\<rparr>) = net_ok n"
  "net_ok (n\<lparr>encAnnounce := e\<rparr>) = net_ok n" "net_ok (n\<lparr>lockedPeers := l\<rparr>) = net_ok n"
  "net_ok (n\<lparr>stState := s\<rparr>) = net_ok n"
  by (simp_all add: net_ok_def queues_ok_def)

lemma net_ok_stopping: "net_ok n \<Longrightarrow> stopping n \<longrightarrow> b \<Longrightarrow> net_ok (n\<lparr>stopping := b\<rparr>)"
  by (auto simp: net_ok_def queues_ok_def tracked_ok_def)

lemma net_ok_findPc:
  "net_ok n \<Longrightarrow> (case pc of FGot np b \<Rightarrow> length (niPubKey np) = 32 | FLock np b \<Rightarrow> length (niPubKey np) = 32
      | FDial np b \<Rightarrow> length (niPubKey np) = 32 | _ \<Rightarrow> True) \<Longrightarrow> net_ok (n\<lparr>findPc := pc\<rparr>)"
  by (simp add: net_ok_def queues_ok_def)

lemma net_ok_startListeners: "net_ok n \<Longrightarrow> net_ok (startListeners rs n)"
proof (induction rs n rule: startListeners.induct)
  case (3 cancelled rs n)
  have n: "net_ok (n\<lparr>nextId := Suc (nextId n), stopping := stopping n \<or> cancelled\<rparr>)"
    using 3(2) net_ok_next [of n] by (intro net_ok_stopping) auto
  then show ?case using 3(1) by (auto simp: Let_def intro!: net_ok_close_conn)
qed simp_all

lemma net_ok_acceptIncoming: "acceptIncoming G ev l n = Some n' \<Longrightarrow> net_ok n \<Longrightarrow> net_ok n'"
  by (auto simp: acceptIncoming_def accept_ends_def NoPubKey_def intro!: net_ok_close_conn
      dest!: net_ok_open_peer split: if_splits task_event.splits prod.splits bool.splits)

lemma net_ok_trackHandler:
  assumes "net_ok n" "\<not> stopping n"
  shows "net_ok (n\<lparr>nextId := Suc (nextId n), connections := connections n @ [nextId n],
      handlers := handlers n @ [nextId n], hands := (hands n)(nextId n \<mapsto> newHandler (nextId n))\<rparr>)"
proof -
  have "stopped n = False" "\<And>p x. peers n p = Some x \<Longrightarrow> p < nextId n"
    using assms by (auto simp: net_ok_def tracked_ok_def)
  then show ?thesis
  using assms by (auto simp: net_ok_def peers_ok_def registry_ok_def queues_ok_def tracked_ok_def less_Suc_eq newHandler_def)
qed

lemma net_ok_acceptHandlers: "acceptHandlers ev n = Some n' \<Longrightarrow> net_ok n \<Longrightarrow> net_ok n'"
  using net_ok_trackHandler [of n] net_ok_next [of n] net_ok_next [of "n\<lparr>socket := Some (nextId n)\<rparr>"]
  by (auto simp: acceptHandlers_def trackHandler_def Let_def intro!: net_ok_close_conn
      split: if_splits task_event.splits prod.splits bool.splits accept_pc.splits)

lemma net_ok_gossip: "gossipRandomAddresses G S ev n = Some n' \<Longrightarrow> net_ok n \<Longrightarrow> net_ok n'"
  by (auto simp: gossipRandomAddresses_def intro!: net_ok_forward
      split: if_splits gossip_pc.splits task_event.splits option.splits prod.splits)

lemma net_ok_seed: "seedFromDNS G ev n = Some n' \<Longrightarrow> net_ok n \<Longrightarrow> net_ok n'"
  by (auto simp: seedFromDNS_def NoPubKey_def dest!: net_ok_open_peer
      split: if_splits seed_pc.splits task_event.splits prod.splits bool.splits)

lemma lockPeer_eq: "lockPeer k n = (b, n1) \<Longrightarrow> \<exists>l. n1 = n\<lparr>lockedPeers := l\<rparr>"
  by (auto simp: lockPeer_def Let_def split: option.splits if_splits) (metis net.surjective net.update_convs(10))

lemma store_typedD:
  "store_typed S \<Longrightarrow> st_ChooseNetNode S s = Some ((np, None), s') \<Longrightarrow> length (niPubKey np) = 32"
  by (auto simp: store_typed_def)

lemma net_ok_find:
  assumes "findPeers G S ev n = Some n'" "net_ok n" "store_typed S"
  shows "net_ok n'"
proof -
  have q: "queues_ok n" using assms(2) by (simp add: net_ok_def)
  have z: "length (niPubKey zero_nodeInfo) = 32" by (simp add: zero_nodeInfo_def)
  show ?thesis
  proof (cases "findPc n")
    case (FLock np b)
    obtain b1 n1 where l: "lockPeer (niPubKey np) n = (b1, n1)" by fastforce
    from lockPeer_eq [OF l] have "net_ok n1" using assms(2) by auto
    then show ?thesis
      using assms(1) FLock l q by (auto simp: findPeers_def queues_ok_def intro!: net_ok_findPc split: if_splits)
  next
    case (FDial np b)
    then have "length (niPubKey np) = 32" using q by (simp add: queues_ok_def)
    then show ?thesis
      using assms(1,2) FDial 
      by (auto simp: findPeers_def intro!: net_ok_findPc dest!: net_ok_open_peer split: task_event.splits prod.splits bool.splits)
  next
    case FPick
    then show ?thesis using assms(1,2) z q
      by (auto simp: findPeers_def choosePeer_def  net_ok_def queues_ok_def split: task_event.splits if_splits list.splits)
  next
    case FWait
    then show ?thesis using assms(1,2) q
      by (auto simp: findPeers_def choosePeer_def net_ok_def queues_ok_def split: task_event.splits if_splits list.splits)
  next
    case FPause
    then show ?thesis using assms
      by (auto simp: findPeers_def choosePeer_def net_ok_def queues_ok_def dest: store_typedD
          split: task_event.splits option.splits prod.splits if_splits)
  qed (use assms(1,2) q in \<open>auto simp: findPeers_def queues_ok_def intro!: net_ok_findPc split: if_splits\<close>)
qed

lemma net_ok_Stop: "net_ok n \<Longrightarrow> stopping n \<Longrightarrow> net_ok (Stop n)"
proof -
  assume n: "net_ok n" and s: "stopping n"
  have "registry_ok (Stop n)"
    using n by (auto simp: net_ok_def Stop_eq registry_ok_def)
  then show "net_ok (Stop n)" using n s
    by (auto simp: net_ok_def Stop_eq queues_ok_def tracked_ok_def)
qed

lemma net_ok_AddPeer: "AddPeer np n = Some n' \<Longrightarrow> net_ok n \<Longrightarrow> length (niPubKey np) = 32 \<Longrightarrow> net_ok n'"
  by (auto simp: AddPeer_def chan_send_def net_ok_def queues_ok_def split: if_splits)

lemma net_ok_setAnnounce: "net_ok n \<Longrightarrow> net_ok (ns_setAnnounce msg n)"
  by (simp add: ns_setAnnounce_def)

lemma net_ok_take_change: "net_ok n \<Longrightarrow> announceChanges n = c # q \<Longrightarrow> net_ok (n\<lparr>announceChanges := q\<rparr>)"
  by (auto simp: net_ok_def queues_ok_def)

lemma net_ok_New: "net_ok (NetService_New binds hb key local t s)"
  by (simp add: NetService_New_def net_ok_def peers_ok_def registry_ok_def tracked_ok_def queues_ok_def)

end
