(* ===== verification/NetSystem.thy ===== *)
theory NetSystem
  imports NetTracked
begin

text \<open>
  The net service as a whole: its goroutines, the other services that call it and share its
  store, the clock and the shutdown, interleaved in any order; the states it can reach; and
  the properties of the registry of peers, the handshake, the queues and the shutdown.
\<close>

section \<open>Steps\<close>

text \<open>
  \<open>others\<close> is what the other services may do to the store between two steps. The governor
  cancels the context before it calls \<open>Stop\<close>. \<open>TakeChange\<close> is the announce service
  reading its queue, \<open>SetAnnounce\<close> and \<open>Forward\<close> are the two critical sections of its call of
  \<open>ReceiveAnnounce\<close>, \<open>AddPeer\<close> the call of the web API.
  Nothing runs after the process has crashed.
\<close>

inductive net_step :: "gossip \<Rightarrow> 's store \<Rightarrow> ('s \<Rightarrow> 's \<Rightarrow> bool) \<Rightarrow> 's net \<Rightarrow> 's net \<Rightarrow> bool"
  for G S others where
  Receive: "\<not> crashed n \<Longrightarrow> receiveFromPeer G S ev p n = Some n' \<Longrightarrow> net_step G S others n n'"
| Send: "\<not> crashed n \<Longrightarrow> sendToPeer ev p n = Some n' \<Longrightarrow> net_step G S others n n'"
| ReceiveHandler: "\<not> crashed n \<Longrightarrow> receiveFromHandler G S ev h n = Some n' \<Longrightarrow> net_step G S others n n'"
| SendHandler: "\<not> crashed n \<Longrightarrow> sendToHandler ev h n = Some n' \<Longrightarrow> net_step G S others n n'"
| AcceptPeer: "\<not> crashed n \<Longrightarrow> acceptIncoming G tev l n = Some n' \<Longrightarrow> net_step G S others n n'"
| AcceptHandler: "\<not> crashed n \<Longrightarrow> acceptHandlers tev n = Some n' \<Longrightarrow> net_step G S others n n'"
| Find: "\<not> crashed n \<Longrightarrow> findPeers G S tev n = Some n' \<Longrightarrow> net_step G S others n n'"
| GossipAddress: "\<not> crashed n \<Longrightarrow> gossipRandomAddresses G S tev n = Some n' \<Longrightarrow> net_step G S others n n'"
| Seed: "\<not> crashed n \<Longrightarrow> seedFromDNS G tev n = Some n' \<Longrightarrow> net_step G S others n n'"
| AddPeer: "\<not> crashed n \<Longrightarrow> length (niPubKey np) = 32 \<Longrightarrow> AddPeer np n = Some n' \<Longrightarrow> net_step G S others n n'"
| SetAnnounce: "\<not> crashed n \<Longrightarrow> net_step G S others n (ns_setAnnounce msg n)"
| Forward: "\<not> crashed n \<Longrightarrow> net_step G S others n (forwardToPeers msg n)"
| TakeChange: "\<not> crashed n \<Longrightarrow> announceChanges n = c # q \<Longrightarrow> net_step G S others n (n\<lparr>announceChanges := q\<rparr>)"
| Others: "\<not> crashed n \<Longrightarrow> others (stState n) s \<Longrightarrow> net_step G S others n (n\<lparr>stState := s\<rparr>)"
| Time: "\<not> crashed n \<Longrightarrow> clock n \<le> t \<Longrightarrow> net_step G S others n (n\<lparr>clock := t\<rparr>)"
| Cancel: "\<not> crashed n \<Longrightarrow> net_step G S others n (n\<lparr>stopping := True\<rparr>)"
| Shutdown: "\<not> crashed n \<Longrightarrow> stopping n \<Longrightarrow> net_step G S others n (Stop n)"

inductive net_started :: "'s net \<Rightarrow> bool" where
  "net_started (NetService_Run answers (NetService_New binds handler key local now s))"

definition net_reachable :: "gossip \<Rightarrow> 's store \<Rightarrow> ('s \<Rightarrow> 's \<Rightarrow> bool) \<Rightarrow> 's net \<Rightarrow> bool" where
  "net_reachable G S others n \<longleftrightarrow> (\<exists>n0. net_started n0 \<and> (net_step G S others)\<^sup>*\<^sup>* n0 n)"

lemma net_ok_step: "net_step G S others n n' \<Longrightarrow> store_typed S \<Longrightarrow> net_ok n \<Longrightarrow> net_ok n'"
  by (induction rule: net_step.induct)
    (auto intro: net_ok_receive net_ok_send net_ok_receiveHandler net_ok_sendHandler
      net_ok_acceptIncoming net_ok_acceptHandlers net_ok_find net_ok_gossip net_ok_seed
      net_ok_AddPeer net_ok_setAnnounce net_ok_forward net_ok_take_change net_ok_stopping net_ok_Stop)

lemma net_ok_started: "net_started n \<Longrightarrow> net_ok n"
  by (induction rule: net_started.induct) (simp add: NetService_Run_def net_ok_startListeners net_ok_New)

lemma net_reachable_ok:
  assumes "net_reachable G S others n" "store_typed S"
  shows "net_ok n"
proof -
  obtain n0 where "net_started n0" "(net_step G S others)\<^sup>*\<^sup>* n0 n"
    using assms(1) by (auto simp: net_reachable_def)
  from this(2,1) show ?thesis
    by (induction rule: rtranclp_induct) (auto intro: net_ok_started net_ok_step assms(2))
qed

text \<open>An invariant of the reachable states; each may use \<open>net_ok\<close>.\<close>

lemma net_reachable_induct [consumes 2, case_names started step]:
  assumes "net_reachable G S others n" "store_typed S"
    and "\<And>n0. net_started n0 \<Longrightarrow> P n0"
    and "\<And>y z. net_step G S others y z \<Longrightarrow> net_ok y \<Longrightarrow> P y \<Longrightarrow> P z"
  shows "P n"
proof -
  obtain n0 where "net_started n0" "(net_step G S others)\<^sup>*\<^sup>* n0 n"
    using assms(1) by (auto simp: net_reachable_def)
  from this(2,1) show ?thesis
  proof (induction rule: rtranclp_induct)
    case (step y z)
    then show ?case using assms(2,4) net_reachable_ok [of G S others y] by (auto simp: net_reachable_def)
  qed (rule assms(3))
qed

lemma net_reachable_step:
  "net_reachable G S others n \<Longrightarrow> net_step G S others n n' \<Longrightarrow> net_reachable G S others n'"
  unfolding net_reachable_def by (meson rtranclp.rtrancl_into_rtrancl)

lemma net_step_ReceiveAnnounce:
  "\<not> crashed n \<Longrightarrow> (net_step G S others)\<^sup>*\<^sup>* n (ReceiveAnnounce msg n)"
  unfolding ReceiveAnnounce_def
  using net_step.SetAnnounce [of n G S others msg] net_step.Forward [of "ns_setAnnounce msg n" G S others msg]
  by (simp add: ns_setAnnounce_def)

lemma startListeners_frame [simp]:
  "findPc (startListeners rs n) = findPc n" "acceptPc (startListeners rs n) = acceptPc n"
  "socket (startListeners rs n) = socket n" "crashed (startListeners rs n) = crashed n"
  "nodeKey (startListeners rs n) = nodeKey n" "encAnnounce (startListeners rs n) = encAnnounce n"
  "lockedPeers (startListeners rs n) = lockedPeers n" "stState (startListeners rs n) = stState n"
  by (induction rs n rule: startListeners.induct) (simp_all add: Let_def)

section \<open>The registry of peers\<close>

lemma established_joined:
  "established x \<Longrightarrow> pPub x \<noteq> NoPubKey \<Longrightarrow> joined x"
  by (auto simp: established_def joined_def pre_adopt_def split: recv_pc.splits)

lemma net_ok_registered:
  assumes "net_ok n" "peers n p = Some x" "established x" "p \<notin> closed n" "pPub x \<noteq> NoPubKey"
  shows "map_of (connectedPeers n) (pPub x) = Some p"
  using assms established_joined [of x] registry_okD(3) [of n p x] by (simp add: net_ok_def)


lemma remove_unordered_absent: "p \<notin> set cs \<Longrightarrow> remove_unordered p cs = cs"
  using find_index_None [of "(=) p" cs] by (auto simp: remove_unordered_def)

lemma closePeer_eq:
  "peers n p = Some x \<Longrightarrow> closePeer p n = n\<lparr>closed := insert (pConn x) (closed n),
     connectedPeers := (if map_of (connectedPeers n) (pPub x) = Some p
        then AList.delete (pPub x) (connectedPeers n) else connectedPeers n),
     connections := remove_unordered (pConn x) (connections n)\<rparr>"
  by (simp add: closePeer_def Let_def close_conn_def)

lemma closePeer_noop:
  "peers n p = Some x \<Longrightarrow> pConn x \<in> closed n \<Longrightarrow> pConn x \<notin> set (connections n) \<Longrightarrow>
   map_of (connectedPeers n) (pPub x) \<noteq> Some p \<Longrightarrow> closePeer p n = n"
  by (simp add: closePeer_eq remove_unordered_absent insert_absorb)

text \<open>
  C16: closing a connection releases only what belongs to it. In every reachable state
  \<open>closePeer\<close> closes the connection, stops tracking it, and removes the registration of this
  very connection: every key registered for another connection stays registered, also when
  it is the same key. Calling it again, as the second goroutine of the connection does,
  changes nothing.
\<close>

theorem closePeer_only_own:
  assumes "net_reachable G S others n" "store_typed S" "peers n p = Some x"
  shows "p \<in> closed (closePeer p n) \<and> p \<notin> set (connections (closePeer p n)) \<and>
    set (connections (closePeer p n)) = set (connections n) - {p} \<and>
    (\<forall>k. map_of (connectedPeers (closePeer p n)) k =
       (if map_of (connectedPeers n) k = Some p then None else map_of (connectedPeers n) k)) \<and>
    closePeer p (closePeer p n) = closePeer p n"
proof -
  have ok: "net_ok n" by (rule net_reachable_ok [OF assms(1,2)])
  then have reg: "registry_ok n" and d: "distinct (connections n)" and c: "pConn x = p"
    using assms(3) by (auto simp: net_ok_def tracked_ok_def peers_ok_def peer_ok_def)
  let ?n = "closePeer p n"
  have cs: "closed ?n = insert p (closed n)" "set (connections ?n) = set (connections n) - {p}"
    using closePeer_eq [OF assms(3)] c d by simp_all
  have look: "map_of (connectedPeers ?n) k =
      (if map_of (connectedPeers n) k = Some p then None else map_of (connectedPeers n) k)" for k
  proof (cases "map_of (connectedPeers n) k = Some p")
    case True
    then have "pPub x = k" using registry_entry [OF reg _ assms(3)] by simp
    then show ?thesis using True closePeer_eq [OF assms(3)] by simp
  next
    case False
    then show ?thesis using closePeer_eq [OF assms(3)] by auto
  qed
  have "closePeer p ?n = ?n"
    using assms(3) c cs look by (intro closePeer_noop) auto
  then show ?thesis using cs look by simp
qed

section \<open>Forwarding\<close>

text \<open>
  C15: what \<open>forwardToPeers\<close> delivers. In every reachable state each registered peer whose
  queue holds fewer than 100 messages gets the message once, after those it already has; a
  full queue is left as it is and the message is lost for that peer; the queue of every
  connection that is not registered is untouched, as is everything else; and no queue is
  ever longer than 100.
\<close>

theorem forwardToPeers_delivers:
  assumes "net_reachable G S others n" "store_typed S"
  shows "(\<forall>p x. peers n p = Some x \<longrightarrow> length (pSend x) \<le> 100 \<and>
      peers (forwardToPeers msg n) p = Some (x\<lparr>pSend :=
        (if p \<in> snd ` set (connectedPeers n) \<and> length (pSend x) < 100 then pSend x @ [msg] else pSend x)\<rparr>)) \<and>
    forwardToPeers msg n = n\<lparr>peers := peers (forwardToPeers msg n)\<rparr>"
proof (intro conjI allI impI)
  have ok: "net_ok n" by (rule net_reachable_ok [OF assms])
  then have reg: "registry_ok n" by (simp add: net_ok_def)
  have inj: "k = l" if "(k, p) \<in> set (connectedPeers n)" "(l, p) \<in> set (connectedPeers n)" for k l p
  proof -
    have "map_of (connectedPeers n) k = Some p" "map_of (connectedPeers n) l = Some p"
      using that registry_okD(1) [OF reg] by (auto intro: map_of_is_SomeI)
    then show ?thesis using registry_okD(2) [OF reg, of k p] registry_okD(2) [OF reg, of l p] by auto
  qed
  have "inj_on snd (set (connectedPeers n))" using inj by (auto simp: inj_on_def)
  moreover have "distinct (connectedPeers n)" using registry_okD(1) [OF reg] by (simp add: distinct_map)
  ultimately have d: "distinct (map snd (connectedPeers n))" by (simp add: distinct_map)
  fix p x assume x: "peers n p = Some x"
  show "length (pSend x) \<le> 100" using ok x by (auto simp: net_ok_def peers_ok_def peer_ok_def)
  show "peers (forwardToPeers msg n) p = Some (x\<lparr>pSend :=
        (if p \<in> snd ` set (connectedPeers n) \<and> length (pSend x) < 100 then pSend x @ [msg] else pSend x)\<rparr>)"
    using x by (auto simp: forwardToPeers_peers [OF d] try_send_peer_def chan_try_send_def)
qed (simp add: forwardToPeers_eq)

text \<open>
  C28: what \<open>forwardToHandlers\<close> delivers, in any state. The message is handed to exactly those
  tracked handlers that are bound to its channel and whose sender is waiting for one, the
  answer is whether there is any, and nothing else changes: a handler still busy writing
  the previous message misses this one.
\<close>

theorem forwardToHandlers_delivers:
  "(fst (forwardToHandlers channel hdr payload n) \<longleftrightarrow>
     (\<exists>h x. h \<in> set (handlers n) \<and> hands n h = Some x \<and> hChannel x = channel \<and> hSender x = SSelect)) \<and>
   (\<forall>h x. hands n h = Some x \<longrightarrow>
      hands (snd (forwardToHandlers channel hdr payload n)) h =
        Some (if h \<in> set (handlers n) \<and> hChannel x = channel \<and> hSender x = SSelect
              then x\<lparr>hSender := SHdr \<lparr>Header = hdr, Payload = payload\<rparr>\<rparr> else x)) \<and>
   snd (forwardToHandlers channel hdr payload n) =
     n\<lparr>hands := hands (snd (forwardToHandlers channel hdr payload n))\<rparr>"
proof -
  have f: "forwardToHandlers channel hdr payload n = (\<exists>h\<in>set (handlers n). accepts channel n h,
      n\<lparr>hands := \<lambda>h. if h \<in> set (handlers n) \<and> accepts channel n h
         then map_option (\<lambda>x. x\<lparr>hSender := SHdr \<lparr>Header = hdr, Payload = payload\<rparr>\<rparr>) (hands n h)
         else hands n h\<rparr>)"
    by (simp add: forwardToHandlers_def forward_handlers_eq)
  show ?thesis unfolding f by (auto simp: accepts_def split: option.splits)
qed

section \<open>Shutdown\<close>

text \<open>
  C11: shutdown closes everything. In every reachable state an open connection of a peer or a
  handler is tracked, each connection is tracked at most once, and once \<open>Stop\<close> has run
  every connection the service ever opened is closed, and stays closed.
\<close>

theorem Stop_closes_all:
  assumes "net_reachable G S others n" "store_typed S"
    and "peers n c \<noteq> None \<or> hands n c \<noteq> None"
  shows "distinct (connections n) \<and> (c \<notin> closed n \<longrightarrow> c \<in> set (connections n)) \<and>
    (stopped n \<longrightarrow> c \<in> closed n) \<and> c \<in> closed (Stop n)"
proof -
  have t: "tracked_ok n" using net_reachable_ok [OF assms(1,2)] by (simp add: net_ok_def)
  have opn: "c \<notin> closed n \<Longrightarrow> c \<in> set (connections n)"
    using t assms(3) unfolding tracked_ok_def by blast
  then show ?thesis using t unfolding tracked_ok_def Stop_eq by (cases "c \<in> closed n") auto
qed

end
