(* ===== verification/NetHandshake.thy ===== *)
theory NetHandshake
  imports NetSystem
begin

text \<open>
  The handshake of a peer connection: what is written on a connection and in which order,
  and that a valid inbound peer is accepted, registered and answered.
\<close>

section \<open>An inbound peer is accepted\<close>

lemma receive_steps:
  "(net_step G S others)\<^sup>*\<^sup>* n0 n \<Longrightarrow> \<not> crashed n \<Longrightarrow> receiveFromPeer G S ev p n = Some n' \<Longrightarrow>
   (net_step G S others)\<^sup>*\<^sup>* n0 n'"
  by (meson net_step.Receive rtranclp.rtrancl_into_rtrancl)

text \<open>The announcement of a peer is ingested, and the handshake goes on.\<close>

lemma inbound_ingested:
  assumes x: "peers n p = Some x" "pRecv x = RIngest InboundFirst m" "\<not> crashed n"
    and good: "ingest_checks G (clock n) (pAllowLocal x) m = Inr addr"
    and store: "st_AddNetNode S (mPubKey m) (peer_address addr) (Unix (DogeLocal G (amTime addr)))
      (amOwner addr) (amChannels addr) (mPayload m) (mSignature m) (stState n) = Some ((isnew, None), s)"
  shows "\<exists>n' y. (net_step G S others)\<^sup>*\<^sup>* n n' \<and> peers n' p = Some y \<and> pRecv y = RPoll zero_rawMessage \<and>
     pConn y = pConn x \<and> pOutbound y = pOutbound x \<and> pPub y = pPub x \<and> pAddr y = peer_address addr \<and>
     pSender y = pSender x \<and>
     connectedPeers n' = connectedPeers n \<and> stState n' = s \<and> closed n' = closed n \<and> wire n' = wire n \<and>
     encAnnounce n' = encAnnounce n \<and> \<not> crashed n' \<and> stopping n' = stopping n"
proof (cases isnew)
  case False
  let ?n1 = "goto p (RPoll zero_rawMessage) ((set_peer p (\<lambda>x. x\<lparr>pAddr := peer_address addr\<rparr>) n)\<lparr>stState := s\<rparr>)"
  have "receiveFromPeer G S Tau p n = Some ?n1"
    using x good store False by (simp add: receiveFromPeer_def ingest_store_def ingest_return_def Let_def)
  from receive_steps [OF rtranclp.rtrancl_refl x(3) this] show ?thesis
    using x by (intro exI [of _ ?n1]) (auto simp: goto_def)
next
  case True
  let ?n1 = "goto p (RForward InboundFirst m None) ((set_peer p (\<lambda>x. x\<lparr>pAddr := peer_address addr\<rparr>) n)\<lparr>stState := s\<rparr>)"
  let ?n2 = "goto p (RPoll zero_rawMessage) (forwardToPeers \<lparr>Header = mRawHdr m, Payload = mPayload m\<rparr> ?n1)"
  have 1: "receiveFromPeer G S Tau p n = Some ?n1"
    using x good store True by (simp add: receiveFromPeer_def ingest_store_def Let_def)
  have 2: "receiveFromPeer G S Tau p ?n1 = Some ?n2"
    using x by (simp add: receiveFromPeer_def ingest_forward_def ingest_return_def on_tau_def goto_def)
  have "\<not> crashed ?n1" using x(3) by (simp add: goto_def)
  from receive_steps [OF receive_steps [OF rtranclp.rtrancl_refl x(3) 1] this 2] show ?thesis
    using x by (intro exI [of _ ?n2]) (auto simp: goto_def forwardToPeers_at)
qed

text \<open>An announcement is available and both writes succeed.\<close>

lemma inbound_replies:
  assumes x: "peers n p = Some x" "pRecv x = RPoll m" "pConn x = p" "\<not> pOutbound x"
    and run: "\<not> crashed n" "\<not> stopping n" "p \<notin> closed n" and ann: "Header (encAnnounce n) \<noteq> []"
  shows "\<exists>n'. (net_step G S others)\<^sup>*\<^sup>* n n' \<and> peers n' p = Some (x\<lparr>pSender := STop, pRecv := RLoop\<rparr>) \<and>
     connectedPeers n' = connectedPeers n \<and> stState n' = stState n \<and> closed n' = closed n \<and>
     wire n' p = wire n p @ [Header (encAnnounce n), Payload (encAnnounce n)]"
proof -
  let ?a = "encAnnounce n"
  let ?n1 = "goto p (RWriteHdr ?a) n"
  let ?n2 = "goto p (RWritePay ?a) (conn_write p (Header ?a) ?n1)"
  let ?n3 = "goto p RLoop (sender_goto p STop (conn_write p (Payload ?a) ?n2))"
  have 1: "receiveFromPeer G S Tau p n = Some ?n1"
    using x run ann by (simp add: receiveFromPeer_def on_tau_def sendMyAddress_poll_def ns_GetAnnounce_def Let_def)
  have 2: "receiveFromPeer G S WriteOk p ?n1 = Some ?n2"
    using x run by (simp add: receiveFromPeer_def on_write_def goto_def)
  have 3: "receiveFromPeer G S WriteOk p ?n2 = Some ?n3"
    using x run by (simp add: receiveFromPeer_def on_write_def goto_def sendMyAddress_done_def)
  have "\<not> crashed ?n1" "\<not> crashed ?n2" using run by (simp_all add: goto_def)
  then have "(net_step G S others)\<^sup>*\<^sup>* n ?n3"
    using receive_steps [OF receive_steps [OF receive_steps [OF rtranclp.rtrancl_refl run(1) 1] _ 2] _ 3] by blast
  then show ?thesis
    using x by (intro exI [of _ ?n3]) (simp add: gotos conn_write_def)
qed

lemma inbound_completes:
  assumes ok: "net_ok n" and run: "\<not> crashed n" "\<not> stopping n"
    and x: "peers n p = Some x" "pRecv x = RAwaitFirst" "p \<notin> closed n"
    and ann: "Header (encAnnounce n) \<noteq> []"
    and m: "is_address G m" "length (mPubKey m) = 32" "mPubKey m \<noteq> Pub (nodeKey n)"
    and free: "map_of (connectedPeers n) (mPubKey m) = None"
    and good: "ingest_checks G (clock n) (pAllowLocal x) m = Inr addr"
    and store: "st_AddNetNode S (mPubKey m) (peer_address addr) (Unix (DogeLocal G (amTime addr)))
      (amOwner addr) (amChannels addr) (mPayload m) (mSignature m) (stState n) = Some ((isnew, None), s)"
  shows "\<exists>n' y. (net_step G S others)\<^sup>*\<^sup>* n n' \<and> peers n' p = Some y \<and> pRecv y = RLoop \<and> pSender y = STop \<and>
     pPub y = mPubKey m \<and> pAddr y = peer_address addr \<and>
     map_of (connectedPeers n') (mPubKey m) = Some p \<and>
     wire n' p = [Header (encAnnounce n), Payload (encAnnounce n)] \<and> stState n' = s \<and> closed n' = closed n"
proof -
  have pk: "peer_ok (nodeKey n) p (wire n p) x" using ok x(1) by (simp add: net_ok_def peers_ok_def)
  then have x': "pConn x = p" "pNodeKey x = nodeKey n" "\<not> pOutbound x" "length (pPub x) = 32" "wire n p = []"
    using x(2) by (auto simp: peer_ok_def direction_ok_def handshake_wire_def)
  define n1 where "n1 = set_peer p (\<lambda>x. x\<lparr>pPub := go_copy (pPub x) 0 32 (mPubKey m), pRecv := RAdoptIn m\<rparr>) n"
  define n2 where "n2 = set_peer p (\<lambda>x. x\<lparr>pRecv := RIngest InboundFirst m\<rparr>)
     (n1\<lparr>connectedPeers := AList.update (mPubKey m) p (connectedPeers n)\<rparr>)"
  have r1: "receiveFromPeer G S (ReadMsg m) p n = Some n1"
    using x x' m by (simp add: receiveFromPeer_def on_read_def inbound_first_def gotos n1_def Let_def)
  have p1: "peers n1 p = Some (x\<lparr>pPub := mPubKey m, pRecv := RAdoptIn m\<rparr>)"
    using x x' m by (simp add: n1_def)
  have r2: "receiveFromPeer G S Tau p n1 = Some n2"
    using p1 x' m free by (simp add: receiveFromPeer_def on_tau_def inbound_adopt_def adoptPeer_def goto_def n2_def) (simp add: n1_def)
  have p2: "peers n2 p = Some (x\<lparr>pPub := mPubKey m, pRecv := RIngest InboundFirst m\<rparr>)"
    using p1 by (simp add: n2_def)
  have f2: "connectedPeers n2 = AList.update (mPubKey m) p (connectedPeers n)" "stState n2 = stState n"
     "closed n2 = closed n" "wire n2 = wire n" "clock n2 = clock n" "encAnnounce n2 = encAnnounce n"
     "\<not> crashed n2" "\<not> stopping n2" "\<not> crashed n1"
    using run by (simp_all add: n2_def n1_def)
  obtain n3 y where n3: "(net_step G S others)\<^sup>*\<^sup>* n2 n3" "peers n3 p = Some y" "pRecv y = RPoll zero_rawMessage"
     "pConn y = p" "\<not> pOutbound y" "pPub y = mPubKey m" "pAddr y = peer_address addr"
     "connectedPeers n3 = connectedPeers n2" "stState n3 = s" "closed n3 = closed n2" "wire n3 = wire n2"
     "encAnnounce n3 = encAnnounce n2" "\<not> crashed n3" "stopping n3 = stopping n2"
    using inbound_ingested [OF p2 _ f2(7), of m G addr S isnew s others] good store x' by (auto simp: f2)
  obtain n4 where n4: "(net_step G S others)\<^sup>*\<^sup>* n3 n4" "peers n4 p = Some (y\<lparr>pSender := STop, pRecv := RLoop\<rparr>)"
     "connectedPeers n4 = connectedPeers n3" "stState n4 = stState n3" "closed n4 = closed n3"
     "wire n4 p = wire n3 p @ [Header (encAnnounce n3), Payload (encAnnounce n3)]"
    using inbound_replies [OF n3(2,3,4,5,13), of G S others] n3 f2 x ann by auto
  have "(net_step G S others)\<^sup>*\<^sup>* n n2"
    using receive_steps [OF receive_steps [OF rtranclp.rtrancl_refl run(1) r1] f2(9) r2] .
  then have "(net_step G S others)\<^sup>*\<^sup>* n n4" using n3(1) n4(1) by (meson rtranclp_trans)
  then show ?thesis
    using n4 n3 f2 x' by (intro exI [of _ n4]) auto
qed

end
