(* ===== verification/StoreIface.thy ===== *)
theory StoreIface
  imports DogeSpec
begin

text \<open>
  The contract of the \<open>Store\<close> interface (\<open>pkg/spec/store.go\<close>), as the other services rely
  on it. \<open>node_registry\<close> is what the net service uses, \<open>announce_store\<close> adds what the
  announce service uses. The SQLite store is shown to keep both contracts.
\<close>

text \<open>
  The abstract state: for every key the payload and signature of its stored announcement.
  A call that returns an error changes no announcement.
\<close>

definition stores :: "(bytes \<Rightarrow> (bytes \<times> bytes) option) \<Rightarrow> bytes \<Rightarrow> bytes \<Rightarrow> bool" where
  "stores m key payload \<longleftrightarrow> map_option fst (m key) = Some payload"

definition keys32 :: "(bytes \<Rightarrow> (bytes \<times> bytes) option) \<Rightarrow> bool" where
  "keys32 m \<longleftrightarrow> (\<forall>k. m k \<noteq> None \<longrightarrow> length k = 32)"

locale node_registry =
  fixes S :: "'s store"
    and valid :: "'s \<Rightarrow> bool"
    and nodes :: "'s \<Rightarrow> bytes \<Rightarrow> (bytes \<times> bytes) option"
  assumes AddNetNode_law:
    "valid s \<Longrightarrow> \<exists>changed err s'. st_AddNetNode S key addr time owner cs payload sig s = Some ((changed, err), s') \<and>
       valid s' \<and>
       (err = None \<longrightarrow> (changed \<longleftrightarrow> \<not> stores (nodes s) key payload) \<and>
          nodes s' = (if changed then (nodes s)(key \<mapsto> (payload, sig)) else nodes s)) \<and>
       (err \<noteq> None \<longrightarrow> nodes s' = nodes s)"
    and ChooseNetNode_law:
    "valid s \<Longrightarrow> \<exists>np err s'. st_ChooseNetNode S s = Some ((np, err), s') \<and> valid s' \<and> nodes s' = nodes s \<and>
       (err = None \<longrightarrow> length (niPubKey np) = 32 \<and> nodes s (niPubKey np) \<noteq> None)"
    and ChooseNetNodeMsg_law:
    "valid s \<Longrightarrow> \<exists>r err s'. st_ChooseNetNodeMsg S s = Some ((r, err), s') \<and> valid s' \<and> nodes s' = nodes s \<and>
       (err = None \<longrightarrow> nodes s (nrPubKey r) = Some (nrPayload r, nrSig r))"
    and AddChannel_law:
    "valid s \<Longrightarrow> st_AddChannel S ch s = Some (err, s') \<Longrightarrow> valid s' \<and> nodes s' = nodes s"
begin

lemma AddNetNode_inv:
  "valid s \<Longrightarrow> st_AddNetNode S key addr time owner cs payload sig s = Some ((changed, err), s') \<Longrightarrow> valid s'"
  using AddNetNode_law [of s key addr time owner cs payload sig] by auto

lemma AddNetNode_keys32:
  "valid s \<Longrightarrow> keys32 (nodes s) \<Longrightarrow> length key = 32 \<Longrightarrow>
   st_AddNetNode S key addr time owner cs payload sig s = Some ((changed, err), s') \<Longrightarrow> keys32 (nodes s')"
  using AddNetNode_law [of s key addr time owner cs payload sig]
  by (cases err) (auto simp: keys32_def split: if_splits)

lemma AddNetNode_again:
  "valid s \<Longrightarrow> st_AddNetNode S key addr time owner cs payload sig s = Some ((changed, None), s') \<Longrightarrow>
   stores (nodes s') key payload \<and>
   (\<exists>err s''. st_AddNetNode S key addr' time' owner' cs' payload sig' s' = Some ((\<not> True, err), s'') \<or>
      st_AddNetNode S key addr' time' owner' cs' payload sig' s' = Some ((True, err), s'') \<and> err \<noteq> None)"
  using AddNetNode_law [of s key addr time owner cs payload sig]
    AddNetNode_law [of s' key addr' time' owner' cs' payload sig']
  by (auto simp: stores_def split: if_splits)

lemma ChooseNetNodeMsg_key:
  "valid s \<Longrightarrow> keys32 (nodes s) \<Longrightarrow> st_ChooseNetNodeMsg S s = Some ((r, None), s') \<Longrightarrow>
   length (nrPubKey r) = 32 \<and> nodes s (nrPubKey r) = Some (nrPayload r, nrSig r)"
  using ChooseNetNodeMsg_law [of s] by (auto simp: keys32_def)

end

text \<open>
  What the announce service relies on besides: the announcement row (payload, signature,
  expiry and owner) and the registered channels. Calls on them need not return.
\<close>

locale announce_store = node_registry S valid nodes
  for S :: "'s store" and valid :: "'s \<Rightarrow> bool" and nodes :: "'s \<Rightarrow> bytes \<Rightarrow> (bytes \<times> bytes) option" +
  fixes ann :: "'s \<Rightarrow> bytes \<times> bytes \<times> int \<times> bytes"
    and chans :: "'s \<Rightarrow> tag4cc set"
  assumes GetAnnounce_law:
    "valid s \<Longrightarrow> st_GetAnnounce S s = Some ((p, sg, t, ow, err), s') \<Longrightarrow>
       valid s' \<and> nodes s' = nodes s \<and> ann s' = ann s \<and> chans s' = chans s \<and>
       (err = None \<longrightarrow> (p, sg, t, ow) = ann s)"
    and SetAnnounce_law:
    "valid s \<Longrightarrow> st_SetAnnounce S p sg t s = Some (err, s') \<Longrightarrow>
       valid s' \<and> nodes s' = nodes s \<and> chans s' = chans s \<and>
       ann s' = (if err = None then (p, sg, t, snd (snd (snd (ann s)))) else ann s)"
    and SetAnnounceOwner_law:
    "valid s \<Longrightarrow> st_SetAnnounceOwner S ow s = Some (err, s') \<Longrightarrow>
       valid s' \<and> nodes s' = nodes s \<and> chans s' = chans s \<and>
       ann s' = (if err = None then (fst (ann s), fst (snd (ann s)), fst (snd (snd (ann s))), ow) else ann s)"
    and GetChannels_law:
    "valid s \<Longrightarrow> st_GetChannels S s = Some ((cs, err), s') \<Longrightarrow>
       valid s' \<and> nodes s' = nodes s \<and> ann s' = ann s \<and> chans s' = chans s \<and>
       (err = None \<longrightarrow> set cs = chans s)"
    and AddNetNode_ann:
    "valid s \<Longrightarrow> st_AddNetNode S key addr time owner cs payload sig s = Some ((changed, err), s') \<Longrightarrow>
       ann s' = ann s \<and> chans s' = chans s"
    and AddChannel_ann: "valid s \<Longrightarrow> st_AddChannel S ch s = Some (err, s') \<Longrightarrow>
       ann s' = ann s \<and> chans s' = (if err = None then insert ch (chans s) else chans s)"
    and ChooseNetNode_ann: "valid s \<Longrightarrow> st_ChooseNetNode S s = Some (r1, s') \<Longrightarrow> ann s' = ann s \<and> chans s' = chans s"
    and ChooseNetNodeMsg_ann:
    "valid s \<Longrightarrow> st_ChooseNetNodeMsg S s = Some (r2, s') \<Longrightarrow> ann s' = ann s \<and> chans s' = chans s"

end
