(* ===== verification/NetGossip.thy ===== *)
theory NetGossip
  imports NetHandshake StoreIface
begin

text \<open>
  The net service over any store that keeps the \<open>node_registry\<close> contract: which
  announcements are stored and re-broadcast, and that the gossip of random addresses never
  meets a key of the wrong length.
\<close>

section \<open>What the goroutines of the connections leave alone\<close>

text \<open>The service's own fields, apart from the store.\<close>

definition same_service :: "'s net \<Rightarrow> 's net \<Rightarrow> bool" where
  "same_service n n' \<longleftrightarrow> crashed n' = crashed n \<and> lockedPeers n' = lockedPeers n \<and>
     clock n' = clock n \<and> acceptPc n' = acceptPc n \<and> nodeKey n' = nodeKey n \<and>
     stopping n' = stopping n \<and> stopped n' = stopped n \<and> encAnnounce n' = encAnnounce n \<and>
     bindAddrs n' = bindAddrs n \<and> findPc n' = findPc n \<and> newPeers n' = newPeers n"

lemma same_basic [simp]:
  "same_service n n" "same_service n (set_peer p f m) = same_service n m"
  "same_service n (conn_write c b m) = same_service n m" "same_service n (goto p pc m) = same_service n m"
  "same_service n (sender_goto p spc m) = same_service n m" "same_service n (closePeer p m) = same_service n m"
  "same_service n (forwardToPeers msg m) = same_service n m" "same_service n (m\<lparr>stState := s\<rparr>) = same_service n m"
  "same_service n (snd (forwardToHandlers ch h pl m)) = same_service n m"
  "stState (goto p pc m) = stState m" "stState (sender_goto p spc m) = stState m" "stState (conn_write c b m) = stState m"
  "stState (forwardToPeers msg m) = stState m" "stState (snd (forwardToHandlers ch h pl m)) = stState m"
  by (simp_all add: same_service_def goto_def sender_goto_def conn_write_def forwardToHandlers_def forward_handlers_eq)

lemma on_tau_Some: "on_tau ev m = Some n' \<longleftrightarrow> ev = Tau \<and> n' = m"
  by (auto simp: on_tau_def)

lemma on_write_Some: "on_write ev c b n ok err = Some n' \<Longrightarrow> n' = ok (conn_write c b n) \<or> n' = err n"
  by (auto simp: on_write_def split: event.splits if_splits)

lemma on_read_Some: "on_read ev got err = Some n' \<Longrightarrow> (\<exists>m. length (mPubKey m) = 32 \<and> n' = got m) \<or> n' = err"
  by (auto simp: on_read_def split: event.splits if_splits)

lemma adopt_frame: "adoptPeer p k n = (b, m) \<Longrightarrow> same_service n m \<and> stState m = stState n"
  by (auto simp: adoptPeer_def same_service_def split: if_splits)

definition only_peer :: "'s net \<Rightarrow> 's net \<Rightarrow> bool" where
  "only_peer n n' \<longleftrightarrow> same_service n n' \<and> stState n' = stState n"

lemma only_peer_basic [simp]:
  "only_peer n n" "only_peer n (set_peer p f m) = only_peer n m"
  "only_peer n (conn_write c b m) = only_peer n m" "only_peer n (goto p pc m) = only_peer n m"
  "only_peer n (sender_goto p spc m) = only_peer n m" "only_peer n (closePeer p m) = only_peer n m"
  "only_peer n (forwardToPeers msg m) = only_peer n m" "only_peer n (snd (forwardToHandlers ch h pl m)) = only_peer n m"
  by (simp_all add: only_peer_def)

lemma only_peer_steps [simp]:
  "only_peer n (outbound_self p m x n1) = only_peer n n1" "only_peer n (copy_pub p m n1) = only_peer n n1"
  "only_peer n (outbound_reply G p m x n1) = only_peer n n1" "only_peer n (inbound_first p m x n1) = only_peer n n1"
  "only_peer n (relay_message G p m x n1) = only_peer n n1" "only_peer n (relay_to_handlers p m n1) = only_peer n n1"
  "only_peer n (ingest_return p who e n1) = only_peer n n1" "only_peer n (ingest_forward p who m e n1) = only_peer n n1"
  "only_peer n (sendMyAddress_poll p r n1) = only_peer n n1" "only_peer n (sendMyAddress_done p x n1) = only_peer n n1"
  by (simp_all add: outbound_self_def copy_pub_def outbound_reply_def inbound_first_def relay_message_def
      relay_to_handlers_def ingest_return_def ingest_forward_def sendMyAddress_poll_def sendMyAddress_done_def
      Let_def case_prod_beta split: option.splits caller.splits)

lemma only_peer_adopt:
  "only_peer n (outbound_adopt p m x n)" "only_peer n (inbound_adopt G p m x n)"
  using adopt_frame [of p "pPub x" n]
  by (auto simp: outbound_adopt_def inbound_adopt_def only_peer_def outbound_self_def split: prod.splits bool.splits)

lemma only_peer_frame: "only_peer n n' \<Longrightarrow> same_service n n' \<and> stState n' = stState n"
  by (simp add: only_peer_def)

lemma ingest_frame:
  assumes "ingest_store G S p who m x n = Some n'"
  shows "same_service n n' \<and> (stState n' = stState n \<or>
    (\<exists>addr changed err. st_AddNetNode S (mPubKey m) (peer_address addr) (Unix (DogeLocal G (amTime addr)))
         (amOwner addr) (amChannels addr) (mPayload m) (mSignature m) (stState n) =
         Some ((changed, err), stState n')))"
proof (cases "ingest_checks G (clock n) (pAllowLocal x) m")
  case (Inl e)
  then show ?thesis using assms only_peer_frame [of n n'] by (auto simp: ingest_store_def)
next
  case (Inr addr)
  let ?n1 = "set_peer p (\<lambda>x. x\<lparr>pAddr := peer_address addr\<rparr>) n"
  obtain isnew err s where c: "st_AddNetNode S (mPubKey m) (peer_address addr) (Unix (DogeLocal G (amTime addr)))
         (amOwner addr) (amChannels addr) (mPayload m) (mSignature m) (stState n) = Some ((isnew, err), s)"
     "n' = (if isnew then goto p (RForward who m err) (?n1\<lparr>stState := s\<rparr>) else ingest_return p who err (?n1\<lparr>stState := s\<rparr>))"
    using assms Inr by (auto simp: ingest_store_def Let_def split: option.splits prod.splits)
  have "only_peer (?n1\<lparr>stState := s\<rparr>) n'" using c(2) by simp
  then have "same_service (?n1\<lparr>stState := s\<rparr>) n'" "stState n' = s" by (simp_all add: only_peer_def)
  then show ?thesis using c(1) by (auto simp: same_service_def)
qed

lemma receive_frame:
  assumes "receiveFromPeer G S ev p n = Some n'"
  shows "only_peer n n' \<or>
    (\<exists>x who m. peers n p = Some x \<and> pRecv x = RIngest who m \<and> ingest_store G S p who m x n = Some n')"
proof -
  obtain x where x: "peers n p = Some x" using assms by (auto simp: receiveFromPeer_def split: option.splits)
  show ?thesis
    using assms x only_peer_adopt
    by (cases "pRecv x") (auto simp: receiveFromPeer_def on_tau_Some dest!: on_write_Some on_read_Some split: if_splits)
qed

lemma receive_store:
  assumes "receiveFromPeer G S ev p n = Some n'"
  shows "stState n' = stState n \<or>
    (\<exists>x who m addr changed err. peers n p = Some x \<and> pRecv x = RIngest who m \<and>
       st_AddNetNode S (mPubKey m) (peer_address addr) (Unix (DogeLocal G (amTime addr)))
         (amOwner addr) (amChannels addr) (mPayload m) (mSignature m) (stState n) =
         Some ((changed, err), stState n'))"
  using receive_frame [OF assms] only_peer_frame [of n n'] ingest_frame [of G S p _ _ _ n n'] by metis

lemma receive_service: "receiveFromPeer G S ev p n = Some n' \<Longrightarrow> same_service n n'"
  using receive_frame [of G S ev p n n'] only_peer_frame [of n n'] ingest_frame [of G S p _ _ _ n n'] by metis

lemma send_store: "sendToPeer ev p n = Some n' \<Longrightarrow> stState n' = stState n"
  by (auto simp: sendToPeer_def on_defs sender_goto_def split: option.splits send_pc.splits
      event.splits list.splits if_splits)

lemma handler_store:
  "receiveFromHandler G S ev h n = Some n' \<Longrightarrow> stState n' = stState n \<or>
   (\<exists>ch err. st_AddChannel S ch (stState n) = Some (err, stState n'))"
  by (auto simp: receiveFromHandler_def on_defs hgoto_def hsender_goto_def handler_bound_def
      handler_add_channel_def send_change_def Let_def
      split: option.splits hand_pc.splits event.splits if_splits sum.splits prod.splits)

lemma send_handler_store: "sendToHandler ev h n = Some n' \<Longrightarrow> stState n' = stState n"
  by (auto simp: sendToHandler_def on_defs hsender_goto_def split: option.splits send_pc.splits
      event.splits if_splits)

lemma open_peer_store: "open_peer a k b1 b2 n = (b, n') \<Longrightarrow> stState n' = stState n \<and> crashed n' = crashed n"
  by (auto simp: open_peer_def trackPeer_def Let_def split: if_splits)

lemma accept_store: "acceptIncoming G ev l n = Some n' \<Longrightarrow> stState n' = stState n"
  by (auto simp: acceptIncoming_def accept_ends_def dest!: open_peer_store
      split: if_splits task_event.splits prod.splits bool.splits)

lemma accept_handler_store: "acceptHandlers ev n = Some n' \<Longrightarrow> stState n' = stState n"
  by (auto simp: acceptHandlers_def trackHandler_def Let_def
      split: accept_pc.splits if_splits task_event.splits prod.splits bool.splits)

lemma seed_store: "seedFromDNS G ev n = Some n' \<Longrightarrow> stState n' = stState n"
  by (auto simp: seedFromDNS_def dest!: open_peer_store
      split: seed_pc.splits if_splits task_event.splits prod.splits bool.splits)

lemma lockPeer_fields: "lockPeer k n = (b, n1) \<Longrightarrow> \<exists>l. n1 = n\<lparr>lockedPeers := l\<rparr>"
  by (rule lockPeer_eq)

lemma find_store:
  "findPeers G S ev n = Some n' \<Longrightarrow> stState n' = stState n \<or>
   (\<exists>r. st_ChooseNetNode S (stState n) = Some (r, stState n'))"
  by (auto simp: findPeers_def choosePeer_def dest!: open_peer_store lockPeer_fields
      split: find_pc.splits if_splits task_event.splits prod.splits bool.splits list.splits option.splits)

lemma gossip_store:
  "gossipRandomAddresses G S ev n = Some n' \<Longrightarrow> stState n' = stState n \<or>
   (\<exists>r. st_ChooseNetNodeMsg S (stState n) = Some (r, stState n'))"
  by (auto simp: gossipRandomAddresses_def split: gossip_pc.splits task_event.splits if_splits option.splits prod.splits)

lemma send_service: "sendToPeer ev p n = Some n' \<Longrightarrow> same_service n n'"
  by (auto simp: same_service_def sendToPeer_def on_defs sender_goto_def split: option.splits send_pc.splits
      event.splits list.splits if_splits)

lemma handler_service: "receiveFromHandler G S ev h n = Some n' \<Longrightarrow> same_service n n'"
  by (auto simp: same_service_def receiveFromHandler_def on_defs hgoto_def hsender_goto_def handler_bound_def
      handler_add_channel_def send_change_def Let_def
      split: option.splits hand_pc.splits event.splits if_splits sum.splits prod.splits)

lemma send_handler_service: "sendToHandler ev h n = Some n' \<Longrightarrow> same_service n n'"
  by (auto simp: same_service_def sendToHandler_def on_defs hsender_goto_def split: option.splits send_pc.splits
      event.splits if_splits)

lemma open_peer_service: "open_peer a k b1 b2 n = (b, n') \<Longrightarrow> same_service n n'"
  by (auto simp: same_service_def open_peer_def trackPeer_def Let_def split: if_splits)

lemma same_service_trans: "same_service n n1 \<Longrightarrow> same_service n1 n2 \<Longrightarrow> same_service n n2"
  by (simp add: same_service_def)

lemma accept_service: "acceptIncoming G ev l n = Some n' \<Longrightarrow> same_service n n'"
  by (auto simp: acceptIncoming_def accept_ends_def same_service_def dest!: open_peer_service
      split: if_splits task_event.splits prod.splits bool.splits)

lemma seed_service: "seedFromDNS G ev n = Some n' \<Longrightarrow> same_service n n'"
  by (auto simp: seedFromDNS_def same_service_def dest!: open_peer_service
      split: seed_pc.splits if_splits task_event.splits prod.splits bool.splits)

text \<open>The other services keep the store's invariant and the length of the keys.\<close>

definition keeps_store :: "('s \<Rightarrow> bool) \<Rightarrow> ('s \<Rightarrow> bytes \<Rightarrow> (bytes \<times> bytes) option) \<Rightarrow> ('s \<Rightarrow> 's \<Rightarrow> bool) \<Rightarrow> bool" where
  "keeps_store valid nodes others \<longleftrightarrow>
     (\<forall>s s'. others s s' \<longrightarrow> valid s \<longrightarrow> keys32 (nodes s) \<longrightarrow> valid s' \<and> keys32 (nodes s'))"

context node_registry
begin

lemma store_ok_receive:
  assumes "receiveFromPeer G S ev p n = Some n'" "net_ok n" "valid (stState n)" "keys32 (nodes (stState n))"
  shows "valid (stState n') \<and> keys32 (nodes (stState n'))"
proof -
  have "length (mPubKey m) = 32" if "peers n p = Some x" "pRecv x = RIngest who m" for x who m
    using net_ok_peer [OF assms(2) that(1)] that(2) by (simp add: peer_ok_def direction_ok_def)
  then show ?thesis
    using receive_store [OF assms(1)] assms(3,4) AddNetNode_inv AddNetNode_keys32 by metis
qed

lemma store_ok_step:
  assumes "net_step G S others n n'" "net_ok n" "keeps_store valid nodes others"
    and "valid (stState n)" "keys32 (nodes (stState n))"
  shows "valid (stState n') \<and> keys32 (nodes (stState n'))"
  using assms
proof (induction rule: net_step.induct)
  case (Receive n ev p n')
  then show ?case using store_ok_receive by blast
next
  case (ReceiveHandler n ev h n')
  then show ?case using handler_store [OF ReceiveHandler(2)] AddChannel_law by metis
next
  case (Find n tev n')
  from find_store [OF Find(2)] show ?case
    using Find ChooseNetNode_law [of "stState n"] by auto
next
  case (GossipAddress n tev n')
  from gossip_store [OF GossipAddress(2)] show ?case
    using GossipAddress ChooseNetNodeMsg_law [of "stState n"] by auto
next
  case (AddPeer n np n')
  then show ?case by (auto simp: AddPeer_def)
next
  case (Others n s)
  then show ?case by (simp add: keeps_store_def)
qed (simp_all add: send_store send_handler_store accept_store accept_handler_store seed_store
    ns_setAnnounce_def Stop_eq)

lemma store_typed_registry: "\<forall>s. valid s \<Longrightarrow> store_typed S"
  unfolding store_typed_def using ChooseNetNode_law by (metis option.inject prod.inject)

text \<open>The goroutine that gossips random addresses does not panic and sends stored announcements.\<close>

lemma gossip_stored:
  assumes "gossipRandomAddresses G S ev n = Some n'" "valid (stState n)" "keys32 (nodes (stState n))"
  shows "crashed n' = crashed n \<and>
    (\<forall>msg. gossipPc n' = GForward msg \<longrightarrow>
       (\<exists>k pl sg. length k = 32 \<and> nodes (stState n) k = Some (pl, sg) \<and>
          msg = ReEncodeMessage G (DnetChannelNode G) (TagAddress G) k sg pl))"
proof (cases "gossipPc n")
  case GChoose
  then show ?thesis
    using assms(1) ChooseNetNodeMsg_key [OF assms(2,3)]
    by (auto simp: gossipRandomAddresses_def split: if_splits option.splits prod.splits)
qed (use assms(1) in \<open>auto simp: gossipRandomAddresses_def split: if_splits task_event.splits\<close>)

text \<open>What one ingested announcement does.\<close>

lemma ingest_contract:
  assumes "valid (stState n)" "peers n p = Some x"
  shows "\<exists>n' y. ingest_store G S p who m x n = Some n' \<and> peers n' p = Some y \<and> valid (stState n') \<and>
    (case ingest_checks G (clock n) (pAllowLocal x) m of
       Inl e \<Rightarrow> stState n' = stState n \<and> pRecv y = RClosing
     | Inr addr \<Rightarrow> pAddr y = peer_address addr \<and>
         (pRecv y = RForward who m None \<longrightarrow> \<not> stores (nodes (stState n)) (mPubKey m) (mPayload m) \<and>
            nodes (stState n') = (nodes (stState n))(mPubKey m \<mapsto> (mPayload m, mSignature m))) \<and>
         (pRecv y \<noteq> RForward who m None \<longrightarrow> nodes (stState n') = nodes (stState n)))"
proof (cases "ingest_checks G (clock n) (pAllowLocal x) m")
  case (Inl e)
  then show ?thesis using assms by (auto simp: ingest_store_def ingest_return_def goto_def)
next
  case (Inr addr)
  obtain changed err s' where c: "st_AddNetNode S (mPubKey m) (peer_address addr) (Unix (DogeLocal G (amTime addr)))
      (amOwner addr) (amChannels addr) (mPayload m) (mSignature m) (stState n) = Some ((changed, err), s')"
    "valid s'" "err = None \<longrightarrow> (changed \<longleftrightarrow> \<not> stores (nodes (stState n)) (mPubKey m) (mPayload m)) \<and>
      nodes s' = (if changed then (nodes (stState n))(mPubKey m \<mapsto> (mPayload m, mSignature m)) else nodes (stState n))"
    "err \<noteq> None \<longrightarrow> nodes s' = nodes (stState n)"
    using AddNetNode_law [OF assms(1)] by blast
  then show ?thesis
    using assms(2) Inr
    by (cases changed; cases err)
      (auto simp: ingest_store_def ingest_return_def gotos Let_def split: caller.splits)
qed

end

end
