(* ===== verification/GoParse.thy ===== *)
theory GoParse
  imports GoNet
begin

text \<open>
  Parsing in Go's standard library, as far as the program's configuration uses it:
  \<open>net.ParseIP\<close>, and \<open>LastIndex\<close>, \<open>HasPrefix\<close> and \<open>SplitN\<close> of \<open>strings\<close>. A Go string is
  its list of bytes.
\<close>

section \<open>strings\<close>

fun LastIndex :: "char \<Rightarrow> string \<Rightarrow> int" where
  "LastIndex c [] = - 1"
| "LastIndex c (d # s) =
     (let i = LastIndex c s in if 0 \<le> i then i + 1 else if d = c then 0 else - 1)"

fun HasPrefix :: "string \<Rightarrow> string \<Rightarrow> bool" where
  "HasPrefix s [] = True"
| "HasPrefix [] (c # p) = False"
| "HasPrefix (d # s) (c # p) = (d = c \<and> HasPrefix s p)"

text \<open>\<open>SplitN(s, sep, 2)\<close>: the string cut at the first separator, if there is one.\<close>

fun SplitN2 :: "char \<Rightarrow> string \<Rightarrow> string list" where
  "SplitN2 c [] = [[]]"
| "SplitN2 c (d # s) =
     (if d = c then [[], s]
      else case SplitN2 c s of (a # r) \<Rightarrow> (d # a) # r | [] \<Rightarrow> [[d]])"

lemma LastIndex_absent: "LastIndex c s = - 1 \<longleftrightarrow> c \<notin> set s"
proof -
  have ge: "- 1 \<le> LastIndex c s" for s by (induction s) (auto simp: Let_def)
  show ?thesis
  proof (induction s)
    case (Cons d s)
    then show ?case using ge [of s] by (auto simp: Let_def)
  qed simp
qed

lemma SplitN2_two: "SplitN2 c s = [a, b] \<longleftrightarrow> c \<notin> set a \<and> s = a @ c # b"
proof (induction s arbitrary: a)
  case (Cons d s)
  then show ?case by (cases a; cases "SplitN2 c s") auto
qed simp

lemma SplitN2_one: "c \<notin> set s \<Longrightarrow> SplitN2 c s = [s]"
  by (induction s) auto

section \<open>net.ParseIP\<close>

text \<open>
  \<open>parseIPv4Fields\<close>: the value and the number of digits of the field being read, and the
  fields before it.
\<close>

definition digit_value :: "char \<Rightarrow> nat option" where
  "digit_value c =
     (let n = of_char c :: nat in if 48 \<le> n \<and> n \<le> 57 then Some (n - 48) else None)"

fun parseIPv4Fields :: "string \<Rightarrow> nat \<Rightarrow> nat \<Rightarrow> bytes \<Rightarrow> bytes option" where
  "parseIPv4Fields [] val digLen fields =
     (if digLen = 0 then None
      else if length fields < 3 then None
      else Some (fields @ [of_nat val]))"
| "parseIPv4Fields (c # s) val digLen fields =
     (case digit_value c of
        Some v \<Rightarrow>
          if digLen = 1 \<and> val = 0 then None
          else if val * 10 + v > 255 then None
          else parseIPv4Fields s (val * 10 + v) (digLen + 1) fields
      | None \<Rightarrow>
          if c = CHR ''.'' then
            if digLen = 0 \<or> s = [] then None
            else if length fields = 3 then None
            else parseIPv4Fields s 0 0 (fields @ [of_nat val])
          else None)"

definition parseIPv4 :: "string \<Rightarrow> bytes option" where
  "parseIPv4 s = parseIPv4Fields s 0 0 []"

text \<open>
  The hexadecimal group at the head of the string: its value, the number of its digits and
  the rest; no result where a group has a fifth digit.
\<close>

fun hexGroup :: "string \<Rightarrow> nat \<Rightarrow> nat \<Rightarrow> (nat \<times> nat \<times> string) option" where
  "hexGroup [] acc off = Some (acc, off, [])"
| "hexGroup (c # s) acc off =
     (case fromHexChar c of
        None \<Rightarrow> Some (acc, off, c # s)
      | Some v \<Rightarrow> if off > 3 then None else hexGroup s (acc * 16 + v) (off + 1))"

lemma hexGroup_shorter:
  "hexGroup s acc off = Some (acc', off', s') \<Longrightarrow> length s' + off' = length s + off"
  by (induction s arbitrary: acc off) (auto split: option.splits if_splits)

text \<open>
  The loop of \<open>parseIPv6\<close>: the bytes so far and the position of the ellipsis. It ends with
  the bytes, the ellipsis and the unread rest.
\<close>

function parseIPv6_loop :: "string \<Rightarrow> bytes \<Rightarrow> nat option \<Rightarrow> (bytes \<times> nat option \<times> string) option" where
  "parseIPv6_loop s bs ellipsis =
     (if length bs \<ge> 16 then Some (bs, ellipsis, s)
      else case hexGroup s 0 0 of
        None \<Rightarrow> None
      | Some (acc, off, r) \<Rightarrow>
          if off = 0 then None
          else if r \<noteq> [] \<and> hd r = CHR ''.'' then
            if ellipsis = None \<and> length bs \<noteq> 12 then None
            else if length bs + 4 > 16 then None
            else map_option (\<lambda>v4. (bs @ v4, ellipsis, [])) (parseIPv4 s)
          else
            let bs' = bs @ [of_nat (acc div 256), of_nat acc] in
            if r = [] then Some (bs', ellipsis, [])
            else if hd r \<noteq> CHR '':'' then None
            else if length r = 1 then None
            else if hd (tl r) = CHR '':'' then
              if ellipsis \<noteq> None then None
              else if tl (tl r) = [] then Some (bs', Some (length bs'), [])
              else parseIPv6_loop (tl (tl r)) bs' (Some (length bs'))
            else parseIPv6_loop (tl r) bs' ellipsis)"
  by pat_completeness auto
termination
  by (relation "measure (\<lambda>(s, bs, e). 16 - length bs)") auto

declare parseIPv6_loop.simps [simp del]

definition parseIPv6 :: "string \<Rightarrow> bytes option" where
  "parseIPv6 s =
     (if s = ''::'' then Some (replicate 16 0)
      else case (if HasPrefix s ''::'' then parseIPv6_loop (drop 2 s) [] (Some 0)
                 else parseIPv6_loop s [] None) of
        None \<Rightarrow> None
      | Some (bs, ellipsis, rest) \<Rightarrow>
          if rest \<noteq> [] then None
          else if length bs < 16 then
            case ellipsis of
              None \<Rightarrow> None
            | Some e \<Rightarrow> Some (take e bs @ replicate (16 - length bs) 0 @ drop e bs)
          else if ellipsis \<noteq> None then None
          else Some bs)"

text \<open>
  \<open>ParseIP\<close>: which of the two parsers the first \<open>.\<close>, \<open>:\<close> or \<open>%\<close> selects. An address with
  a zone is refused; the answer for IPv4 is the 16-byte form; no address is the nil slice.
\<close>

fun ip_kind :: "string \<Rightarrow> char option" where
  "ip_kind [] = None"
| "ip_kind (c # s) =
     (if c = CHR ''.'' \<or> c = CHR '':'' \<or> c = CHR ''%'' then Some c else ip_kind s)"

definition ParseIP :: "string \<Rightarrow> ip" where
  "ParseIP s =
     (if ip_kind s = Some (CHR ''.'') then
        (case parseIPv4 s of Some [a, b, c, d] \<Rightarrow> IPv4 a b c d | _ \<Rightarrow> [])
      else if ip_kind s = Some (CHR '':'') then
        (if CHR ''%'' \<in> set s then [] else case parseIPv6 s of Some bs \<Rightarrow> bs | None \<Rightarrow> [])
      else [])"

section \<open>What ParseIP accepts\<close>

lemma length_parseIPv4Fields:
  "parseIPv4Fields s val digLen fields = Some r \<Longrightarrow> length fields \<le> 3 \<Longrightarrow> length r = 4"
  by (induction s val digLen fields rule: parseIPv4Fields.induct) (auto split: option.splits if_splits)

lemma length_parseIPv4: "parseIPv4 s = Some r \<Longrightarrow> length r = 4"
  using length_parseIPv4Fields [of s 0 0 "[]"] by (simp add: parseIPv4_def)

lemma parseIPv6_loop_length:
  "parseIPv6_loop s bs e = Some (bs', e', s') \<Longrightarrow> even (length bs) \<Longrightarrow> length bs \<le> 16 \<Longrightarrow>
   case e of Some i \<Rightarrow> i \<le> length bs | None \<Rightarrow> True \<Longrightarrow>
   length bs' \<le> 16 \<and> (case e' of Some i \<Rightarrow> i \<le> length bs' | None \<Rightarrow> True)"
proof (induction s bs e arbitrary: bs' e' s' rule: parseIPv6_loop.induct)
  case (1 s bs e)
  show ?case
  proof (cases "length bs \<ge> 16")
    case True
    then show ?thesis using 1(3,5,6) by (auto simp: parseIPv6_loop.simps [of s bs e])
  next
    case False
    with 1(4) have room: "length bs + 2 \<le> 16" by presburger
    then obtain acc off r where g: "hexGroup s 0 0 = Some (acc, off, r)" "off \<noteq> 0"
      using 1(3) by (auto simp: parseIPv6_loop.simps [of s bs e] split: option.splits if_splits)
    note IH = 1(1,2) [OF False g(1) refl refl g(2)]
    show ?thesis
      using 1(3,4,6) False g room IH length_parseIPv4 [of s]
      by (auto simp: parseIPv6_loop.simps [of s bs e] Let_def split: if_splits option.splits)
  qed
qed

lemma length_ParseIP: "ParseIP s = [] \<or> length (ParseIP s) = 16"
proof -
  have "length bs = 16" if v6: "parseIPv6 s = Some bs" for bs
  proof (cases "s = ''::''")
    case True
    then show ?thesis using v6 by (auto simp: parseIPv6_def)
  next
    case False
    then obtain cs e rest where l: "(if HasPrefix s ''::'' then parseIPv6_loop (drop 2 s) [] (Some 0)
         else parseIPv6_loop s [] None) = Some (cs, e, rest)"
      using v6 by (auto simp: parseIPv6_def split: option.splits prod.splits)
    then have "length cs \<le> 16 \<and> (case e of Some i \<Rightarrow> i \<le> length cs | None \<Rightarrow> True)"
      using parseIPv6_loop_length [of _ "[]"] by (fastforce split: if_splits)
    then show ?thesis
      using v6 False l by (auto simp: parseIPv6_def split: option.splits if_splits)
  qed
  then show ?thesis by (auto simp: ParseIP_def IPv4_def split: option.splits list.splits)
qed

lemma digit_value_digit: "n < 10 \<Longrightarrow> digit_value (char_of (48 + n)) = Some n"
proof -
  have "\<forall>n\<in>set [0..<10]. digit_value (char_of (48 + n)) = Some n" by code_simp
  then show "n < 10 \<Longrightarrow> ?thesis" by simp
qed

lemma ip_kind_digit: "(n::nat) < 10 \<Longrightarrow> ip_kind (char_of (48 + n) # s) = ip_kind s"
proof -
  have "\<forall>n\<in>set [0..<10::nat]. char_of (48 + n) \<noteq> CHR ''.'' \<and> char_of (48 + n) \<noteq> CHR '':'' \<and> char_of (48 + n) \<noteq> CHR ''%''"
    by code_simp
  then show "n < 10 \<Longrightarrow> ?thesis" by simp
qed

text \<open>One decimal field, as \<open>strconv.Itoa\<close> prints it.\<close>

lemma nat_digits_small: "n < 10 \<Longrightarrow> nat_digits n = [char_of (48 + n)]"
  by (subst nat_digits.simps) simp

lemma nat_digits_step: "10 \<le> n \<Longrightarrow> nat_digits n = nat_digits (n div 10) @ [char_of (48 + n mod 10)]"
  by (subst nat_digits.simps) simp

lemma parse_field:
  assumes "n < 256"
  shows "\<exists>k. 0 < k \<and> parseIPv4Fields (nat_digits n @ rest) 0 0 fields = parseIPv4Fields rest n k fields"
    and "ip_kind (nat_digits n @ rest) = ip_kind rest"
proof -
  consider "n < 10" | "10 \<le> n" "n < 100" | "100 \<le> n" by linarith
  then have "(\<exists>k. 0 < k \<and> parseIPv4Fields (nat_digits n @ rest) 0 0 fields = parseIPv4Fields rest n k fields) \<and>
     ip_kind (nat_digits n @ rest) = ip_kind rest"
  proof cases
    case 1
    then show ?thesis by (auto simp: nat_digits_small digit_value_digit ip_kind_digit simp del: ip_kind.simps)
  next
    case 2
    then have "n div 10 < 10" "0 < n div 10" by auto
    moreover have "n div 10 * 10 + n mod 10 = n" by simp
    ultimately show ?thesis using 2
      by (auto simp: nat_digits_small nat_digits_step digit_value_digit ip_kind_digit simp del: ip_kind.simps)
  next
    case 3
    with assms have d: "n div 10 div 10 < 10" "0 < n div 10 div 10" "10 \<le> n div 10" by auto
    moreover have "n div 10 div 10 * 10 + n div 10 mod 10 = n div 10" "n div 10 * 10 + n mod 10 = n" by simp_all
    moreover have "n div 10 \<le> 255" using assms by simp
    ultimately show ?thesis using 3 assms
      by (auto simp: nat_digits_small nat_digits_step digit_value_digit ip_kind_digit simp del: ip_kind.simps)
  qed
  then show "\<exists>k. 0 < k \<and> parseIPv4Fields (nat_digits n @ rest) 0 0 fields = parseIPv4Fields rest n k fields"
    "ip_kind (nat_digits n @ rest) = ip_kind rest" by blast+
qed

text \<open>The dotted form of an IPv4 address.\<close>

definition IPv4_String :: "byte \<Rightarrow> byte \<Rightarrow> byte \<Rightarrow> byte \<Rightarrow> string" where
  "IPv4_String a b c d = nat_digits (unat a) @ ''.'' @ nat_digits (unat b) @ ''.'' @
     nat_digits (unat c) @ ''.'' @ nat_digits (unat d)"

lemma ParseIP_IPv4_String: "ParseIP (IPv4_String a b c d) = IPv4 a b c d"
proof -
  have lt: "unat x < 256" for x :: byte using unsigned_less [of x] by simp
  have dot: "digit_value (CHR ''.'') = None" by code_simp
  have ne: "nat_digits n \<noteq> []" for n by (subst nat_digits.simps) simp
  have fld: "0 < k \<Longrightarrow> length fs < 3 \<Longrightarrow> r \<noteq> [] \<Longrightarrow>
     parseIPv4Fields (CHR ''.'' # r) v k fs = parseIPv4Fields r 0 0 (fs @ [of_nat v])" for k v fs r
    by (simp add: dot)
  have step: "length fs < 3 \<Longrightarrow> r \<noteq> [] \<Longrightarrow>
     parseIPv4Fields (nat_digits (unat x) @ CHR ''.'' # r) 0 0 fs = parseIPv4Fields r 0 0 (fs @ [x])" for x fs r
    using parse_field(1) [OF lt [of x], of "CHR ''.'' # r" fs] fld by auto
  have last: "length fs = 3 \<Longrightarrow> parseIPv4Fields (nat_digits (unat x)) 0 0 fs = Some (fs @ [x])" for x fs
    using parse_field(1) [OF lt [of x], of "[]" fs] by auto
  have "parseIPv4 (IPv4_String a b c d) = Some [a, b, c, d]"
    by (simp add: parseIPv4_def IPv4_String_def step last ne)
  moreover have "ip_kind (IPv4_String a b c d) = Some (CHR ''.'')"
    by (simp add: IPv4_String_def parse_field(2) [OF lt])
  ultimately show ?thesis by (simp add: ParseIP_def)
qed

end
