(* ===== verification/GoJson.thy ===== *)
theory GoJson
  imports GoNet
begin

text \<open>
  \<open>encoding/json\<close> of Go's standard library, as far as the program uses it: \<open>json.Unmarshal\<close>
  into a structure of strings and \<open>json.Marshal\<close> of strings and structures of strings. The
  scanner is the state machine of \<open>scanner.go\<close>, which reads one byte at a time and keeps a
  stack of the objects and arrays it is in; here the stack also holds what has been read of
  them. A Go string is its list of bytes.
\<close>

section \<open>Values\<close>

text \<open>Strings and numbers are kept as they are written, without the quotes.\<close>

datatype json =
    JNull
  | JBool bool
  | JNumber string
  | JString string
  | JArray "json list"
  | JObject "(string \<times> json) list"

text \<open>
  Where the scanner is; the states carry what has been read of the value they are in.
  \<open>LiteralRest\<close> is inside \<open>true\<close>, \<open>false\<close> or \<open>null\<close>.
\<close>

datatype scan =
    BeginValue
  | BeginValueOrEmpty
  | BeginString
  | BeginStringOrEmpty
  | EndValue
  | EndTop json
  | InString string
  | InStringEsc string
  | InStringEscU nat string
  | NumNeg string
  | NumZero string
  | NumDigits string
  | NumDot string
  | NumDot0 string
  | NumExp string
  | NumExpSign string
  | NumExp0 string
  | LiteralRest string json

text \<open>
  The stack: an array and its elements so far; an object and its members so far, where a key
  is expected, where the colon after a key is expected, where the value is being read, and
  where it has been read.
\<close>

datatype frame =
    InArray "json list"
  | ObjectKey "(string \<times> json) list"
  | ObjectColon "(string \<times> json) list" string
  | ObjectValue "(string \<times> json) list" string
  | ObjectNext "(string \<times> json) list"

type_synonym scanner = "scan \<times> frame list"

section \<open>The scanner\<close>

definition char_code :: "char \<Rightarrow> nat" where
  "char_code c = of_char c"

definition isSpace :: "char \<Rightarrow> bool" where
  "isSpace c \<longleftrightarrow> char_code c = 32 \<or> char_code c = 9 \<or> char_code c = 10 \<or> char_code c = 13"

definition isDigit :: "char \<Rightarrow> bool" where
  "isDigit c \<longleftrightarrow> 48 \<le> char_code c \<and> char_code c \<le> 57"

definition quote :: char where "quote = char_of (34 :: nat)"
definition backslash :: char where "backslash = char_of (92 :: nat)"

definition maxNestingDepth :: nat where
  "maxNestingDepth = 10000"

definition pushParseState :: "scan \<Rightarrow> frame \<Rightarrow> frame list \<Rightarrow> scanner option" where
  "pushParseState s f st = (if length st < maxNestingDepth then Some (s, f # st) else None)"

text \<open>A value has been read.\<close>

fun value_read :: "json \<Rightarrow> frame list \<Rightarrow> scanner" where
  "value_read v (InArray vs # st) = (EndValue, InArray (vs @ [v]) # st)"
| "value_read v (ObjectValue ms k # st) = (EndValue, ObjectNext (ms @ [(k, v)]) # st)"
| "value_read (JString k) (ObjectKey ms # st) = (EndValue, ObjectColon ms k # st)"
| "value_read v st = (EndTop v, [])"

definition stateEndValue :: "char \<Rightarrow> frame list \<Rightarrow> scanner option" where
  "stateEndValue c st =
     (if isSpace c then Some (EndValue, st)
      else case st of
        ObjectColon ms k # st' \<Rightarrow>
          if c = CHR '':'' then Some (BeginValue, ObjectValue ms k # st') else None
      | ObjectNext ms # st' \<Rightarrow>
          if c = CHR '','' then Some (BeginString, ObjectKey ms # st')
          else if c = CHR ''}'' then Some (value_read (JObject ms) st') else None
      | InArray vs # st' \<Rightarrow>
          if c = CHR '','' then Some (BeginValue, InArray vs # st')
          else if c = CHR '']'' then Some (value_read (JArray vs) st') else None
      | _ \<Rightarrow> None)"

text \<open>A number ends with the first byte that does not belong to it.\<close>

definition number_read :: "string \<Rightarrow> char \<Rightarrow> frame list \<Rightarrow> scanner option" where
  "number_read buf c st =
     (case value_read (JNumber buf) st of
        (EndTop v, st') \<Rightarrow> if isSpace c then Some (EndTop v, st') else None
      | (s, st') \<Rightarrow> stateEndValue c st')"

definition stateBeginValue :: "char \<Rightarrow> frame list \<Rightarrow> scanner option" where
  "stateBeginValue c st =
     (if isSpace c then Some (BeginValue, st)
      else if c = CHR ''{'' then pushParseState BeginStringOrEmpty (ObjectKey []) st
      else if c = CHR ''['' then pushParseState BeginValueOrEmpty (InArray []) st
      else if c = quote then Some (InString [], st)
      else if c = CHR ''-'' then Some (NumNeg [c], st)
      else if c = CHR ''0'' then Some (NumZero [c], st)
      else if isDigit c then Some (NumDigits [c], st)
      else if c = CHR ''t'' then Some (LiteralRest ''rue'' (JBool True), st)
      else if c = CHR ''f'' then Some (LiteralRest ''alse'' (JBool False), st)
      else if c = CHR ''n'' then Some (LiteralRest ''ull'' JNull, st)
      else None)"

definition stateBeginString :: "char \<Rightarrow> frame list \<Rightarrow> scanner option" where
  "stateBeginString c st =
     (if isSpace c then Some (BeginString, st)
      else if c = quote then Some (InString [], st) else None)"

definition state0 :: "char \<Rightarrow> string \<Rightarrow> frame list \<Rightarrow> scanner option" where
  "state0 c buf st =
     (if c = CHR ''.'' then Some (NumDot (buf @ [c]), st)
      else if c = CHR ''e'' \<or> c = CHR ''E'' then Some (NumExp (buf @ [c]), st)
      else number_read buf c st)"

definition stateESign :: "char \<Rightarrow> string \<Rightarrow> frame list \<Rightarrow> scanner option" where
  "stateESign c buf st = (if isDigit c then Some (NumExp0 (buf @ [c]), st) else None)"

fun scan_step :: "char \<Rightarrow> scanner \<Rightarrow> scanner option" where
  "scan_step c (BeginValue, st) = stateBeginValue c st"
| "scan_step c (BeginValueOrEmpty, st) =
     (if isSpace c then Some (BeginValueOrEmpty, st)
      else if c = CHR '']'' then Some (value_read (JArray []) (tl st)) else stateBeginValue c st)"
| "scan_step c (BeginString, st) = stateBeginString c st"
| "scan_step c (BeginStringOrEmpty, st) =
     (if isSpace c then Some (BeginStringOrEmpty, st)
      else if c = CHR ''}'' then Some (value_read (JObject []) (tl st)) else stateBeginString c st)"
| "scan_step c (EndValue, st) = stateEndValue c st"
| "scan_step c (EndTop v, st) = (if isSpace c then Some (EndTop v, st) else None)"
| "scan_step c (InString buf, st) =
     (if c = quote then Some (value_read (JString buf) st)
      else if c = backslash then Some (InStringEsc (buf @ [c]), st)
      else if char_code c < 32 then None else Some (InString (buf @ [c]), st))"
| "scan_step c (InStringEsc buf, st) =
     (if c \<in> {CHR ''b'', CHR ''f'', CHR ''n'', CHR ''r'', CHR ''t'', CHR ''/'', backslash, quote}
      then Some (InString (buf @ [c]), st)
      else if c = CHR ''u'' then Some (InStringEscU 4 (buf @ [c]), st) else None)"
| "scan_step c (InStringEscU k buf, st) =
     (if fromHexChar c = None then None
      else Some (if k \<le> 1 then InString (buf @ [c]) else InStringEscU (k - 1) (buf @ [c]), st))"
| "scan_step c (NumNeg buf, st) =
     (if c = CHR ''0'' then Some (NumZero (buf @ [c]), st)
      else if isDigit c then Some (NumDigits (buf @ [c]), st) else None)"
| "scan_step c (NumDigits buf, st) =
     (if isDigit c then Some (NumDigits (buf @ [c]), st) else state0 c buf st)"
| "scan_step c (NumZero buf, st) = state0 c buf st"
| "scan_step c (NumDot buf, st) = (if isDigit c then Some (NumDot0 (buf @ [c]), st) else None)"
| "scan_step c (NumDot0 buf, st) =
     (if isDigit c then Some (NumDot0 (buf @ [c]), st)
      else if c = CHR ''e'' \<or> c = CHR ''E'' then Some (NumExp (buf @ [c]), st)
      else number_read buf c st)"
| "scan_step c (NumExp buf, st) =
     (if c = CHR ''+'' \<or> c = CHR ''-'' then Some (NumExpSign (buf @ [c]), st)
      else stateESign c buf st)"
| "scan_step c (NumExpSign buf, st) = stateESign c buf st"
| "scan_step c (NumExp0 buf, st) =
     (if isDigit c then Some (NumExp0 (buf @ [c]), st) else number_read buf c st)"
| "scan_step c (LiteralRest [] v, st) = None"
| "scan_step c (LiteralRest (d # ds) v, st) =
     (if c \<noteq> d then None
      else Some (if ds = [] then value_read v st else (LiteralRest ds v, st)))"

fun scan_run :: "string \<Rightarrow> scanner \<Rightarrow> scanner option" where
  "scan_run [] s = Some s"
| "scan_run (c # cs) s = (case scan_step c s of None \<Rightarrow> None | Some s' \<Rightarrow> scan_run cs s')"

text \<open>At the end of the input the scanner is given one space more (\<open>eof\<close>).\<close>

definition json_parse :: "string \<Rightarrow> json option" where
  "json_parse text =
     (case scan_run (text @ '' '') (BeginValue, []) of
        Some (EndTop v, st) \<Rightarrow> Some v
      | _ \<Rightarrow> None)"


section \<open>Strings\<close>

text \<open>UTF-8: the bytes of a char_code point, and the length of the valid sequence a string starts
  with (0 if there is none), as in \<open>utf8.DecodeRune\<close>.\<close>

definition utf8_encode :: "nat \<Rightarrow> string" where
  "utf8_encode n =
     map char_of
       (if n < 128 then [n]
        else if n < 2048 then [192 + n div 64, 128 + n mod 64]
        else if n < 65536 then [224 + n div 4096, 128 + n div 64 mod 64, 128 + n mod 64]
        else [240 + n div 262144, 128 + n div 4096 mod 64, 128 + n div 64 mod 64, 128 + n mod 64])"

definition RuneError :: nat where "RuneError = 65533"

definition in_range :: "nat \<Rightarrow> nat \<Rightarrow> string \<Rightarrow> nat \<Rightarrow> bool" where
  "in_range lo hi s i \<longleftrightarrow> i < length s \<and> lo \<le> char_code (s ! i) \<and> char_code (s ! i) \<le> hi"

definition utf8_size :: "string \<Rightarrow> nat" where
  "utf8_size s =
     (case s of
        [] \<Rightarrow> 0
      | c # _ \<Rightarrow>
          let n = char_code c; cont = in_range 128 191 s in
          if n < 128 then 1
          else if 194 \<le> n \<and> n \<le> 223 then (if cont 1 then 2 else 0)
          else if 224 \<le> n \<and> n \<le> 239 then
            (if in_range (if n = 224 then 160 else 128) (if n = 237 then 159 else 191) s 1 \<and> cont 2 then 3 else 0)
          else if 240 \<le> n \<and> n \<le> 244 then
            (if in_range (if n = 240 then 144 else 128) (if n = 244 then 143 else 191) s 1 \<and> cont 2 \<and> cont 3
             then 4 else 0)
          else 0)"

text \<open>\<open>getu4\<close> on the digits that follow \<open>\u\<close>.\<close>

definition hex4 :: "string \<Rightarrow> nat option" where
  "hex4 s =
     (case map fromHexChar (take 4 s) of
        [Some a, Some b, Some c, Some d] \<Rightarrow> Some (((a * 16 + b) * 16 + c) * 16 + d)
      | _ \<Rightarrow> None)"

text \<open>
  \<open>unquote\<close>. Escapes are decoded, a pair of surrogates is one char_code point, a lone surrogate
  and every invalid byte become \<open>RuneError\<close>.
\<close>

definition surrogate_pair :: "nat \<Rightarrow> string \<Rightarrow> nat option" where
  "surrogate_pair r s =
     (case s of
        b # u # s' \<Rightarrow>
          if b = backslash \<and> u = CHR ''u'' then
            (case hex4 s' of
               Some r1 \<Rightarrow> if r < 56320 \<and> 56320 \<le> r1 \<and> r1 < 57344
                          then Some (65536 + (r - 55296) * 1024 + (r1 - 56320)) else None
             | None \<Rightarrow> None)
          else None
      | _ \<Rightarrow> None)"

definition escaped :: "char \<Rightarrow> char" where
  "escaped c =
     (if c = CHR ''b'' then char_of (8 :: nat) else if c = CHR ''f'' then char_of (12 :: nat)
      else if c = CHR ''n'' then char_of (10 :: nat) else if c = CHR ''r'' then char_of (13 :: nat)
      else if c = CHR ''t'' then char_of (9 :: nat) else c)"

function unquote :: "string \<Rightarrow> string" where
  "unquote [] = []"
| "unquote (c # s) =
     (if c = backslash then
        (case s of
           [] \<Rightarrow> []
         | d # s' \<Rightarrow>
             if d = CHR ''u'' then
               (case hex4 s' of
                  None \<Rightarrow> []
                | Some r \<Rightarrow>
                    if 55296 \<le> r \<and> r < 57344 then
                      (case surrogate_pair r (drop 4 s') of
                         Some p \<Rightarrow> utf8_encode p @ unquote (drop 10 s')
                       | None \<Rightarrow> utf8_encode RuneError @ unquote (drop 4 s'))
                    else utf8_encode r @ unquote (drop 4 s'))
             else escaped d # unquote s')
      else if utf8_size (c # s) = 0 then utf8_encode RuneError @ unquote s
      else take (utf8_size (c # s)) (c # s) @ unquote (drop (utf8_size (c # s) - 1) s))"
  by pat_completeness auto
termination by (relation "measure length") auto

declare unquote.simps [simp del]

section \<open>Unmarshal\<close>

text \<open>
  A key selects a field if it is the field's name, or is so under folding of letter case:
  upper and lower case of ASCII, the Kelvin sign for k and the long s for s.
\<close>

definition fold_char :: "char \<Rightarrow> char" where
  "fold_char c = (if 65 \<le> char_code c \<and> char_code c \<le> 90 then char_of (char_code c + 32) else c)"

function fold_name :: "string \<Rightarrow> string" where
  "fold_name [] = []"
| "fold_name (c # s) =
     (if map char_code (take 3 (c # s)) = [226, 132, 170] then CHR ''k'' # fold_name (drop 2 s)
      else if map char_code (take 2 (c # s)) = [197, 191] then CHR ''s'' # fold_name (drop 1 s)
      else fold_char c # fold_name s)"
  by pat_completeness auto
termination by (relation "measure length") auto

declare fold_name.simps [simp del]

definition selects :: "string \<Rightarrow> string \<Rightarrow> bool" where
  "selects key name \<longleftrightarrow> key = name \<or> fold_name key = fold_name name"

text \<open>
  One field of the structure: later members overwrite earlier ones, \<open>null\<close> is ignored, a
  value that is not a string is an error.
\<close>

fun string_field :: "string \<Rightarrow> (string \<times> json) list \<Rightarrow> string \<Rightarrow> string option" where
  "string_field name [] cur = Some cur"
| "string_field name ((k, v) # ms) cur =
     (if selects (unquote k) name then
        (case v of
           JString s \<Rightarrow> string_field name ms (unquote s)
         | JNull \<Rightarrow> string_field name ms cur
         | _ \<Rightarrow> None)
      else string_field name ms cur)"

text \<open>
  \<open>json.Unmarshal\<close> into a zero structure whose fields, all of type string, have the given
  names: \<open>null\<close> leaves it zero, a member that selects no field is ignored, and everything but
  an object is an error, whose text is abbreviated. Then into a slice of such structures.
\<close>

definition unmarshal_struct :: "string list \<Rightarrow> json \<Rightarrow> string list option" where
  "unmarshal_struct names j =
     (case j of
        JObject ms \<Rightarrow> those (map (\<lambda>name. string_field name ms []) names)
      | JNull \<Rightarrow> Some (map (\<lambda>_. []) names)
      | _ \<Rightarrow> None)"

definition unmarshal_strings :: "string list \<Rightarrow> string \<Rightarrow> string list option" where
  "unmarshal_strings names text = Option.bind (json_parse text) (unmarshal_struct names)"

definition unmarshal_slice :: "string list \<Rightarrow> string \<Rightarrow> string list list option" where
  "unmarshal_slice names text =
     (case json_parse text of
        Some (JArray vs) \<Rightarrow> those (map (unmarshal_struct names) vs)
      | Some JNull \<Rightarrow> Some []
      | _ \<Rightarrow> None)"

section \<open>Marshal\<close>

text \<open>
  A byte of ASCII as it is written inside a string: quotes, backslashes, control characters
  and the three characters of HTML are escaped.
\<close>

definition json_char :: "char \<Rightarrow> string" where
  "json_char c =
     (if c = quote \<or> c = backslash then [backslash, c]
      else if char_code c = 10 then [backslash, CHR ''n'']
      else if char_code c = 13 then [backslash, CHR ''r'']
      else if char_code c = 9 then [backslash, CHR ''t'']
      else if char_code c < 32 \<or> char_code c = 38 \<or> char_code c = 60 \<or> char_code c = 62
      then backslash # ''u00'' @ [hextable ! (char_code c div 16), hextable ! (char_code c mod 16)]
      else [c])"

text \<open>
  What a valid sequence of several bytes is written as: U+2028 and U+2029 are escaped.
\<close>

definition json_rune :: "string \<Rightarrow> string" where
  "json_rune r =
     (if map char_code r = [226, 128, 168] then backslash # ''u2028''
      else if map char_code r = [226, 128, 169] then backslash # ''u2029'' else r)"

text \<open>\<open>appendString\<close>: a byte that starts no valid sequence becomes the replacement character.\<close>

function json_escape :: "string \<Rightarrow> string" where
  "json_escape [] = []"
| "json_escape (c # s) =
     (if char_code c < 128 then json_char c @ json_escape s
      else if utf8_size (c # s) = 0 then backslash # ''ufffd'' @ json_escape s
      else json_rune (take (utf8_size (c # s)) (c # s)) @ json_escape (drop (utf8_size (c # s) - 1) s))"
  by pat_completeness auto
termination by (relation "measure length") auto

declare json_escape.simps [simp del]

text \<open>What \<open>json.Marshal\<close> writes for strings, slices and structures.\<close>

fun json_commas :: "string list \<Rightarrow> string" where
  "json_commas [] = []"
| "json_commas [s] = s"
| "json_commas (s # t # ss) = s @ '','' @ json_commas (t # ss)"

fun json_print :: "json \<Rightarrow> string" where
  "json_print JNull = ''null''"
| "json_print (JBool b) = (if b then ''true'' else ''false'')"
| "json_print (JNumber s) = s"
| "json_print (JString s) = quote # s @ [quote]"
| "json_print (JArray vs) = ''['' @ json_commas (map json_print vs) @ '']''"
| "json_print (JObject ms) =
     ''{'' @ json_commas (map (\<lambda>(k, v). quote # k @ [quote] @ '':'' @ json_print v) ms) @ ''}''"

definition json_object :: "(string \<times> string) list \<Rightarrow> json" where
  "json_object fields = JObject (map (\<lambda>(k, s). (json_escape k, JString (json_escape s))) fields)"

end
