(* ===== verification/Announce.thy ===== *)
theory Announce
  imports DogeSpec GoParse GoJson
begin

text \<open>
  The announce service (\<open>internal/announce/announce.go\<close>): it learns the node's public
  address, owner and channels, signs an announcement of them, stores it for the next start,
  and hands it to the net service; every change is collected for ten seconds, and an
  announcement is renewed after a day. The goroutine \<open>Run\<close> is a function that performs one
  step from the program point it is at.
\<close>

section \<open>Constants and state\<close>

definition AnnounceLongevity :: int where "AnnounceLongevity = 24 * Hour"
definition QueueAnnouncement :: int where "QueueAnnouncement = 10 * Second"
definition ReflectorRetry :: int where "ReflectorRetry = 10 * Second"
definition RetryRandom :: int where "RetryRandom = 10"
definition ZeroOwner :: bytes where "ZeroOwner = replicate 32 0"

text \<open>
  A \<open>time.Timer\<close> created by \<open>NewTimer\<close> (with \<open>go 1.20\<close> in \<open>go.mod\<close> its channel is
  buffered): the instant it fires, if it is running, and whether a value is in its channel.
\<close>

record timer =
  tDeadline :: "int option"
  tFired :: bool

definition NewTimer :: "int \<Rightarrow> int \<Rightarrow> timer" where
  "NewTimer now d = \<lparr>tDeadline = Some (now + d), tFired = False\<rparr>"

definition timer_Stop :: "timer \<Rightarrow> bool \<times> timer" where
  "timer_Stop t = (tDeadline t \<noteq> None, t\<lparr>tDeadline := None\<rparr>)"

definition timer_Reset :: "int \<Rightarrow> int \<Rightarrow> timer \<Rightarrow> timer" where
  "timer_Reset now d t = t\<lparr>tDeadline := Some (now + d)\<rparr>"

definition timer_fire :: "int \<Rightarrow> timer \<Rightarrow> timer option" where
  "timer_fire now t =
     (case tDeadline t of
        Some d \<Rightarrow> if d \<le> now then Some \<lparr>tDeadline = None, tFired = True\<rparr> else None
      | None \<Rightarrow> None)"

text \<open>The receive from the timer's channel blocks while the channel is empty.\<close>

definition timer_receive :: "timer \<Rightarrow> timer option" where
  "timer_receive t = (if tFired t then Some (t\<lparr>tFired := False\<rparr>) else None)"

lemmas timer_defs = NewTimer_def timer_Stop_def timer_Reset_def timer_fire_def timer_receive_def

text \<open>
  Where \<open>Run\<close> is: in \<open>fetchPublicAddress\<close> with its backoff, before the announcement is
  loaded, before the first announcement is delivered, before the timer is made, at the head of
  the loop, in its \<open>select\<close>, at the receive that drains the timer, before a renewed
  announcement is delivered, before the timer is restarted; returned, or ended by a panic.
\<close>

datatype ann_pc =
    AFetch int
  | AFetchSleep int
  | ALoad
  | AFirst "(rawMessage \<times> int \<times> bool)"
  | AFirstSent int
  | ALoop
  | ASelect
  | ADrain
  | ANext "(rawMessage \<times> int \<times> bool)"
  | ANextSent int
  | AReturned
  | APanicked

record announce =
  anNodeKey :: keyPair
  anNext :: addressMsg
  anReflector :: bool
  anTimer :: timer
  anPc :: ann_pc

text \<open>\<open>New\<close>, and \<open>Run\<close> up to its first step.\<close>

definition Announce_New :: "gossip \<Rightarrow> address \<Rightarrow> keyPair \<Rightarrow> bool \<Rightarrow> announce" where
  "Announce_New G public key reflector =
     \<lparr>anNodeKey = key,
      anNext = \<lparr>amTime = 0, amAddress = To16 (Host public), amPort = Port public, amOwner = ZeroOwner,
                amChannels = [], amServices = [\<lparr>svcTag = ServiceCore G, svcPort = 22556\<rparr>]\<rparr>,
      anReflector = reflector, anTimer = \<lparr>tDeadline = None, tFired = False\<rparr>,
      anPc = (if reflector then AFetch ReflectorRetry else ALoad)\<rparr>"

section \<open>fetchPublicAddress\<close>

text \<open>\<open>json.Unmarshal\<close> into a \<open>MyIPResult\<close>, whose one field is the text of the address.\<close>

definition unmarshal_MyIPResult :: "string \<Rightarrow> goerr + string" where
  "unmarshal_MyIPResult body =
     (case unmarshal_strings [''ip''] body of
        Some [text] \<Rightarrow> Inr text
      | _ \<Rightarrow> Inl (OpaqueError ''encoding/json''))"

text \<open>
  \<open>fetchJson\<close>: the answer of \<open>http.Get\<close> is an error or a status with the body that could be
  read. The texts of the errors are abbreviated.
\<close>

type_synonym http_answer = "goerr + int \<times> (goerr + string)"

definition fetchJson :: "http_answer \<Rightarrow> goerr + string" where
  "fetchJson res =
     (case res of
        Inl e \<Rightarrow> Inl (OpaqueError ''fetch'')
      | Inr (status, body) \<Rightarrow>
          if status \<noteq> 200 then Inl (OpaqueError ''fetch: status'')
          else (case body of
                  Inl e \<Rightarrow> Inl (OpaqueError ''fetch'')
                | Inr b \<Rightarrow>
                    (case unmarshal_MyIPResult b of
                       Inl e \<Rightarrow> Inl (OpaqueError ''fetch: json decode'')
                     | Inr result \<Rightarrow> Inr result)))"

text \<open>The backoff after a failed attempt; \<open>time.Duration\<close> counts nanoseconds.\<close>

definition next_backoff :: "int \<Rightarrow> int" where
  "next_backoff backoff = (let b = backoff + 5 in if b > 60 then 60 else b)"

text \<open>The shortest and the longest time \<open>ns.Sleep\<close> may then wait; \<open>r\<close> is \<open>rand.Intn(10)\<close>.\<close>

definition retry_sleep :: "int \<Rightarrow> int \<Rightarrow> int" where
  "retry_sleep backoff r = backoff + r * Second"

definition fetch_attempt :: "gossip \<Rightarrow> http_answer \<Rightarrow> int \<Rightarrow> announce \<Rightarrow> announce" where
  "fetch_attempt G res backoff a =
     (case fetchJson res of
        Inl e \<Rightarrow> a\<lparr>anPc := AFetchSleep (next_backoff backoff)\<rparr>
      | Inr text \<Rightarrow>
          let ip = ParseIP text in
          if ip \<noteq> [] \<and> To16 ip \<noteq> []
          then a\<lparr>anNext := (anNext a)\<lparr>amAddress := To16 ip, amPort := DogeNetDefaultPort G\<rparr>, anPc := ALoad\<rparr>
          else a\<lparr>anPc := AFetchSleep (next_backoff backoff)\<rparr>)"

section \<open>Signing and loading an announcement\<close>

text \<open>A call returns, never returns (in the store), or panics.\<close>

datatype 'a call = Returns 'a | Hangs | Panics

text \<open>
  \<open>generateAnnounce\<close>. Errors of the two store calls are only logged.
\<close>

definition generateAnnounce :: "gossip \<Rightarrow> 's store \<Rightarrow> int \<Rightarrow> keyPair \<Rightarrow> addressMsg \<Rightarrow> 's \<Rightarrow>
    ((rawMessage \<times> int \<times> bool) \<times> 's) call" where
  "generateAnnounce G S now key newMsg0 s =
     (if \<not> AddrMsgIsValid G newMsg0
      then Returns ((\<lparr>Header = [], Payload = []\<rparr>, AnnounceLongevity, False), s)
      else
        let newMsg = newMsg0\<lparr>amTime := UnixToDoge G now\<rparr>;
            payload = EncodeAddrMsg G newMsg;
            msg = EncodeMessage G (ChannelNode G) (TagAddress G) key payload;
            sig = ViewSignature G msg
        in (case st_SetAnnounce S payload sig (Unix (now + AnnounceLongevity)) s of
              None \<Rightarrow> Hangs
            | Some (e1, s1) \<Rightarrow>
                (case st_AddNetNode S (Pub key) \<lparr>Host = amAddress newMsg, Port = amPort newMsg\<rparr>
                        (Unix (DogeLocal G (amTime newMsg))) (amOwner newMsg) (amChannels newMsg)
                        payload sig s1 of
                   None \<Rightarrow> Hangs
                 | Some (e2, s2) \<Rightarrow>
                     Returns ((\<lparr>Header = ViewHeader G msg, Payload = payload\<rparr>, AnnounceLongevity, True), s2))))"

definition with_state :: "announce \<Rightarrow> ('r \<times> 's) call \<Rightarrow> ('r \<times> announce \<times> 's) call" where
  "with_state a c =
     (case c of Returns (r, s) \<Rightarrow> Returns (r, a, s) | Hangs \<Rightarrow> Hangs | Panics \<Rightarrow> Panics)"

text \<open>
  \<open>loadOrGenerateAnnounce\<close>, first its end, where the stored announcement has been read: \<open>now\<close>
  is the clock it reads, \<open>now'\<close> the clock \<open>generateAnnounce\<close> reads. \<open>DecodeAddrMsg\<close> may
  panic here, and nothing recovers.
\<close>

definition reuse_or_generate :: "gossip \<Rightarrow> 's store \<Rightarrow> int \<Rightarrow> int \<Rightarrow> announce \<Rightarrow> bytes \<Rightarrow> bytes \<Rightarrow> int \<Rightarrow> 's \<Rightarrow>
    ((rawMessage \<times> int \<times> bool) \<times> announce \<times> 's) call" where
  "reuse_or_generate G S now now' a oldPayload sig expires s =
     (if \<not> AddrMsgIsValid G (anNext a)
      then Returns ((\<lparr>Header = [], Payload = []\<rparr>, AnnounceLongevity, False), a, s)
      else if length oldPayload \<ge> AddrMsgMinSize G \<and> length sig = 64 \<and> Unix now < expires
      then (case DecodeAddrMsg G oldPayload of
              None \<Rightarrow> Panics
            | Some oldMsg \<Rightarrow>
                let newMsg = (anNext a)\<lparr>amTime := amTime oldMsg\<rparr> in
                if EncodeAddrMsg G newMsg = oldPayload
                then Returns ((ReEncodeMessage G (ChannelNode G) (TagAddress G) (Pub (anNodeKey a)) sig oldPayload,
                       (expires - Unix now) * Second, True), a, s)
                else with_state a (generateAnnounce G S now' (anNodeKey a) (anNext a) s))
      else with_state a (generateAnnounce G S now' (anNodeKey a) (anNext a) s))"

definition loadOrGenerateAnnounce :: "gossip \<Rightarrow> 's store \<Rightarrow> int \<Rightarrow> int \<Rightarrow> announce \<Rightarrow> 's \<Rightarrow>
    ((rawMessage \<times> int \<times> bool) \<times> announce \<times> 's) call" where
  "loadOrGenerateAnnounce G S now now' a s =
     (case st_GetChannels S s of
        None \<Rightarrow> Hangs
      | Some ((channels, Some e), s1) \<Rightarrow>
          Returns ((\<lparr>Header = [], Payload = []\<rparr>, AnnounceLongevity, False), a, s1)
      | Some ((channels, None), s1) \<Rightarrow>
          let a1 = a\<lparr>anNext := (anNext a)\<lparr>amChannels := sort channels\<rparr>\<rparr> in
          (case st_GetAnnounce S s1 of
             None \<Rightarrow> Hangs
           | Some ((oldPayload, sig, expires, owner, Some e), s2) \<Rightarrow>
               with_state a1 (generateAnnounce G S now' (anNodeKey a1) (anNext a1) s2)
           | Some ((oldPayload, sig, expires, owner, None), s2) \<Rightarrow>
               let a2 = (if length owner = 32 then a1\<lparr>anNext := (anNext a1)\<lparr>amOwner := owner\<rparr>\<rparr> else a1) in
               reuse_or_generate G S now now' a2 oldPayload sig expires s2))"

section \<open>Changes\<close>

text \<open>The comparison of two lists of channels of one length, position by position.\<close>

fun channels_differ :: "tag4cc list \<Rightarrow> tag4cc list \<Rightarrow> bool" where
  "channels_differ (ch # channels) (c # current) = (ch \<noteq> c \<or> channels_differ channels current)"
| "channels_differ _ _ = False"

text \<open>
  The cases of the change message: \<open>None\<close> where the store call does not return, else whether
  the case falls through to the timer instead of leaving by \<open>continue\<close>.
\<close>

definition apply_change :: "'s store \<Rightarrow> change \<Rightarrow> announce \<Rightarrow> 's \<Rightarrow> (bool \<times> announce \<times> 's) option" where
  "apply_change S change a s =
     (case change of
        ChangePublicAddress addr \<Rightarrow>
          Some (True, a\<lparr>anNext := (anNext a)\<lparr>amAddress := To16 (Host addr), amPort := Port addr\<rparr>\<rparr>, s)
      | ChangeOwnerKey key \<Rightarrow>
          if amOwner (anNext a) = key then Some (False, a, s)
          else
            (case st_SetAnnounceOwner S key s of
               None \<Rightarrow> None
             | Some (e, s1) \<Rightarrow> Some (True, a\<lparr>anNext := (anNext a)\<lparr>amOwner := key\<rparr>\<rparr>, s1))
      | ChangeChannel chan \<Rightarrow>
          (case st_GetChannels S s of
             None \<Rightarrow> None
           | Some ((channels, Some e), s1) \<Rightarrow> Some (False, a, s1)
           | Some ((channels, None), s1) \<Rightarrow>
               let current = amChannels (anNext a) in
               if length channels = length current then
                 let sorted_channels = sort channels in
                 if \<not> channels_differ sorted_channels current then Some (False, a, s1)
                 else Some (True, a\<lparr>anNext := (anNext a)\<lparr>amChannels := sorted_channels\<rparr>\<rparr>, s1)
               else Some (True, a\<lparr>anNext := (anNext a)\<lparr>amChannels := channels\<rparr>\<rparr>, s1))
      | InvalidChange \<Rightarrow> Some (False, a, s))"

text \<open>The reset of the timer after a change that was not ignored.\<close>

definition after_change :: "gossip \<Rightarrow> int \<Rightarrow> announce \<Rightarrow> announce" where
  "after_change G now a =
     (if AddrMsgIsValid G (anNext a) then
        (case timer_Stop (anTimer a) of
           (True, t) \<Rightarrow> a\<lparr>anTimer := timer_Reset now QueueAnnouncement t, anPc := ALoop\<rparr>
         | (False, t) \<Rightarrow> a\<lparr>anTimer := t, anPc := ADrain\<rparr>)
      else a\<lparr>anPc := ALoop\<rparr>)"

section \<open>Run\<close>

text \<open>
  What the environment decides: which ready case of the \<open>select\<close> is taken, the answer of the
  reflector. \<open>AFire\<close> is the runtime firing the timer.
\<close>

datatype ann_event =
    AGo
  | AChange
  | ATimer
  | ADone'
  | AAnswer http_answer
  | AFire

text \<open>
  One step: the queue of changes, the store and the service before and after, and the
  announcement handed to \<open>ReceiveAnnounce\<close>, if any. \<open>None\<close> where the goroutine waits or hangs.
\<close>

type_synonym 's ann_result = "(announce \<times> change list \<times> 's \<times> rawMessage option) option"

definition deliver :: "rawMessage \<times> int \<times> bool \<Rightarrow> rawMessage option" where
  "deliver r = (case r of (msg, remain, ok) \<Rightarrow> if ok then Some msg else None)"

definition ann_select :: "gossip \<Rightarrow> 's store \<Rightarrow> ann_event \<Rightarrow> bool \<Rightarrow> int \<Rightarrow> announce \<Rightarrow> change list \<Rightarrow> 's \<Rightarrow>
    's ann_result" where
  "ann_select G S ev stopping now a q s =
     (case ev of
        AChange \<Rightarrow>
          (case q of
             [] \<Rightarrow> None
           | change # q' \<Rightarrow>
               (case apply_change S change a s of
                  None \<Rightarrow> None
                | Some (False, a1, s1) \<Rightarrow> Some (a1\<lparr>anPc := ALoop\<rparr>, q', s1, None)
                | Some (True, a1, s1) \<Rightarrow> Some (after_change G now a1, q', s1, None)))
      | ATimer \<Rightarrow>
          (case timer_receive (anTimer a) of
             None \<Rightarrow> None
           | Some t \<Rightarrow>
               (case generateAnnounce G S now (anNodeKey a) (anNext a) s of
                  Returns (r, s1) \<Rightarrow> Some (a\<lparr>anTimer := t, anPc := ANext r\<rparr>, q, s1, None)
                | _ \<Rightarrow> None))
      | ADone' \<Rightarrow>
          if stopping then Some (a\<lparr>anTimer := snd (timer_Stop (anTimer a)), anPc := AReturned\<rparr>, q, s, None)
          else None
      | _ \<Rightarrow> None)"

definition Announce_Run :: "gossip \<Rightarrow> 's store \<Rightarrow> ann_event \<Rightarrow> bool \<Rightarrow> int \<Rightarrow> int \<Rightarrow>
    announce \<Rightarrow> change list \<Rightarrow> 's \<Rightarrow> 's ann_result" where
  "Announce_Run G S ev stopping now now' a q s =
     (if ev = AFire then map_option (\<lambda>t. (a\<lparr>anTimer := t\<rparr>, q, s, None)) (timer_fire now (anTimer a))
      else case anPc a of
        AFetch backoff \<Rightarrow>
          if stopping then (if ev = AGo then Some (a\<lparr>anPc := ALoad\<rparr>, q, s, None) else None)
          else (case ev of
                  AAnswer res \<Rightarrow> Some (fetch_attempt G res backoff a, q, s, None)
                | _ \<Rightarrow> None)
      | AFetchSleep backoff \<Rightarrow> if ev = AGo then Some (a\<lparr>anPc := AFetch backoff\<rparr>, q, s, None) else None
      | ALoad \<Rightarrow>
          if ev \<noteq> AGo then None
          else (case loadOrGenerateAnnounce G S now now' a s of
                  Hangs \<Rightarrow> None
                | Panics \<Rightarrow> Some (a\<lparr>anPc := APanicked\<rparr>, q, s, None)
                | Returns (r, a1, s1) \<Rightarrow> Some (a1\<lparr>anPc := AFirst r\<rparr>, q, s1, None))
      | AFirst r \<Rightarrow>
          if ev \<noteq> AGo then None
          else Some (a\<lparr>anPc := AFirstSent (fst (snd r))\<rparr>, q, s, deliver r)
      | AFirstSent remain \<Rightarrow>
          if ev \<noteq> AGo then None else Some (a\<lparr>anTimer := NewTimer now remain, anPc := ALoop\<rparr>, q, s, None)
      | ALoop \<Rightarrow> if ev = AGo then Some (a\<lparr>anPc := (if stopping then AReturned else ASelect)\<rparr>, q, s, None) else None
      | ASelect \<Rightarrow> ann_select G S ev stopping now a q s
      | ADrain \<Rightarrow>
          if ev \<noteq> AGo then None
          else map_option (\<lambda>t. (a\<lparr>anTimer := timer_Reset now QueueAnnouncement t, anPc := ALoop\<rparr>, q, s, None))
                 (timer_receive (anTimer a))
      | ANext r \<Rightarrow>
          if ev \<noteq> AGo then None
          else Some (a\<lparr>anPc := ANextSent (fst (snd r))\<rparr>, q, s, deliver r)
      | ANextSent remain \<Rightarrow>
          if ev \<noteq> AGo then None
          else Some (a\<lparr>anTimer := timer_Reset now remain (anTimer a), anPc := ALoop\<rparr>, q, s, None)
      | AReturned \<Rightarrow> None
      | APanicked \<Rightarrow> None)"

end
