(* ===== verification/AnnounceLoop.thy ===== *)
theory AnnounceLoop
  imports Announce StoreIface
begin

text \<open>
  The announce service under any store and any environment: the states its goroutine can
  reach, the state of its timer at each program point, and the reflector's backoff; then,
  over any store that keeps the contract \<open>announce_store\<close>, what is signed, stored and
  re-used.
\<close>

section \<open>Reachable states\<close>

text \<open>
  The queue, the store, the clock and the shutdown are the environment's: any values at any
  step.
\<close>

inductive ann_reachable :: "gossip \<Rightarrow> 's store \<Rightarrow> announce \<Rightarrow> bool" for G S where
  ann_start: "ann_reachable G S (Announce_New G public key reflector)"
| ann_step: "ann_reachable G S a \<Longrightarrow>
     Announce_Run G S ev stopping now now' a q s = Some (a', q', s', out) \<Longrightarrow> ann_reachable G S a'"

text \<open>The timer at each program point, and the backoff, which counts nanoseconds.\<close>

definition timer_ok :: "announce \<Rightarrow> bool" where
  "timer_ok a \<longleftrightarrow>
     (case anPc a of
        AFetch b \<Rightarrow> (b = ReflectorRetry \<or> b = 60) \<and> tDeadline (anTimer a) = None
      | AFetchSleep b \<Rightarrow> b = 60 \<and> tDeadline (anTimer a) = None
      | ALoad \<Rightarrow> tDeadline (anTimer a) = None
      | AFirst r \<Rightarrow> tDeadline (anTimer a) = None
      | AFirstSent r \<Rightarrow> tDeadline (anTimer a) = None
      | ALoop \<Rightarrow> tFired (anTimer a) \<longleftrightarrow> tDeadline (anTimer a) = None
      | ASelect \<Rightarrow> tFired (anTimer a) \<longleftrightarrow> tDeadline (anTimer a) = None
      | ADrain \<Rightarrow> tFired (anTimer a) \<and> tDeadline (anTimer a) = None
      | ANext r \<Rightarrow> \<not> tFired (anTimer a) \<and> tDeadline (anTimer a) = None
      | ANextSent r \<Rightarrow> \<not> tFired (anTimer a) \<and> tDeadline (anTimer a) = None
      | _ \<Rightarrow> True)"

lemma apply_change_fields:
  "apply_change S c a s = Some (b, a', s') \<Longrightarrow>
   anTimer a' = anTimer a \<and> anPc a' = anPc a \<and> anNodeKey a' = anNodeKey a \<and> anReflector a' = anReflector a"
  by (cases c) (auto simp: apply_change_def Let_def split: if_splits option.splits prod.splits)

lemma with_state_Returns: "with_state a c = Returns (r, a', s') \<longleftrightarrow> a' = a \<and> c = Returns (r, s')"
  by (cases c) (auto simp: with_state_def)

lemma load_fields:
  "loadOrGenerateAnnounce G S now now' a s = Returns (r, a', s') \<Longrightarrow>
   anTimer a' = anTimer a \<and> anPc a' = anPc a \<and> anNodeKey a' = anNodeKey a \<and> anReflector a' = anReflector a"
  by (auto simp: loadOrGenerateAnnounce_def reuse_or_generate_def with_state_Returns Let_def
      split: option.splits prod.splits if_splits)

lemma after_change_timer:
  "tFired (anTimer a) \<longleftrightarrow> tDeadline (anTimer a) = None \<Longrightarrow> timer_ok (after_change G now a)"
  by (auto simp: after_change_def timer_ok_def timer_defs)

lemma timer_ok_fire:
  assumes "timer_fire now (anTimer a) = Some t" "timer_ok a"
  shows "timer_ok (a\<lparr>anTimer := t\<rparr>)"
  using assms by (auto simp: timer_ok_def timer_fire_def split: ann_pc.splits option.splits if_splits)

lemma timer_ok_select:
  assumes "ann_select G S ev st now a q s = Some (a', q', s', out)" "anPc a = ASelect" "timer_ok a"
  shows "timer_ok a'"
proof -
  have t: "tFired (anTimer a) \<longleftrightarrow> tDeadline (anTimer a) = None"
    using assms(2,3) by (simp add: timer_ok_def)
  show ?thesis
  proof (cases ev)
    case AChange
    then obtain c q1 b a1 s1 where c: "apply_change S c a s = Some (b, a1, s1)"
      "a' = (if b then after_change G now a1 else a1\<lparr>anPc := ALoop\<rparr>)"
      using assms(1) by (auto simp: ann_select_def split: list.splits option.splits prod.splits bool.splits)
    then have "tFired (anTimer a1) \<longleftrightarrow> tDeadline (anTimer a1) = None"
      using apply_change_fields [OF c(1)] t by simp
    then show ?thesis using c(2) after_change_timer [of a1 G now] by (simp add: timer_ok_def)
  next
    case ATimer
    then show ?thesis
      using assms(1) t by (auto simp: ann_select_def timer_ok_def timer_receive_def
          split: option.splits call.splits if_splits prod.splits)
  qed (use assms(1) in \<open>auto simp: ann_select_def timer_ok_def split: if_splits\<close>)
qed

lemma timer_ok_step:
  assumes "Announce_Run G S ev st now now' a q s = Some (a', q', s', out)" "timer_ok a"
  shows "timer_ok a'"
proof (cases "ev = AFire")
  case True
  then show ?thesis using assms timer_ok_fire by (auto simp: Announce_Run_def)
next
  case False
  show ?thesis
  proof (cases "anPc a")
    case (AFetch b)
    then show ?thesis
      using assms False
      by (auto simp: Announce_Run_def timer_ok_def fetch_attempt_def next_backoff_def ReflectorRetry_def
          Second_def Let_def split: if_splits ann_event.splits sum.splits)
  next
    case ALoad
    then show ?thesis
      using assms False by (auto simp: Announce_Run_def timer_ok_def dest!: load_fields
          split: if_splits call.splits prod.splits)
  next
    case ASelect
    then show ?thesis using assms False timer_ok_select by (simp add: Announce_Run_def)
  qed (use assms False in \<open>auto simp: Announce_Run_def timer_ok_def timer_defs split: if_splits\<close>)
qed

lemma ann_reachable_timer: "ann_reachable G S a \<Longrightarrow> timer_ok a"
proof (induction rule: ann_reachable.induct)
  case (ann_start public key reflector)
  show ?case by (simp add: Announce_New_def timer_ok_def)
next
  case (ann_step a ev st now now' q s a' q' s' out)
  show ?case by (rule timer_ok_step [OF ann_step(2,3)])
qed

section \<open>What is signed\<close>

text \<open>The payload and the signed message that \<open>generateAnnounce\<close> makes at an instant.\<close>

definition signed_payload :: "gossip \<Rightarrow> int \<Rightarrow> addressMsg \<Rightarrow> bytes" where
  "signed_payload G now m = EncodeAddrMsg G (m\<lparr>amTime := UnixToDoge G now\<rparr>)"

definition signed_packet :: "gossip \<Rightarrow> int \<Rightarrow> keyPair \<Rightarrow> addressMsg \<Rightarrow> bytes" where
  "signed_packet G now key m = EncodeMessage G (ChannelNode G) (TagAddress G) key (signed_payload G now m)"

definition signed_expiry :: "int \<Rightarrow> int" where
  "signed_expiry now = Unix (now + AnnounceLongevity)"

text \<open>
  Announcements of this node: signed by its key over a valid description of the node, as
  made now or rebuilt from the stored payload and signature.
\<close>

definition own_announcement :: "gossip \<Rightarrow> keyPair \<Rightarrow> rawMessage \<Rightarrow> bool" where
  "own_announcement G key msg \<longleftrightarrow>
     (\<exists>m t. AddrMsgIsValid G m \<and>
        (msg = \<lparr>Header = ViewHeader G (signed_packet G t key m), Payload = signed_payload G t m\<rparr> \<or>
         msg = ReEncodeMessage G (ChannelNode G) (TagAddress G) (Pub key)
           (ViewSignature G (signed_packet G t key m)) (signed_payload G t m)))"

text \<open>The stored announcement is none, or one of this node's.\<close>

definition own_stored :: "gossip \<Rightarrow> keyPair \<Rightarrow> bytes \<times> bytes \<times> int \<times> bytes \<Rightarrow> bool" where
  "own_stored G key st \<longleftrightarrow> length (fst st) < AddrMsgMinSize G \<or>
     (\<exists>m t. AddrMsgIsValid G m \<and> fst st = signed_payload G t m \<and>
        fst (snd st) = ViewSignature G (signed_packet G t key m))"

text \<open>What the library promises of its codec: encodings of valid announcements decode.\<close>

definition codec_total :: "gossip \<Rightarrow> bool" where
  "codec_total G \<longleftrightarrow> (\<forall>m t. AddrMsgIsValid G m \<longrightarrow> DecodeAddrMsg G (signed_payload G t m) \<noteq> None)"

lemmas signed_defs = signed_payload_def signed_packet_def signed_expiry_def

text \<open>The stored announcement can be sent again as it is.\<close>

definition reusable :: "gossip \<Rightarrow> int \<Rightarrow> addressMsg \<Rightarrow> bytes \<times> bytes \<times> int \<times> bytes \<Rightarrow> bool" where
  "reusable G now m st \<longleftrightarrow>
     (case st of (payload, sig, expires, owner) \<Rightarrow>
        AddrMsgMinSize G \<le> length payload \<and> length sig = 64 \<and> Unix now < expires \<and>
        (\<exists>old. DecodeAddrMsg G payload = Some old \<and> EncodeAddrMsg G (m\<lparr>amTime := amTime old\<rparr>) = payload))"

text \<open>The owner a restart takes over from the store.\<close>

definition stored_owner :: "bytes \<Rightarrow> addressMsg \<Rightarrow> addressMsg" where
  "stored_owner owner m = (if length owner = 32 then m\<lparr>amOwner := owner\<rparr> else m)"

context announce_store
begin

lemma generate_contract:
  assumes "generateAnnounce G S now key m s = Returns ((msg, remain, ok), s')" "valid s"
  shows "valid s' \<and> chans s' = chans s \<and> remain = AnnounceLongevity \<and> (ok \<longleftrightarrow> AddrMsgIsValid G m) \<and>
    (\<not> ok \<longrightarrow> s' = s) \<and>
    (ok \<longrightarrow>
       msg = \<lparr>Header = ViewHeader G (signed_packet G now key m), Payload = signed_payload G now m\<rparr> \<and>
       (ann s' = ann s \<or> ann s' = (signed_payload G now m, ViewSignature G (signed_packet G now key m),
          signed_expiry now, snd (snd (snd (ann s))))) \<and>
       (nodes s' = nodes s \<or>
        nodes s' = (nodes s)(Pub key \<mapsto> (signed_payload G now m, ViewSignature G (signed_packet G now key m)))))"
proof (cases "AddrMsgIsValid G m")
  case False
  then show ?thesis using assms by (auto simp: generateAnnounce_def)
next
  case True
  let ?m = "m\<lparr>amTime := UnixToDoge G now\<rparr>" and ?pl = "signed_payload G now m"
    and ?sig = "ViewSignature G (signed_packet G now key m)"
  obtain e1 s1 changed e2 where
    c1: "st_SetAnnounce S ?pl ?sig (signed_expiry now) s = Some (e1, s1)" and
    c2: "st_AddNetNode S (Pub key) \<lparr>Host = amAddress ?m, Port = amPort ?m\<rparr> (Unix (DogeLocal G (amTime ?m)))
       (amOwner ?m) (amChannels ?m) ?pl ?sig s1 = Some ((changed, e2), s')" and
    r: "msg = \<lparr>Header = ViewHeader G (signed_packet G now key m), Payload = ?pl\<rparr>" "remain = AnnounceLongevity" "ok"
    using assms(1) True
    by (auto simp: generateAnnounce_def signed_defs Let_def split: option.splits prod.splits)
  have 1: "valid s1 \<and> nodes s1 = nodes s \<and> chans s1 = chans s \<and>
       ann s1 = (if e1 = None then (?pl, ?sig, signed_expiry now, snd (snd (snd (ann s)))) else ann s)"
    by (rule SetAnnounce_law [OF assms(2) c1])
  have 2: "ann s' = ann s1 \<and> chans s' = chans s1" "valid s'"
    using AddNetNode_ann [OF _ c2] AddNetNode_inv [OF _ c2] 1 by auto
  have 3: "nodes s' = nodes s1 \<or> nodes s' = (nodes s1)(Pub key \<mapsto> (?pl, ?sig))"
    using AddNetNode_law [of s1 "Pub key" "\<lparr>Host = amAddress ?m, Port = amPort ?m\<rparr>"
        "Unix (DogeLocal G (amTime ?m))" "amOwner ?m" "amChannels ?m" ?pl ?sig] c2 1
    by (cases e2) (auto split: if_splits)
  show ?thesis using 1 2 3 r True by auto
qed

text \<open>A run without store errors leaves the node visible in its own store.\<close>

lemma generate_stored:
  assumes "generateAnnounce G S now key m s = Returns ((msg, remain, True), s')" "valid s"
    and "st_SetAnnounce S (signed_payload G now m) (ViewSignature G (signed_packet G now key m)) (signed_expiry now) s =
      Some (None, s1)"
  shows "ann s' = (signed_payload G now m, ViewSignature G (signed_packet G now key m), signed_expiry now,
      snd (snd (snd (ann s))))"
proof -
  have "AddrMsgIsValid G m" using generate_contract [OF assms(1,2)] by simp
  then obtain c where "st_AddNetNode S (Pub key) \<lparr>Host = amAddress m, Port = amPort m\<rparr>
      (Unix (DogeLocal G (UnixToDoge G now))) (amOwner m) (amChannels m) (signed_payload G now m)
      (ViewSignature G (signed_packet G now key m)) s1 = Some (c, s')"
    using assms(1,3) by (auto simp: generateAnnounce_def signed_defs Let_def split: option.splits prod.splits)
  moreover have "valid s1 \<and> ann s1 = (signed_payload G now m, ViewSignature G (signed_packet G now key m),
      signed_expiry now, snd (snd (snd (ann s))))"
    using SetAnnounce_law [OF assms(2,3)] by simp
  ultimately show ?thesis using AddNetNode_ann [of s1] by (cases c) auto
qed

text \<open>Which announcement the service starts with, when both store calls succeed.\<close>

lemma load_contract:
  assumes "loadOrGenerateAnnounce G S now now' a s = Returns ((msg, remain, ok), a', s')" "valid s"
    and "st_GetChannels S s = Some ((cs, None), s1)" "st_GetAnnounce S s1 = Some ((pl, sg, ex, ow, None), s2)"
  shows "anNext a' = stored_owner ow ((anNext a)\<lparr>amChannels := sort cs\<rparr>) \<and> (ok \<longleftrightarrow> AddrMsgIsValid G (anNext a')) \<and>
    (ok \<and> reusable G now (anNext a') (ann s) \<longrightarrow>
       msg = ReEncodeMessage G (ChannelNode G) (TagAddress G) (Pub (anNodeKey a)) (fst (snd (ann s))) (fst (ann s)) \<and>
       remain = (fst (snd (snd (ann s))) - Unix now) * Second \<and> ann s' = ann s \<and> nodes s' = nodes s) \<and>
    (ok \<and> \<not> reusable G now (anNext a') (ann s) \<longrightarrow>
       msg = \<lparr>Header = ViewHeader G (signed_packet G now' (anNodeKey a) (anNext a')),
              Payload = signed_payload G now' (anNext a')\<rparr> \<and>
       remain = AnnounceLongevity)"
proof -
  let ?a1 = "a\<lparr>anNext := (anNext a)\<lparr>amChannels := sort cs\<rparr>\<rparr>"
  let ?a2 = "if length ow = 32 then ?a1\<lparr>anNext := (anNext ?a1)\<lparr>amOwner := ow\<rparr>\<rparr> else ?a1"
  have 1: "valid s1" "ann s1 = ann s" "nodes s1 = nodes s"
    using GetChannels_law [OF assms(2,3)] by auto
  have 2: "valid s2" "ann s2 = ann s" "nodes s2 = nodes s" "(pl, sg, ex, ow) = ann s"
    using GetAnnounce_law [OF 1(1) assms(4)] 1(2,3) by auto
  obtain a2 where a2: "a2 = ?a2" by blast
  have n: "anNext a2 = stored_owner ow ((anNext a)\<lparr>amChannels := sort cs\<rparr>)" "anNodeKey a2 = anNodeKey a"
    by (simp_all add: a2 stored_owner_def)
  have st: "fst (ann s) = pl" "fst (snd (ann s)) = sg" "fst (snd (snd (ann s))) = ex"
    using 2(4) by (metis fst_conv snd_conv)+
  have ru: "reusable G now m (ann s) \<longleftrightarrow> AddrMsgMinSize G \<le> length pl \<and> length sg = 64 \<and> Unix now < ex \<and>
      (\<exists>old. DecodeAddrMsg G pl = Some old \<and> EncodeAddrMsg G (m\<lparr>amTime := amTime old\<rparr>) = pl)" for m
    by (simp add: reusable_def 2(4) [symmetric])
  let ?gen = "with_state a2 (generateAnnounce G S now' (anNodeKey a) (anNext a2) s2)"
  have body: "reuse_or_generate G S now now' a2 pl sg ex s2 = Returns ((msg, remain, ok), a', s')"
    using assms(1,3,4) unfolding loadOrGenerateAnnounce_def Let_def a2 by simp
  consider (invalid) "\<not> AddrMsgIsValid G (anNext a2)"
    | (reuse) old where "AddrMsgIsValid G (anNext a2)" "reusable G now (anNext a2) (ann s)"
      "DecodeAddrMsg G pl = Some old" "EncodeAddrMsg G ((anNext a2)\<lparr>amTime := amTime old\<rparr>) = pl"
    | (sign) "AddrMsgIsValid G (anNext a2)" "\<not> reusable G now (anNext a2) (ann s)"
    by (auto simp: ru)
  then show ?thesis
  proof cases
    case invalid
    then have "a' = a2" "\<not> ok" using body by (auto simp: reuse_or_generate_def)
    then show ?thesis using invalid n by simp
  next
    case reuse
    moreover from this(2) have "AddrMsgMinSize G \<le> length pl" "length sg = 64" "Unix now < ex"
      by (simp_all add: ru)
    ultimately show ?thesis using body n st 2(2,3) by (auto simp: reuse_or_generate_def)
  next
    case sign
    then have "?gen = Returns ((msg, remain, ok), a', s')"
      using body n(2) by (auto simp: reuse_or_generate_def ru split: if_splits option.splits)
    then have g: "a' = a2" "generateAnnounce G S now' (anNodeKey a) (anNext a2) s2 = Returns ((msg, remain, ok), s')"
      by (auto simp: with_state_Returns)
    from generate_contract [OF g(2) 2(1)] show ?thesis using sign g(1) n by simp
  qed
qed

text \<open>Nothing but this node's announcements is sent or stored, and loading never panics.\<close>

lemma generate_own:
  assumes "generateAnnounce G S now key m s = Returns ((msg, remain, ok), s')" "valid s"
    and "own_stored G key (ann s)"
  shows "(ok \<longrightarrow> own_announcement G key msg) \<and> own_stored G key (ann s') \<and> valid s'"
proof -
  have new: "own_stored G key (signed_payload G now m, ViewSignature G (signed_packet G now key m), t, ow)"
    "own_announcement G key \<lparr>Header = ViewHeader G (signed_packet G now key m), Payload = signed_payload G now m\<rparr>"
    if "AddrMsgIsValid G m" for t ow
    using that unfolding own_stored_def own_announcement_def by auto
  then show ?thesis using generate_contract [OF assms(1,2)] assms(3) by (cases ok) auto
qed

lemma reuse_own:
  assumes "reuse_or_generate G S now now' a pl sg ex s = c" "valid s" "codec_total G"
    and "own_stored G (anNodeKey a) (ann s)" "own_stored G (anNodeKey a) (pl, sg, ex, ow)"
  shows "c \<noteq> Panics \<and> (\<forall>msg remain ok a' s'. c = Returns ((msg, remain, ok), a', s') \<longrightarrow>
     (ok \<longrightarrow> own_announcement G (anNodeKey a) msg) \<and> own_stored G (anNodeKey a) (ann s') \<and> valid s')"
proof -
  have gen: "generateAnnounce G S now' k m s \<noteq> Panics" for k m
    by (auto simp: generateAnnounce_def Let_def split: option.splits prod.splits)
  have dec: "DecodeAddrMsg G pl \<noteq> None \<and>
      own_announcement G (anNodeKey a) (ReEncodeMessage G (ChannelNode G) (TagAddress G) (Pub (anNodeKey a)) sg pl)"
    if "AddrMsgMinSize G \<le> length pl"
    using that assms(3,5) by (auto simp: own_stored_def codec_total_def own_announcement_def)
  show ?thesis
    using assms(1,2,4) gen [of "anNodeKey a" "anNext a"] dec generate_own [OF _ assms(2,4)]
    by (auto simp: reuse_or_generate_def Let_def with_state_def split: if_splits option.splits call.splits)
qed

lemma load_own:
  assumes "loadOrGenerateAnnounce G S now now' a s = c" "valid s" "codec_total G"
    and "own_stored G (anNodeKey a) (ann s)"
  shows "c \<noteq> Panics \<and> (\<forall>msg remain ok a' s'. c = Returns ((msg, remain, ok), a', s') \<longrightarrow>
     (ok \<longrightarrow> own_announcement G (anNodeKey a) msg) \<and> own_stored G (anNodeKey a) (ann s') \<and> valid s')"
proof (cases "st_GetChannels S s")
  case None
  then show ?thesis using assms(1) by (auto simp: loadOrGenerateAnnounce_def)
next
  case (Some r)
  obtain cs e s1 where r: "r = ((cs, e), s1)" by (metis prod.collapse)
  have 1: "valid s1" "ann s1 = ann s" using GetChannels_law [OF assms(2)] Some r by auto
  show ?thesis
  proof (cases e)
    case (Some x)
    then show ?thesis using assms(1,4) 1 \<open>st_GetChannels S s = Some r\<close> r
      by (auto simp: loadOrGenerateAnnounce_def)
  next
    case None
    let ?a1 = "a\<lparr>anNext := (anNext a)\<lparr>amChannels := sort cs\<rparr>\<rparr>"
    show ?thesis
    proof (cases "st_GetAnnounce S s1")
      case None
      then show ?thesis using assms(1) \<open>st_GetChannels S s = Some r\<close> r \<open>e = None\<close>
        by (auto simp: loadOrGenerateAnnounce_def)
    next
      case (Some g)
      obtain pl sg ex ow e2 s2 where g: "g = ((pl, sg, ex, ow, e2), s2)" by (metis prod.collapse)
      have 2: "valid s2" "ann s2 = ann s" "e2 = None \<longrightarrow> (pl, sg, ex, ow) = ann s"
        using GetAnnounce_law [OF 1(1)] Some g 1(2) by auto
      show ?thesis
      proof (cases e2)
        case e2: None
        let ?a2 = "if length ow = 32 then ?a1\<lparr>anNext := (anNext ?a1)\<lparr>amOwner := ow\<rparr>\<rparr> else ?a1"
        have k: "anNodeKey ?a2 = anNodeKey a" by simp
        have "reuse_or_generate G S now now' ?a2 pl sg ex s2 = c"
          using assms(1) \<open>st_GetChannels S s = Some r\<close> r \<open>e = None\<close> Some g e2
          by (simp add: loadOrGenerateAnnounce_def Let_def)
        from reuse_own [OF this 2(1) assms(3), unfolded k, of ow] show ?thesis using assms(4) 2(2,3) e2 by simp
      next
        case e2: (Some x)
        have "with_state ?a1 (generateAnnounce G S now' (anNodeKey a) (anNext ?a1) s2) = c"
          using assms(1) \<open>st_GetChannels S s = Some r\<close> r \<open>e = None\<close> Some g e2
          by (simp add: loadOrGenerateAnnounce_def Let_def)
        moreover have "generateAnnounce G S now' (anNodeKey a) (anNext ?a1) s2 \<noteq> Panics"
          by (auto simp: generateAnnounce_def Let_def split: option.splits prod.splits)
        ultimately show ?thesis
          using generate_own [OF _ 2(1), of G now' "anNodeKey a" "anNext ?a1"] assms(4) 2(2)
          by (auto simp: with_state_def split: call.splits)
      qed
    qed
  qed
qed

text \<open>One step of the service, over any queue.\<close>

definition ann_own :: "gossip \<Rightarrow> announce \<Rightarrow> 's \<Rightarrow> bool" where
  "ann_own G a s \<longleftrightarrow> valid s \<and> own_stored G (anNodeKey a) (ann s) \<and>
     (case anPc a of
        AFirst r \<Rightarrow> snd (snd r) \<longrightarrow> own_announcement G (anNodeKey a) (fst r)
      | ANext r \<Rightarrow> snd (snd r) \<longrightarrow> own_announcement G (anNodeKey a) (fst r)
      | APanicked \<Rightarrow> False
      | _ \<Rightarrow> True)"

lemma apply_change_store:
  assumes "apply_change S c a s = Some (b, a', s')" "valid s" "own_stored G key (ann s)"
  shows "valid s' \<and> own_stored G key (ann s') \<and> nodes s' = nodes s"
proof (cases c)
  case (ChangeOwnerKey k)
  show ?thesis
  proof (cases "amOwner (anNext a) = k")
    case False
    then obtain e where "st_SetAnnounceOwner S k s = Some (e, s')"
      using assms(1) ChangeOwnerKey by (auto simp: apply_change_def split: option.splits)
    from SetAnnounceOwner_law [OF assms(2) this] show ?thesis
      using assms(3) by (auto simp: own_stored_def)
  qed (use assms ChangeOwnerKey in \<open>auto simp: apply_change_def\<close>)
next
  case (ChangeChannel ch)
  then obtain r where "st_GetChannels S s = Some (r, s')"
    using assms(1) by (auto simp: apply_change_def Let_def split: option.splits if_splits prod.splits)
  then show ?thesis using GetChannels_law [OF assms(2)] assms(3) by (cases r) auto
qed (use assms in \<open>auto simp: apply_change_def\<close>)

lemma ann_own_select:
  assumes "ann_select G S ev st now a q s = Some (a', q', s', out)" "anPc a = ASelect" "ann_own G a s"
  shows "ann_own G a' s' \<and> out = None"
proof (cases ev)
  case AChange
  then obtain c q1 b a1 where c: "apply_change S c a s = Some (b, a1, s')" "out = None"
      "a' = (if b then after_change G now a1 else a1\<lparr>anPc := ALoop\<rparr>)"
    using assms(1) by (auto simp: ann_select_def split: list.splits option.splits prod.splits bool.splits)
  have "valid s' \<and> own_stored G (anNodeKey a) (ann s')"
    using apply_change_store [OF c(1)] assms(3) unfolding ann_own_def by blast
  moreover have "anNodeKey a' = anNodeKey a" "anPc a' = ALoop \<or> anPc a' = ADrain"
    using c(3) apply_change_fields [OF c(1)] by (auto simp: after_change_def split: prod.splits bool.splits)
  ultimately show ?thesis using c(2) by (auto simp: ann_own_def)
next
  case ATimer
  then obtain t r where g: "generateAnnounce G S now (anNodeKey a) (anNext a) s = Returns (r, s')"
      "a' = a\<lparr>anTimer := t, anPc := ANext r\<rparr>" "out = None"
    using assms(1) by (auto simp: ann_select_def split: option.splits call.splits prod.splits)
  then show ?thesis
    using generate_own [of G now "anNodeKey a" "anNext a" s "fst r" "fst (snd r)" "snd (snd r)" s'] assms(3)
    by (simp add: ann_own_def)
qed (use assms in \<open>auto simp: ann_select_def ann_own_def split: if_splits\<close>)

lemma ann_own_step:
  assumes "Announce_Run G S ev st now now' a q s = Some (a', q', s', out)" "ann_own G a s" "codec_total G"
  shows "ann_own G a' s' \<and> anNodeKey a' = anNodeKey a \<and>
    (\<forall>msg. out = Some msg \<longrightarrow> own_announcement G (anNodeKey a) msg)"
proof (cases "ev = AFire")
  case True
  then show ?thesis using assms(1,2) by (cases "anPc a") (auto simp: Announce_Run_def ann_own_def)
next
  case ev: False
  show ?thesis
  proof (cases "anPc a")
    case (AFetch b)
    then show ?thesis
      using assms ev by (auto simp: Announce_Run_def ann_own_def fetch_attempt_def Let_def
          split: if_splits ann_event.splits sum.splits)
  next
    case ALoad
    have l: "loadOrGenerateAnnounce G S now now' a s \<noteq> Panics"
      and r: "\<And>msg remain ok a' s'. loadOrGenerateAnnounce G S now now' a s = Returns ((msg, remain, ok), a', s') \<Longrightarrow>
        (ok \<longrightarrow> own_announcement G (anNodeKey a) msg) \<and> own_stored G (anNodeKey a) (ann s') \<and> valid s'"
      using load_own [OF refl, where s = s and G = G and now = now and now' = now' and a = a] assms(2,3) by (auto simp: ann_own_def)
    then obtain msg remain ok a1 where c: "loadOrGenerateAnnounce G S now now' a s = Returns ((msg, remain, ok), a1, s')"
        "a' = a1\<lparr>anPc := AFirst (msg, remain, ok)\<rparr>" "out = None"
      using assms(1) ev ALoad by (auto simp: Announce_Run_def split: if_splits call.splits prod.splits)
    then show ?thesis using r [OF c(1)] load_fields [OF c(1)] by (simp add: ann_own_def)
  next
    case ASelect
    then have sel: "ann_select G S ev st now a q s = Some (a', q', s', out)"
      using assms(1) ev by (simp add: Announce_Run_def)
    then have "anNodeKey a' = anNodeKey a"
      by (auto simp: ann_select_def after_change_def dest!: apply_change_fields
          split: ann_event.splits list.splits option.splits prod.splits bool.splits call.splits if_splits)
    then show ?thesis using ann_own_select [OF sel ASelect assms(2)] by simp
  qed (use assms ev in \<open>auto simp: Announce_Run_def ann_own_def deliver_def split: if_splits\<close>)
qed

text \<open>
  A restart with an unchanged configuration sends the stored announcement again and signs
  nothing.
\<close>

lemma restart_reuses:
  assumes "valid s" "ann s = (signed_payload G t m, ViewSignature G (signed_packet G t key m), signed_expiry t, ow)"
    and "AddrMsgIsValid G m" "DecodeAddrMsg G (signed_payload G t m) = Some old" "amTime old = UnixToDoge G t"
    and "AddrMsgMinSize G \<le> length (signed_payload G t m)" "length (ViewSignature G (signed_packet G t key m)) = 64"
    and "Unix now < signed_expiry t" "anNodeKey a = key"
    and "st_GetChannels S s = Some ((cs, None), s1)" "st_GetAnnounce S s1 = Some ((pl, sg, ex, ow', None), s2)"
    and "stored_owner ow ((anNext a)\<lparr>amChannels := sort cs\<rparr>) = m"
  shows "loadOrGenerateAnnounce G S now now' a s = Returns ((ReEncodeMessage G (ChannelNode G) (TagAddress G) (Pub key)
      (ViewSignature G (signed_packet G t key m)) (signed_payload G t m), (signed_expiry t - Unix now) * Second, True),
      a\<lparr>anNext := m\<rparr>, s2) \<and> ann s2 = ann s \<and> nodes s2 = nodes s"
proof -
  have 1: "valid s1" "ann s1 = ann s" "nodes s1 = nodes s"
    using GetChannels_law [OF assms(1,10)] by auto
  have 2: "ann s2 = ann s" "nodes s2 = nodes s" "(pl, sg, ex, ow') = ann s"
    using GetAnnounce_law [OF 1(1) assms(11)] 1(2,3) by auto
  have row: "pl = signed_payload G t m" "sg = ViewSignature G (signed_packet G t key m)" "ex = signed_expiry t" "ow' = ow"
    using 2(3) assms(2) by auto
  let ?a1 = "a\<lparr>anNext := (anNext a)\<lparr>amChannels := sort cs\<rparr>\<rparr>"
  have a2: "(if length ow = 32 then ?a1\<lparr>anNext := (anNext ?a1)\<lparr>amOwner := ow\<rparr>\<rparr> else ?a1) = a\<lparr>anNext := m\<rparr>"
    using assms(12) by (auto simp: stored_owner_def split: if_splits)
  have "reuse_or_generate G S now now' (a\<lparr>anNext := m\<rparr>) pl sg ex s2 =
      Returns ((ReEncodeMessage G (ChannelNode G) (TagAddress G) (Pub key) sg pl, (ex - Unix now) * Second, True), a\<lparr>anNext := m\<rparr>, s2)"
    using assms(3-9) by (simp add: reuse_or_generate_def row) (simp add: signed_payload_def)
  then have "loadOrGenerateAnnounce G S now now' a s = Returns ((ReEncodeMessage G (ChannelNode G) (TagAddress G) (Pub key) sg pl,
      (ex - Unix now) * Second, True), a\<lparr>anNext := m\<rparr>, s2)"
    using assms(10,11) by (simp add: loadOrGenerateAnnounce_def Let_def row(4) a2 [simplified])
  then show ?thesis using 2 row by simp
qed

end

end
