(* ===== verification/StoreContract.thy ===== *)
theory StoreContract
  imports StoreQueries NetGossip AnnounceLoop
begin

text \<open>
  The SQLite store keeps the contracts of \<open>StoreIface\<close>, under any driver faults: the two
  locales are interpreted on \<open>sqliteStore\<close>, with well-formed initialised tables as the
  invariant and the tables' contents as the abstract state.
\<close>

definition registered :: "world \<Rightarrow> bytes \<Rightarrow> (bytes \<times> bytes) option" where
  "registered w k = map_option (\<lambda>v. (nvPayload v, nvSig v)) (view (disk w) k)"

definition good_world :: "world \<Rightarrow> bool" where
  "good_world w \<longleftrightarrow> good (disk w)"

definition world_announcement :: "world \<Rightarrow> bytes \<times> bytes \<times> int \<times> bytes" where
  "world_announcement w = announcement (disk w)"

definition world_channels :: "world \<Rightarrow> tag4cc set" where
  "world_channels w = fst ` set (channels (disk w))"

lemmas world_abs = registered_def good_world_def world_announcement_def world_channels_def

lemma same_disk:
  "disk w' = disk w \<Longrightarrow> good_world w' = good_world w" "disk w' = disk w \<Longrightarrow> registered w' = registered w"
  "disk w' = disk w \<Longrightarrow> world_announcement w' = world_announcement w"
  "disk w' = disk w \<Longrightarrow> world_channels w' = world_channels w"
  by (auto simp: world_abs intro!: ext)

lemma stores_registered: "stores (registered w) key payload \<longleftrightarrow> \<not> changes (view (disk w)) key payload"
  by (simp add: stores_def registered_def changes_def option.map_comp comp_def)

lemma store_row_contract:
  assumes "good d"
  shows "map_option (\<lambda>v. (nvPayload v, nvSig v)) (view (store_row d key addr time owner payload sig cells) k) =
      (if k = key then Some (payload, sig) else map_option (\<lambda>v. (nvPayload v, nvSig v)) (view d k))"
    and "announce (store_row d key addr time owner payload sig cells) = announce d"
    and "channels (store_row d key addr time owner payload sig cells) = channels d"
  using assms view_store_row [of d key addr time owner payload sig cells]
  by (simp_all add: good_def)

lemma good_body:
  assumes "doTxn name work r w = Some (e, r', w')" and "good_world w"
    and "\<And>P c. P = wf_db \<or> P = ready \<or> P = (\<lambda>d. config d = c) \<Longrightarrow> work_keeps P work"
  shows "good_world w'"
  using doTxn_good [OF assms(1)] assms(2,3) by (simp add: good_world_def)

lemma contract_AddNetNode:
  assumes "good_world w"
  shows "\<exists>changed err w'. AddNetNode G key addr time owner cs payload sig w = Some ((changed, err), w') \<and>
       good_world w' \<and>
       (err = None \<longrightarrow> (changed \<longleftrightarrow> \<not> stores (registered w) key payload) \<and>
          registered w' = (if changed then (registered w)(key \<mapsto> (payload, sig)) else registered w)) \<and>
       (err \<noteq> None \<longrightarrow> registered w' = registered w) \<and>
       world_announcement w' = world_announcement w \<and> world_channels w' = world_channels w"
proof -
  have g: "good (disk w)" using assms by (simp add: good_world_def)
  obtain changed err w' where
    r: "AddNetNode G key addr time owner cs payload sig w = Some ((changed, err), w')"
    "case err of
       Some e \<Rightarrow> disk w' = disk w
     | None \<Rightarrow> (changed \<longleftrightarrow> changes (view (disk w)) key payload) \<and>
         disk w' = (if changed then store_row (disk w) key (AddressToBytes G addr) time owner payload sig
           (map (ChanCell G) cs) else disk w)"
    using AddNetNode_result [OF g] by blast
  have gw: "good_world w'"
    using r(1) assms unfolding AddNetNode_def results_Some
    by (rule good_body) (rule bodies_keep)
  have "registered w' = (registered w)(key \<mapsto> (payload, sig))" if "err = None" "changed"
    using r that store_row_contract(1) [OF g] by (auto simp: registered_def)
  then show ?thesis
    using r gw store_row_contract(2,3) [OF g]
    by (cases err) (auto simp: stores_registered registered_def world_announcement_def
        announcement_def world_channels_def split: if_splits intro!: exI [of _ changed])
qed

lemma wraps_Choose: "wraps (ChooseNetNode_work G rand)" "wraps (ChooseNetNodeMsg_work rand)"
  by (auto simp: ChooseNetNode_work_def ChooseNetNodeMsg_work_def intro!: wraps_intros
      split: option.splits)

lemma random_node: "good d \<Longrightarrow> sql_random_node r d = Inr (row, d') \<Longrightarrow> row \<in> set (node d) \<and> d' = d"
  by (auto simp: stmt_defs split: if_splits)

lemma node_row_view:
  assumes "good d" "row \<in> set (node d)"
  shows "map_option (\<lambda>v. (nvPayload v, nvSig v)) (view d (ndKey row)) = Some (ndPayload row, ndSig row)"
proof -
  obtain r0 where r0: "node_at d (ndKey row) = Some r0"
    using assms(2) by (cases "node_at d (ndKey row)") (auto simp: node_at_def find_key_None)
  then have "r0 \<in> set (node d)" "ndKey r0 = ndKey row" by (auto simp: node_at_def dest: find_key_Some)
  then have "r0 = row" using assms by (auto simp: good_def wf_db_def distinct_map dest: inj_onD)
  then have "node_at d (ndKey row) = Some row" using r0 by simp
  then show ?thesis by (simp add: view_def row_view_def)
qed

lemma runs_ChooseNetNode:
  assumes "good d"
  shows "runs (ChooseNetNode_work G rand) r d
    (\<lambda>r' d'. d' = d \<and> length (niPubKey r') = 32 \<and> view d (niPubKey r') \<noteq> None) (\<lambda>_ _. True)"
  unfolding ChooseNetNode_work_def
proof (rule runs_on_sql)
  fix row d' assume "sql_random_node rand d = Inr (row, d')"
  then have "row \<in> set (node d)" "d' = d" using random_node [OF assms] by auto
  then have "d' = d" "view d (ndKey row) \<noteq> None" using node_row_view [OF assms] by auto
  then show "runs (if length (ndKey row) \<noteq> 32
      then raise (OpaqueError (''invalid node key: '' @ EncodeToString (ndKey row) @ '' (should be 32 bytes)''))
      else assign (\<lambda>res. res\<lparr>niPubKey := ndKey row, niAddr := fst (AddressFromBytes G (ndAddress row))\<rparr>)
             (case snd (AddressFromBytes G (ndAddress row)) of
                Some e \<Rightarrow> raise_fmt ''invalid address: '' e | None \<Rightarrow> ret_ok)) r d'
    (\<lambda>r' d'. d' = d \<and> length (niPubKey r') = 32 \<and> view d (niPubKey r') \<noteq> None) (\<lambda>_ _. True)"
    by (auto split: option.splits)
qed simp

lemma runs_ChooseNetNodeMsg:
  assumes "good d"
  shows "runs (ChooseNetNodeMsg_work rand) r d
    (\<lambda>r' d'. d' = d \<and> map_option (\<lambda>v. (nvPayload v, nvSig v)) (view d (nrPubKey r')) = Some (nrPayload r', nrSig r'))
    (\<lambda>_ _. True)"
  unfolding ChooseNetNodeMsg_work_def
  by (rule runs_on_sql) (use random_node [OF assms] node_row_view [OF assms] in \<open>auto\<close>)

lemma runs_GetAnnounce:
  assumes "good d" "announce d = [] \<longrightarrow> r = ([], [], 0, [])"
  shows "runs GetAnnounce_work r d (\<lambda>r' d'. d' = d \<and> r' = announcement d)
    (\<lambda>_ r'. announce d = [] \<longrightarrow> r' = ([], [], 0, []))"
  unfolding GetAnnounce_work_def
  by (rule runs_on_sql) (use assms in \<open>auto simp: stmt_defs announcement_def split: list.splits if_splits\<close>)

lemma runs_GetChannels:
  assumes "good d" "set r \<subseteq> fst ` set (channels d)"
  shows "runs GetChannels_work r d (\<lambda>r' d'. d' = d \<and> set r' = fst ` set (channels d))
    (\<lambda>_ r'. set r' \<subseteq> fst ` set (channels d))"
  unfolding GetChannels_work_def
  by (rule runs_on_rows) (use assms in \<open>auto simp: stmt_defs dest: in_set_takeD split: if_splits\<close>)

text \<open>A body that only reads, with what it guarantees of the captured variables.\<close>

lemma read_result:
  assumes "doTxn name work r w = Some (e, r', w')" "good_world w" "I r"
    and "\<And>r0. I r0 \<Longrightarrow> runs work r0 (disk w) (\<lambda>r' d'. d' = disk w \<and> Q r') (\<lambda>_. I)"
    and "\<And>r0. Q r0 \<Longrightarrow> I r0"
  shows "disk w' = disk w \<and> (e = None \<longrightarrow> Q r')"
  using doTxn_runs [OF assms(1,3,4)] assms(5) by (auto split: option.splits)

lemma contract_ChooseNetNode:
  assumes "good_world w"
  shows "\<exists>np err w'. ChooseNetNode G w = Some ((np, err), w') \<and> disk w' = disk w \<and>
       (err = None \<longrightarrow> length (niPubKey np) = 32 \<and> view (disk w) (niPubKey np) \<noteq> None)"
proof -
  obtain e r' w' where run: "doTxn ''ChooseNetNode'' (ChooseNetNode_work G (rnd w)) zero_nodeInfo w = Some (e, r', w')"
    using doTxn_returns [OF wraps_Choose(1)] by (metis prod_cases3)
  have "disk w' = disk w \<and> (e = None \<longrightarrow> length (niPubKey r') = 32 \<and> view (disk w) (niPubKey r') \<noteq> None)"
    using runs_ChooseNetNode assms
    by (intro read_result [OF run assms, where I = "\<lambda>_. True"]) (simp_all add: good_world_def)
  then show ?thesis using run by (auto simp: ChooseNetNode_def results_def)
qed

lemma contract_ChooseNetNodeMsg:
  assumes "good_world w"
  shows "\<exists>r err w'. ChooseNetNodeMsg w = Some ((r, err), w') \<and> disk w' = disk w \<and>
       (err = None \<longrightarrow> registered w (nrPubKey r) = Some (nrPayload r, nrSig r))"
proof -
  obtain e r' w' where run: "doTxn ''ChooseNetNodeMsg'' (ChooseNetNodeMsg_work (rnd w))
       \<lparr>nrPubKey = [], nrPayload = [], nrSig = []\<rparr> w = Some (e, r', w')"
    using doTxn_returns [OF wraps_Choose(2)] by (metis prod_cases3)
  have "disk w' = disk w \<and> (e = None \<longrightarrow> registered w (nrPubKey r') = Some (nrPayload r', nrSig r'))"
    unfolding registered_def using runs_ChooseNetNodeMsg assms
    by (intro read_result [OF run assms, where I = "\<lambda>_. True"]) (simp_all add: good_world_def)
  then show ?thesis using run by (auto simp: ChooseNetNodeMsg_def results_def)
qed

lemma contract_GetAnnounce:
  assumes "good_world w" "GetAnnounce w = Some ((p, s, t, ow, e), w')"
  shows "disk w' = disk w \<and> (e = None \<longrightarrow> (p, s, t, ow) = world_announcement w)"
proof -
  have run: "doTxn ''GetAnnounce'' GetAnnounce_work ([], [], 0, []) w = Some (e, (p, s, t, ow), w')"
    using assms(2) by (auto simp: GetAnnounce_def)
  show ?thesis
    unfolding world_announcement_def using runs_GetAnnounce assms(1)
    by (intro read_result [OF run assms(1), where I = "\<lambda>r. announce (disk w) = [] \<longrightarrow> r = ([], [], 0, [])"])
      (auto simp: good_world_def announcement_def)
qed

lemma contract_GetChannels:
  assumes "good_world w" "GetChannels w = Some ((cs, e), w')"
  shows "disk w' = disk w \<and> (e = None \<longrightarrow> set cs = world_channels w)"
proof -
  have run: "doTxn ''GetChannels'' GetChannels_work [] w = Some (e, cs, w')"
    using assms(2) by (auto simp: GetChannels_def results_def)
  show ?thesis
    unfolding world_channels_def using runs_GetChannels assms(1)
    by (intro read_result [OF run assms(1), where I = "\<lambda>r. set r \<subseteq> fst ` set (channels (disk w))"])
      (auto simp: good_world_def)
qed

lemma contract_AddChannel:
  assumes "good_world w" "AddChannel ch w = Some (e, w')"
  shows "good_world w' \<and> registered w' = registered w \<and> world_announcement w' = world_announcement w \<and>
    world_channels w' = (if e = None then insert ch (world_channels w) else world_channels w)"
proof -
  have chs: "world_channels v = {c. channel_days (disk v) c \<noteq> None}" for v
    by (auto simp: world_channels_def channel_days_def map_of_eq_None_iff)
  obtain u where run: "doTxn ''AddChannel'' (AddChannel_work ch) () w = Some (e, u, w')"
    using assms(2) by (auto simp: AddChannel_def result_simps)
  have g: "good_world w'" by (rule good_body [OF run assms(1)]) (simp add: bodies_keep)
  show ?thesis
  proof (cases e)
    case None
    then show ?thesis
      using g doTxn_post [OF run [unfolded None] runs_AddChannel] assms(1)
      by (auto simp: registered_def good_world_def world_announcement_def announcement_def chs)
  next
    case (Some x)
    then have "disk w' = disk w" using run doTxn_error by metis
    then show ?thesis using g Some same_disk [of w' w] by simp
  qed
qed

lemma contract_SetAnnounce:
  assumes "good_world w" "SetAnnounce p s t w = Some (e, w')"
  shows "good_world w' \<and> registered w' = registered w \<and> world_channels w' = world_channels w \<and>
    world_announcement w' = (if e = None then (p, s, t, snd (snd (snd (world_announcement w)))) else world_announcement w)"
proof -
  obtain u where run: "doTxn ''SetAnnounce'' (SetAnnounce_work p s t) () w = Some (e, u, w')"
    using assms(2) by (auto simp: SetAnnounce_def result_simps)
  have g: "good_world w'" by (rule good_body [OF run assms(1)]) (simp add: bodies_keep)
  show ?thesis
  proof (cases e)
    case None
    from doTxn_post [OF run [unfolded None] runs_SetAnnounce] assms(1)
    have d: "announce (disk w) \<noteq> []" "disk w' = (disk w)\<lparr>announce :=
       map (\<lambda>a. a\<lparr>anPayload := p, anSig := s, anTime := t\<rparr>) (announce (disk w))\<rparr>"
      by (auto simp: good_world_def)
    then show ?thesis
      using g None by (cases "announce (disk w)") (auto simp: registered_def world_channels_def
          world_announcement_def announcement_def)
  next
    case (Some x)
    then have "disk w' = disk w" using run doTxn_error by metis
    then show ?thesis using g Some same_disk [of w' w] by simp
  qed
qed

lemma contract_SetAnnounceOwner:
  assumes "good_world w" "SetAnnounceOwner ow w = Some (e, w')"
  shows "good_world w' \<and> registered w' = registered w \<and> world_channels w' = world_channels w \<and>
    world_announcement w' = (if e = None then (fst (world_announcement w), fst (snd (world_announcement w)),
      fst (snd (snd (world_announcement w))), ow) else world_announcement w)"
proof -
  obtain u where run: "doTxn ''SetAnnounceOwner'' (SetAnnounceOwner_work ow) () w = Some (e, u, w')"
    using assms(2) by (auto simp: SetAnnounceOwner_def result_simps)
  have good: "good (disk w)" using assms(1) by (simp add: good_world_def)
  have g: "good_world w'"
    using doTxn_advances_post [OF run good post_SetAnnounceOwner [OF good]]
    by (simp add: advances_def good_world_def)
  show ?thesis
  proof (cases e)
    case None
    from doTxn_post [OF run [unfolded None] runs_SetAnnounceOwner [OF good]]
    have d: "disk w' = (disk w)\<lparr>announce := (if announce (disk w) = []
         then [\<lparr>anPayload = [], anSig = [], anTime = 0, anOwner = Some ow\<rparr>]
         else map (\<lambda>a. a\<lparr>anOwner := Some ow\<rparr>) (announce (disk w)))\<rparr>" by auto
    then show ?thesis
      using g None by (cases "announce (disk w)") (auto simp: registered_def world_channels_def
          world_announcement_def announcement_def)
  next
    case (Some x)
    then have "disk w' = disk w" using run doTxn_error by metis
    then show ?thesis using g Some same_disk [of w' w] by simp
  qed
qed

section \<open>The interpretations\<close>

lemma sqliteStore_fields [simp]:
  "st_AddNetNode (sqliteStore G) = AddNetNode G" "st_ChooseNetNode (sqliteStore G) = ChooseNetNode G"
  "st_ChooseNetNodeMsg (sqliteStore G) = ChooseNetNodeMsg" "st_AddChannel (sqliteStore G) = AddChannel"
  "st_GetAnnounce (sqliteStore G) = GetAnnounce" "st_SetAnnounce (sqliteStore G) = SetAnnounce"
  "st_SetAnnounceOwner (sqliteStore G) = SetAnnounceOwner" "st_GetChannels (sqliteStore G) = GetChannels"
  "st_NodeList (sqliteStore G) = NodeList G" "st_TrimNodes (sqliteStore G) = TrimNodes"
  by (simp_all add: sqliteStore_def)

interpretation sqlite: announce_store "sqliteStore G" good_world registered world_announcement world_channels
  for G
proof (unfold_locales, unfold sqliteStore_fields)
  fix w key addr time owner cs payload sig
  assume g: "good_world w"
  show "\<exists>changed err w'. AddNetNode G key addr time owner cs payload sig w = Some ((changed, err), w') \<and>
       good_world w' \<and>
       (err = None \<longrightarrow> (changed \<longleftrightarrow> \<not> stores (registered w) key payload) \<and>
          registered w' = (if changed then (registered w)(key \<mapsto> (payload, sig)) else registered w)) \<and>
       (err \<noteq> None \<longrightarrow> registered w' = registered w)"
    using contract_AddNetNode [OF g] by blast
  show "\<exists>np err w'. ChooseNetNode G w = Some ((np, err), w') \<and> good_world w' \<and> registered w' = registered w \<and>
       (err = None \<longrightarrow> length (niPubKey np) = 32 \<and> registered w (niPubKey np) \<noteq> None)"
  proof -
    obtain np err w' where c: "ChooseNetNode G w = Some ((np, err), w')" "disk w' = disk w"
       "err = None \<longrightarrow> length (niPubKey np) = 32 \<and> view (disk w) (niPubKey np) \<noteq> None"
      using contract_ChooseNetNode [OF g, of G] by blast
    then show ?thesis using g same_disk [of w' w] by (auto simp: registered_def)
  qed
  show "\<exists>r err w'. ChooseNetNodeMsg w = Some ((r, err), w') \<and> good_world w' \<and> registered w' = registered w \<and>
       (err = None \<longrightarrow> registered w (nrPubKey r) = Some (nrPayload r, nrSig r))"
  proof -
    obtain r err w' where c: "ChooseNetNodeMsg w = Some ((r, err), w')" "disk w' = disk w"
       "err = None \<longrightarrow> registered w (nrPubKey r) = Some (nrPayload r, nrSig r)"
      using contract_ChooseNetNodeMsg [OF g] by blast
    then show ?thesis using g same_disk [of w' w] by auto
  qed
  show "good_world w' \<and> registered w' = registered w" if "AddChannel ch w = Some (err, w')" for ch err w'
    using contract_AddChannel [OF g that] by simp
  show "good_world w' \<and> registered w' = registered w \<and> world_announcement w' = world_announcement w \<and>
      world_channels w' = world_channels w \<and> (err = None \<longrightarrow> (p, sg, t, ow) = world_announcement w)"
    if "GetAnnounce w = Some ((p, sg, t, ow, err), w')" for p sg t ow err w'
    using contract_GetAnnounce [OF g that] g same_disk [of w' w] by simp
  show "good_world w' \<and> registered w' = registered w \<and> world_channels w' = world_channels w \<and>
      world_announcement w' = (if err = None then (p, sg, t, snd (snd (snd (world_announcement w)))) else world_announcement w)"
    if "SetAnnounce p sg t w = Some (err, w')" for p sg t err w'
    using contract_SetAnnounce [OF g that] .
  show "good_world w' \<and> registered w' = registered w \<and> world_channels w' = world_channels w \<and>
      world_announcement w' = (if err = None then (fst (world_announcement w), fst (snd (world_announcement w)),
        fst (snd (snd (world_announcement w))), ow) else world_announcement w)"
    if "SetAnnounceOwner ow w = Some (err, w')" for ow err w'
    using contract_SetAnnounceOwner [OF g that] .
  show "good_world w' \<and> registered w' = registered w \<and> world_announcement w' = world_announcement w \<and>
      world_channels w' = world_channels w \<and> (err = None \<longrightarrow> set cs = world_channels w)"
    if "GetChannels w = Some ((cs, err), w')" for cs err w'
    using contract_GetChannels [OF g that] g same_disk [of w' w] by simp
  show "world_announcement w' = world_announcement w \<and> world_channels w' = world_channels w"
    if "AddNetNode G key addr time owner cs payload sig w = Some ((changed, err), w')" for changed err w'
    using contract_AddNetNode [OF g, of G key addr time owner cs payload sig] that by auto
  show "world_announcement w' = world_announcement w \<and>
      world_channels w' = (if err = None then insert ch (world_channels w) else world_channels w)"
    if "AddChannel ch w = Some (err, w')" for ch err w'
    using contract_AddChannel [OF g that] by simp
  show "world_announcement w' = world_announcement w \<and> world_channels w' = world_channels w"
    if "ChooseNetNode G w = Some (r1, w')" for r1 w'
    using contract_ChooseNetNode [OF g, of G] that same_disk [of w' w] by auto
  show "world_announcement w' = world_announcement w \<and> world_channels w' = world_channels w"
    if "ChooseNetNodeMsg w = Some (r2, w')" for r2 w'
    using contract_ChooseNetNodeMsg [OF g] that same_disk [of w' w] by auto
qed

end
