(* ===== verification/NetProps.thy ===== *)
theory NetProps
  imports StoreContract
begin

text \<open>
  The net service over the SQLite store: what the other services do to the store, the
  states the two reach together, which announcements are stored and re-broadcast, and a
  concrete run that the witnesses of the properties of \<open>NetSystem\<close> use.
\<close>

section \<open>The other services on the store\<close>

text \<open>
  The announce service (with this node's key, 32 bytes), the trimmer and the web API, and
  the passing of time and driver faults.
\<close>

inductive other_service :: "gossip \<Rightarrow> world \<Rightarrow> world \<Rightarrow> bool" for G where
  "NodeList G w = Some (x, w') \<Longrightarrow> other_service G w w'"
| "TrimNodes w = Some (y, w') \<Longrightarrow> other_service G w w'"
| "GetAnnounce w = Some (z, w') \<Longrightarrow> other_service G w w'"
| "SetAnnounce pl sg t w = Some (e, w') \<Longrightarrow> other_service G w w'"
| "SetAnnounceOwner ow w = Some (e, w') \<Longrightarrow> other_service G w w'"
| "GetChannels w = Some (c, w') \<Longrightarrow> other_service G w w'"
| "length key = 32 \<Longrightarrow> AddNetNode G key ad t ow cs pl sg w = Some (b, w') \<Longrightarrow> other_service G w w'"
| "other_service G w (w\<lparr>faults := fs, unixNow := t, rnd := n\<rparr>)"

lemma NodeList_disk: "NodeList G w = Some (x, w') \<Longrightarrow> disk w' = disk w"
proof -
  assume "NodeList G w = Some (x, w')"
  then obtain e r where run: "doTxn ''NodeList'' (NodeList_work G) [] w = Some (e, r, w')"
    by (auto simp: NodeList_def results_def)
  have "work_keeps (\<lambda>d. d = disk w) (NodeList_work G)"
    unfolding NodeList_work_def by (auto intro!: db_keeps)
  from doTxn_keeps [OF this run] show ?thesis by simp
qed

lemma trimmed_keys: "good d \<Longrightarrow> view (trimmed t d) k \<noteq> None \<Longrightarrow> view d k \<noteq> None"
  using view_trimmed [of d t] by (auto simp: expire_def good_def split: option.splits if_splits)

lemma keeps_other_service: "keeps_store good_world registered (other_service G)"
  unfolding keeps_store_def
proof (intro allI impI)
  fix w w' assume "other_service G w w'" "good_world w" "keys32 (registered w)"
  then show "good_world w' \<and> keys32 (registered w')"
  proof (induction rule: other_service.induct)
    case (1 w x w')
    then show ?case using same_disk [OF NodeList_disk [OF 1(1)]] by simp
  next
    case (2 w y w')
    obtain a m e w'' where t: "TrimNodes w = Some ((a, m, e), w'')"
      "case e of
       Some e \<Rightarrow> disk w'' = disk w
     | None \<Rightarrow>
         if last_day (disk w) = unixDayStamp (unixNow w)
         then \<not> a \<and> m = 0 \<and> disk w'' = disk w
         else a \<and> m = int (length (expired_channels (counter (disk w) + 1) (disk w))) \<and>
              disk w'' = trimmed (unixDayStamp (unixNow w)) (disk w)"
      using TrimNodes_result [of w] 2(2) by (auto simp: good_world_def)
    then have w: "w'' = w'" using 2(1) by simp
    consider "disk w' = disk w" | "disk w' = trimmed (unixDayStamp (unixNow w)) (disk w)"
      using t(2) w by (auto split: option.splits if_splits)
    then show ?case
    proof cases
      case 1
      then show ?thesis using same_disk [OF 1] 2 by simp
    next
      case t: 2
      show ?thesis
        using 2(2,3) good_trimmed [of "disk w"] trimmed_keys [of "disk w"] t
        by (auto simp: good_world_def keys32_def registered_def)
    qed
  next
    case (3 w z w')
    then show ?case
      using sqlite.GetAnnounce_law [of w G] by (cases z) auto
  next
    case (4 pl sg t w e w')
    then show ?case using contract_SetAnnounce by simp
  next
    case (5 ow w e w')
    then show ?case using contract_SetAnnounceOwner by simp
  next
    case (6 w c w')
    then show ?case using sqlite.GetChannels_law [of w G] by (cases c) auto
  next
    case (7 key ad t ow cs pl sg w b w')
    then show ?case
      using sqlite.AddNetNode_inv [of w G key ad t ow cs pl sg] sqlite.AddNetNode_keys32 [of w key G ad t ow cs pl sg]
      by (cases b) auto
  next
    case (8 w fs t n)
    then show ?case by (simp add: good_world_def registered_def keys32_def)
  qed
qed

lemma sqlite_typed: "store_typed (sqliteStore G)"
  unfolding store_typed_def sqliteStore_fields
proof (intro allI impI)
  fix w np w' assume "ChooseNetNode G w = Some ((np, None), w')"
  then have run: "doTxn ''ChooseNetNode'' (ChooseNetNode_work G (rnd w)) zero_nodeInfo w = Some (None, np, w')"
    by (simp add: ChooseNetNode_def results_Some)
  have "runs (ChooseNetNode_work G rand) r d (\<lambda>r' _. length (niPubKey r') = 32) (\<lambda>_ _. True)" for rand r d
    unfolding ChooseNetNode_work_def by (rule runs_on_sql) (auto split: option.splits)
  from doTxn_post [OF run this] show "length (niPubKey np) = 32" .
qed

section \<open>The service over the SQLite store\<close>

definition node_running :: "gossip \<Rightarrow> world net \<Rightarrow> bool" where
  "node_running G n \<longleftrightarrow>
     (\<exists>n0. net_started n0 \<and> good_world (stState n0) \<and> keys32 (registered (stState n0)) \<and>
        (net_step G (sqliteStore G) (other_service G))\<^sup>*\<^sup>* n0 n)"

lemma node_running_reachable: "node_running G n \<Longrightarrow> net_reachable G (sqliteStore G) (other_service G) n"
  by (auto simp: node_running_def net_reachable_def)

lemma crash_step:
  assumes "net_step G (sqliteStore G) (other_service G) n n'"
    and "good_world (stState n)" "keys32 (registered (stState n))"
  shows "crashed n' \<longrightarrow> acceptPc n' = AAccept"
  using assms
proof (induction rule: net_step.induct)
  case (GossipAddress n tev n')
  then show ?case using sqlite.gossip_stored [OF GossipAddress(2)] by simp
next
  case (AcceptHandler n tev n')
  then show ?case
    by (auto simp: acceptHandlers_def trackHandler_def Let_def
        split: accept_pc.splits if_splits task_event.splits prod.splits bool.splits)
next
  case (Find n tev n')
  then show ?case
    by (auto simp: findPeers_def choosePeer_def same_service_def dest!: open_peer_service lockPeer_fields
        split: find_pc.splits if_splits task_event.splits prod.splits bool.splits list.splits option.splits)
next
  case (AddPeer n np n')
  then show ?case by (auto simp: AddPeer_def)
qed (auto dest!: receive_service send_service handler_service send_handler_service accept_service seed_service
    simp: same_service_def ns_setAnnounce_def Stop_eq)

lemma node_running_ok:
  assumes "node_running G n"
  shows "net_ok n \<and> good_world (stState n) \<and> keys32 (registered (stState n)) \<and>
    (crashed n \<longrightarrow> acceptPc n = AAccept)"
proof -
  obtain n0 where n0: "net_started n0" "good_world (stState n0)" "keys32 (registered (stState n0))"
      "(net_step G (sqliteStore G) (other_service G))\<^sup>*\<^sup>* n0 n"
    using assms by (auto simp: node_running_def)
  have "\<not> crashed n0"
    using n0(1) by (auto simp: net_started.simps NetService_Run_def NetService_New_def)
  with n0(4,1,2,3) show ?thesis
  proof (induction rule: rtranclp_induct)
    case base
    then show ?case using net_ok_started by auto
  next
    case (step y z)
    then show ?case
      using net_ok_step [OF step.hyps(2) sqlite_typed] crash_step [OF step.hyps(2)]
        sqlite.store_ok_step [OF step.hyps(2) _ keeps_other_service] by simp
  qed
qed

section \<open>A concrete run\<close>

text \<open>
  One listener, one inbound peer with the key of 32 sevens, an announcement of this node
  (key of 32 ones); the clock stands at seven seconds, which is the time that the sample
  messages carry.
\<close>

definition sample_key :: keyPair where
  "sample_key = \<lparr>Priv = replicate 32 2, Pub = replicate 32 1\<rparr>"

definition sample_ann :: rawMessage where
  "sample_ann = \<lparr>Header = [1], Payload = [2]\<rparr>"

definition sample_msg :: message where
  "sample_msg = \<lparr>mChan = 1, mTag = 2, mPubKey = replicate 32 7, mSignature = [5],
     mPayload = [7] @ IPv4 8 8 8 8 @ [0, 22] @ replicate 32 0, mRawHdr = [6]\<rparr>"

definition sample_start :: "world net" where
  "sample_start = NetService_Run [(None, False)]
     (NetService_New [] \<lparr>Network = ''unix'', BindAddress = ''/tmp/dogenet.sock''\<rparr> sample_key False (7 * Second) sample_world)"

definition sample_net :: "world net" where
  "sample_net = ReceiveAnnounce sample_ann (sample_start\<lparr>nextId := 2, connections := [1],
     peers := (peers sample_start)(1 \<mapsto> newPeer 1 zero_address NoPubKey False False sample_start)\<rparr>)"

lemma sample_fields [simp]:
  "ChannelNode sample_gossip = 1" "TagAddress sample_gossip = 2"
  "ParseAddress sample_gossip [] = (zero_address, Some (OpaqueError ''bad address''))"
  by (simp_all add: sample_gossip_def)

lemma sample_start_fields [simp]:
  "nodeKey sample_start = sample_key" "clock sample_start = 7 * Second" "stState sample_start = sample_world"
  "\<not> crashed sample_start" "\<not> stopping sample_start" "closed sample_start = {}" "wire sample_start = (\<lambda>_. [])"
  "connectedPeers sample_start = []" "nextId sample_start = 1" "connections sample_start = []"
  "accepting sample_start = {0}" "allowLocal sample_start = False" "encAnnounce sample_start = zero_rawMessage"
  "lockedPeers sample_start = []" "listeners sample_start = [0]" "handlers sample_start = []"
  "newPeers sample_start = []" "announceChanges sample_start = []" "peers sample_start = (\<lambda>_. None)"
  "hands sample_start = (\<lambda>_. None)" "findPc sample_start = FTop" "acceptPc sample_start = AStart"
  "gossipPc sample_start = GTop" "stopped sample_start = False" "bindAddrs sample_start = []"
  by (simp_all add: sample_start_def NetService_Run_def NetService_New_def Let_def)

lemma sample_running: "node_running sample_gossip sample_net"
proof -
  let ?step = "net_step sample_gossip (sqliteStore sample_gossip) (other_service sample_gossip)"
  let ?n1 = "sample_start\<lparr>nextId := 2, connections := [1],
     peers := (peers sample_start)(1 \<mapsto> newPeer 1 zero_address NoPubKey False False sample_start)\<rparr>"
  have s: "net_started sample_start"
    unfolding sample_start_def by (rule net_started.intros)
  have g: "good_world sample_world" "keys32 (registered sample_world)"
    by (simp_all add: good_world_def keys32_def registered_def)
  have "acceptIncoming sample_gossip (Accepted []) 0 sample_start = Some ?n1"
    by (simp add: acceptIncoming_def open_peer_def trackPeer_def Let_def numeral_2_eq_2 newPeer_def)
  then have 1: "?step sample_start ?n1" by (intro net_step.AcceptPeer) auto
  have 2: "?step\<^sup>*\<^sup>* ?n1 sample_net"
    unfolding sample_net_def by (rule net_step_ReceiveAnnounce) simp
  show ?thesis
    unfolding node_running_def using s g converse_rtranclp_into_rtranclp [of ?step, OF 1 2]
    by (intro exI [of _ sample_start]) auto
qed

lemma sample_net_fields [simp]:
  "peers sample_net 1 = Some (newPeer 1 zero_address NoPubKey False False sample_start)"
  "peers sample_net (Suc 0) = Some (newPeer 1 zero_address NoPubKey False False sample_start)"
  "connectedPeers sample_net = []" "closed sample_net = {}" "encAnnounce sample_net = sample_ann"
  "nodeKey sample_net = sample_key" "clock sample_net = 7 * Second" "stState sample_net = sample_world"
  "\<not> crashed sample_net" "\<not> stopping sample_net" "hands sample_net = (\<lambda>_. None)"
  "findPc sample_net = FTop" "lockedPeers sample_net = []" "connections sample_net = [1]" "gossipPc sample_net = GTop"
  by (simp_all add: sample_net_def ReceiveAnnounce_def ns_setAnnounce_def forwardToPeers_eq)

definition sample_addr :: addressMsg where
  "sample_addr = \<lparr>amTime = 7, amAddress = IPv4 8 8 8 8, amPort = 22, amOwner = replicate 32 0,
     amChannels = [], amServices = []\<rparr>"

lemma sample_ip: "IsGlobalUnicast (IPv4 8 8 8 8) \<and> \<not> IsPrivate (IPv4 8 8 8 8)"
  by code_simp

lemma sample_decoded: "sample_decode (mPayload sample_msg) = Some sample_addr"
  by code_simp

lemma sample_checks:
  "ingest_checks sample_gossip (7 * Second) False sample_msg = Inr sample_addr"
  using sample_ip sample_decoded
  by (simp add: ingest_checks_def OldestAddrTime_def NewestAddrTime_def time_units Let_def sample_gossip_def)
    (simp add: sample_addr_def sample_msg_def)


lemma sample_AddNetNode:
  "\<exists>isnew s. AddNetNode sample_gossip k a t ow [] pl sg sample_world = Some ((isnew, None), s)"
proof -
  have rows: "node sample_db = []" "chan sample_db = []" by (simp_all add: sample_db_def empty_db_def)
  have "\<exists>d'. AddNetNode_work sample_gossip k a t ow [] pl sg False (disk sample_world, []) = (None, True, d', [])"
    using good_sample(1) good_dayc [OF good_sample(1)] rows
    by (simp add: AddNetNode_work_def AddNetNode_channels_def stmt_defs sql_prepare_def node_at_def)
  then obtain d' where "AddNetNode_work sample_gossip k a t ow [] pl sg False (disk sample_world, []) = (None, True, d', [])"
    by blast
  then have "doTxn ''AddNetNode'' (AddNetNode_work sample_gossip k a t ow [] pl sg) False sample_world =
     Some (None, True, sample_world\<lparr>disk := d'\<rparr>)"
    by (intro doTxn_ok) simp_all
  then show ?thesis by (auto simp: AddNetNode_def results_def)
qed

lemma sample_store_call:
  "\<exists>isnew s. AddNetNode sample_gossip (mPubKey sample_msg) (peer_address sample_addr)
     (Unix (DogeLocal sample_gossip (amTime sample_addr))) (amOwner sample_addr) (amChannels sample_addr)
     (mPayload sample_msg) (mSignature sample_msg) sample_world = Some ((isnew, None), s)"
  using sample_AddNetNode by (simp add: sample_addr_def)

lemma sample_handshake:
  "\<exists>n y. node_running sample_gossip n \<and> peers n 1 = Some y \<and> established y \<and> 1 \<notin> closed n \<and> pPub y = replicate 32 7"
proof -
  obtain isnew s where s: "AddNetNode sample_gossip (mPubKey sample_msg) (peer_address sample_addr)
     (Unix (DogeLocal sample_gossip (amTime sample_addr))) (amOwner sample_addr) (amChannels sample_addr)
     (mPayload sample_msg) (mSignature sample_msg) (stState sample_net) = Some ((isnew, None), s)"
    using sample_store_call by auto
  have m: "is_address sample_gossip sample_msg" "length (mPubKey sample_msg) = 32"
     "mPubKey sample_msg \<noteq> Pub (nodeKey sample_net)" "mPubKey sample_msg = replicate 32 7"
    by (simp_all add: is_address_def sample_msg_def sample_key_def)
  have x: "peers sample_net 1 = Some (newPeer 1 zero_address NoPubKey False False sample_start)"
    "pRecv (newPeer 1 zero_address NoPubKey False False sample_start) = RAwaitFirst"
    "pAllowLocal (newPeer 1 zero_address NoPubKey False False sample_start) = False"
    by (simp_all add: newPeer_def)
  have ok: "net_ok sample_net" using node_running_ok [OF sample_running] by simp
  have e: "Header (encAnnounce sample_net) \<noteq> []" "map_of (connectedPeers sample_net) (mPubKey sample_msg) = None"
    "1 \<notin> closed sample_net"
    "ingest_checks sample_gossip (clock sample_net) False sample_msg = Inr sample_addr"
    using sample_checks by (simp_all add: sample_ann_def)
  obtain n' y where "(net_step sample_gossip (sqliteStore sample_gossip) (other_service sample_gossip))\<^sup>*\<^sup>* sample_net n'"
     "peers n' 1 = Some y" "pRecv y = RLoop" "pPub y = replicate 32 7" "closed n' = {}"
    using inbound_completes [where others = "other_service sample_gossip", OF ok sample_net_fields(9,10) x(1,2) e(3,1) m(1-3) e(2), unfolded x(3), OF e(4),
        where S = "sqliteStore sample_gossip" and isnew = isnew and s = s, unfolded sqliteStore_fields, OF s]
    unfolding m(4) by auto
  moreover from this(1) have "node_running sample_gossip n'"
    using sample_running unfolding node_running_def by (meson rtranclp_trans)
  ultimately show ?thesis by (intro exI [of _ n'] exI [of _ y]) (simp add: established_def)
qed

section \<open>Properties\<close>

text \<open>
  The Go types of the shared state: keys are arrays of 32 bytes, the channels hold at most
  as many elements as they were made for, and a pointer belongs to one structure: a number
  names a peer connection or a handler connection, not both, was handed out before, and is
  the number of its own socket.
\<close>

definition net_typed :: "'s net \<Rightarrow> bool" where
  "net_typed n \<longleftrightarrow>
     (\<forall>p x. peers n p = Some x \<longrightarrow>
        length (pPub x) = 32 \<and> length (pSend x) \<le> 100 \<and> pConn x = p \<and> p < nextId n \<and> hands n p = None) \<and>
     (\<forall>h x. hands n h = Some x \<longrightarrow> hConn x = h \<and> h < nextId n \<and> peers n h = None) \<and>
     (\<forall>(k, p) \<in> set (connectedPeers n). length k = 32 \<and> p \<in> dom (peers n)) \<and>
     length (newPeers n) \<le> 10 \<and> length (announceChanges n) \<le> 10 \<and>
     (\<forall>np \<in> set (newPeers n). length (niPubKey np) = 32) \<and>
     (\<forall>np b. findPc n \<in> {FGot np b, FLock np b, FDial np b} \<longrightarrow> length (niPubKey np) = 32) \<and>
     (\<forall>c \<in> set (connections n). c < nextId n) \<and> (\<forall>c. nextId n \<le> c \<longrightarrow> wire n c = [])"



text \<open>
  C4: an honest inbound peer is accepted. In every state the running node can be in: if a
  tracked inbound connection is waiting for the first message and is open, the node is not
  stopping and has an announcement, and the message that arrives is a valid address
  announcement by a key that is neither this node's nor connected, and the store accepts
  it, then there is a run in which the peer ends registered under its key at its announced
  address, relaying messages, with exactly this node's announcement, header first, written
  to it, and the store in the state the store call left.
\<close>

theorem inbound_handshake_completes:
  assumes "node_running G n" "\<not> crashed n" "\<not> stopping n" "Header (encAnnounce n) \<noteq> []"
    and "peers n p = Some x" "pRecv x = RAwaitFirst" "p \<notin> closed n"
    and "is_address G m" "length (mPubKey m) = 32" "mPubKey m \<noteq> Pub (nodeKey n)"
    and "\<not> havePeer (mPubKey m) n"
    and "ingest_checks G (clock n) (pAllowLocal x) m = Inr addr"
    and "AddNetNode G (mPubKey m) (peer_address addr) (Unix (DogeLocal G (amTime addr)))
      (amOwner addr) (amChannels addr) (mPayload m) (mSignature m) (stState n) = Some ((isnew, None), w)"
  shows "\<exists>n' y. (net_step G (sqliteStore G) (other_service G))\<^sup>*\<^sup>* n n' \<and> peers n' p = Some y \<and>
     established y \<and> pSender y = STop \<and> pPub y = mPubKey m \<and> pAddr y = peer_address addr \<and>
     map_of (connectedPeers n') (mPubKey m) = Some p \<and>
     wire n' p = [Header (encAnnounce n), Payload (encAnnounce n)] \<and> stState n' = w \<and> closed n' = closed n"
proof -
  have "net_ok n" using node_running_ok [OF assms(1)] by simp
  from inbound_completes [OF this assms(2,3,5-7,4,8-10) _ assms(12), of "sqliteStore G" isnew w "other_service G"] assms(11,13)
  show ?thesis by (fastforce simp: havePeer_def established_def)
qed

theorem inbound_handshake_completes_witness:
  "\<exists>n' y. (net_step sample_gossip (sqliteStore sample_gossip) (other_service sample_gossip))\<^sup>*\<^sup>* sample_net n' \<and>
     peers n' 1 = Some y \<and> established y \<and> wire n' 1 = [[1], [2]]"
proof -
  obtain isnew s where s: "AddNetNode sample_gossip (mPubKey sample_msg) (peer_address sample_addr)
     (Unix (DogeLocal sample_gossip (amTime sample_addr))) (amOwner sample_addr) (amChannels sample_addr)
     (mPayload sample_msg) (mSignature sample_msg) (stState sample_net) = Some ((isnew, None), s)"
    using sample_store_call by auto
  have x: "peers sample_net 1 = Some (newPeer 1 zero_address NoPubKey False False sample_start)"
    "pRecv (newPeer 1 zero_address NoPubKey False False sample_start) = RAwaitFirst"
    "pAllowLocal (newPeer 1 zero_address NoPubKey False False sample_start) = False"
    by (simp_all add: newPeer_def)
  have m: "is_address sample_gossip sample_msg" "length (mPubKey sample_msg) = 32"
     "mPubKey sample_msg \<noteq> Pub (nodeKey sample_net)"
    by (simp_all add: is_address_def sample_msg_def sample_key_def)
  have e: "Header (encAnnounce sample_net) \<noteq> []" "\<not> havePeer (mPubKey sample_msg) sample_net"
    "1 \<notin> closed sample_net"
    "ingest_checks sample_gossip (clock sample_net) False sample_msg = Inr sample_addr"
    using sample_checks by (simp_all add: sample_ann_def havePeer_def)
  from inbound_handshake_completes [OF sample_running sample_net_fields(9,10) e(1) x(1,2) e(3) m e(2),
      unfolded x(3), OF e(4) s]
  show ?thesis by (auto simp: sample_ann_def)
qed



text \<open>
  C17: what the node gossips of others is stored, and the gossip never panics. In every state
  of the running node the goroutine that gossips random addresses keeps the process alive:
  the key it converts to an array always has 32 bytes. Whatever message it goes on to
  forward is the announcement stored for some key, with the stored signature. The process
  can be ended in one place only, the accept loop for handlers.
\<close>

theorem gossip_sends_stored:
  assumes "node_running G n" "gossipRandomAddresses G (sqliteStore G) ev n = Some n'"
  shows "crashed n' = crashed n \<and> (crashed n \<longrightarrow> acceptPc n = AAccept) \<and>
    (\<forall>msg. gossipPc n' = GForward msg \<longrightarrow>
       (\<exists>k pl sg. length k = 32 \<and> registered (stState n) k = Some (pl, sg) \<and>
          msg = ReEncodeMessage G (DnetChannelNode G) (TagAddress G) k sg pl))"
  using sqlite.gossip_stored [OF assms(2)] node_running_ok [OF assms(1)] by blast

theorem gossip_sends_stored_witness:
  "\<exists>n'. gossipRandomAddresses sample_gossip (sqliteStore sample_gossip) (Pick 3) sample_net = Some n' \<and> \<not> crashed n'"
proof -
  have "gossipRandomAddresses sample_gossip (sqliteStore sample_gossip) (Pick 3) sample_net =
      Some (sample_net\<lparr>gossipPc := GSleep (70 * Second)\<rparr>)"
    by (simp add: gossipRandomAddresses_def GossipAddressInverval_def GossipAddressRandom_def)
  from gossip_sends_stored [OF sample_running this] this show ?thesis by simp
qed

section \<open>Witnesses of the properties of the net service\<close>


theorem closePeer_only_own_witness:
  "1 \<in> closed (closePeer 1 sample_net) \<and> closePeer 1 (closePeer 1 sample_net) = closePeer 1 sample_net"
  using closePeer_only_own [OF node_running_reachable [OF sample_running] sqlite_typed sample_net_fields(1)]
  by simp

theorem forwardToPeers_delivers_witness:
  "\<exists>n y. node_running sample_gossip n \<and> peers n 1 = Some y \<and>
     (length (pSend y) < 100 \<longrightarrow> peers (forwardToPeers sample_ann n) 1 = Some (y\<lparr>pSend := pSend y @ [sample_ann]\<rparr>))"
proof -
  obtain n y where n: "node_running sample_gossip n" "peers n 1 = Some y" "established y" "1 \<notin> closed n"
     "pPub y = replicate 32 7"
    using sample_handshake by blast
  then have "map_of (connectedPeers n) (pPub y) = Some 1"
    using net_ok_registered [of n 1 y] node_running_ok [OF n(1)] by (simp add: NoPubKey_def)
  then have "1 \<in> snd ` set (connectedPeers n)" by (force dest: map_of_SomeD)
  with forwardToPeers_delivers [OF node_running_reachable [OF n(1)] sqlite_typed, of sample_ann] n(1,2)
  show ?thesis by (intro exI [of _ n] exI [of _ y]) auto
qed

theorem Stop_closes_all_witness: "1 \<in> closed (Stop sample_net)"
  using Stop_closes_all [OF node_running_reachable [OF sample_running] sqlite_typed, of 1] by simp

theorem forwardToHandlers_delivers_witness:
  "fst (forwardToHandlers 5 [1] [2] (sample_net\<lparr>handlers := [9],
     hands := [9 \<mapsto> (newHandler 9)\<lparr>hChannel := 5, hSender := SSelect\<rparr>]\<rparr>))"
  by (rule conjunct1 [OF forwardToHandlers_delivers, THEN iffD2]) simp

end
