(* ===== verification/JsonTrips.thy ===== *)
theory JsonTrips
  imports GoJson
begin

section \<open>What is written is read back\<close>

text \<open>A text inside a string literal: the scanner takes it over as it is.\<close>

definition scannable :: "string \<Rightarrow> bool" where
  "scannable r \<longleftrightarrow> (\<forall>buf st. scan_run r (InString buf, st) = Some (InString (buf @ r), st))"

lemma scan_run_append:
  "scan_run (xs @ ys) s = (case scan_run xs s of None \<Rightarrow> None | Some s' \<Rightarrow> scan_run ys s')"
  by (induction xs arbitrary: s) (auto split: option.splits)

lemma scannable_append: "scannable a \<Longrightarrow> scannable b \<Longrightarrow> scannable (a @ b)"
  by (simp add: scannable_def scan_run_append)

lemma char_of_code [simp]: "char_of (char_code c) = c"
  by (simp add: char_code_def)

lemma code_bound: "char_code c < 256"
  by (metis char_of_code char_code_def of_char_of mod_less_divisor zero_less_numeral)

lemma code_quote [simp]: "char_code quote = 34" "char_code backslash = 92"
  by (simp_all add: char_code_def quote_def backslash_def)

lemma code_letters [simp]:
  "char_code (CHR ''u'') = 117" "char_code (CHR ''0'') = 48" "char_code (CHR ''n'') = 110" "char_code (CHR ''r'') = 114"
  "char_code (CHR ''t'') = 116" "char_code (CHR ''['') = 91" "char_code (CHR '']'') = 93" "char_code (CHR ''{'') = 123" "char_code (CHR ''}'') = 125" "char_code (CHR ''f'') = 102"
  by (simp_all add: char_code_def)

lemma code_neq: "char_code c \<noteq> char_code d \<Longrightarrow> c \<noteq> d"
  by auto

lemma quote_neq [simp]:
  "backslash \<noteq> quote" "CHR ''u'' \<noteq> quote" "CHR ''u'' \<noteq> backslash" "CHR ''n'' \<noteq> quote" "CHR ''n'' \<noteq> backslash"
  "CHR ''r'' \<noteq> quote" "CHR ''r'' \<noteq> backslash" "CHR ''t'' \<noteq> quote" "CHR ''t'' \<noteq> backslash" "quote \<noteq> backslash"
  "quote \<noteq> CHR ''[''" "quote \<noteq> CHR '']''" "quote \<noteq> CHR ''{''" "quote \<noteq> CHR ''}''" "CHR ''f'' \<noteq> quote"
  by (rule code_neq, simp)+

lemma hex_digits: "char_code c div 16 < 16" "char_code c mod 16 < 16"
  using code_bound [of c] by auto

lemma json_char_scannable: "scannable (json_char c)"
proof -
  have z: "fromHexChar (CHR ''0'') = Some 0" by code_simp
  show ?thesis
    using fromHexChar_hextable [OF hex_digits(1) [of c]] fromHexChar_hextable [OF hex_digits(2) [of c]]
    by (auto simp: scannable_def json_char_def z)
qed

lemma scannable_plain: "\<forall>c \<in> set r. 128 \<le> char_code c \<Longrightarrow> scannable r"
proof (induction r)
  case (Cons c r)
  then have "c \<noteq> quote" "c \<noteq> backslash" "\<not> char_code c < 32" by auto
  then show ?case using Cons by (simp add: scannable_def)
qed (simp add: scannable_def)

lemma utf8_bytes:
  assumes "128 \<le> char_code c" "d \<in> set (take (utf8_size (c # s)) (c # s))"
  shows "128 \<le> char_code d"
proof -
  let ?k = "utf8_size (c # s)"
  obtain i where i: "i < ?k" "i < length (c # s)" "d = (c # s) ! i"
    using assms(2) by (metis in_set_conv_nth length_take min_less_iff_conj nth_take)
  have "?k \<le> 4" by (simp add: utf8_size_def Let_def)
  then consider "i = 0" | "i = 1" | "i = 2" | "i = 3" using i(1) by linarith
  then show ?thesis
    using i assms(1) by cases (auto simp: utf8_size_def Let_def in_range_def split: if_splits)
qed

lemma json_rune_scannable:
  assumes "\<forall>c \<in> set r. 128 \<le> char_code c"
  shows "scannable (json_rune r)"
proof -
  have "fromHexChar (CHR ''0'') = Some 0" "fromHexChar (CHR ''2'') = Some 2" "fromHexChar (CHR ''8'') = Some 8"
    "fromHexChar (CHR ''9'') = Some 9" by code_simp+
  then show ?thesis using scannable_plain [OF assms] by (simp add: json_rune_def scannable_def)
qed

lemma json_escape_scannable: "scannable (json_escape s)"
proof (induction s rule: json_escape.induct)
  case (2 c s)
  have f: "fromHexChar (CHR ''f'') = Some 15" "fromHexChar (CHR ''d'') = Some 13" by code_simp+
  then have "scannable (backslash # ''ufffd'')" by (simp add: scannable_def)
  from scannable_append [OF this] have bad: "scannable r \<Longrightarrow> scannable (backslash # ''ufffd'' @ r)" for r by simp
  have "scannable (json_rune (take (utf8_size (c # s)) (c # s)))" if "\<not> char_code c < 128"
    using json_rune_scannable utf8_bytes that by (metis not_less)
  then show ?case
    using 2 json_char_scannable bad by (subst json_escape.simps) (auto intro: scannable_append)
qed (simp add: json_escape.simps scannable_def)

lemma scan_string:
  assumes "scannable r" "s \<in> {BeginValue, BeginString}"
  shows "scan_run (quote # r @ [quote]) (s, st) = Some (value_read (JString r) st)"
proof -
  have "stateBeginValue quote st = Some (InString [], st)" "stateBeginString quote st = Some (InString [], st)"
    by (simp_all add: stateBeginValue_def stateBeginString_def isSpace_def)
  then show ?thesis using assms by (auto simp: scannable_def scan_run_append)
qed

text \<open>The values \<open>json_print\<close> is used for: strings as they are scanned, no numbers.\<close>

fun writable :: "json \<Rightarrow> bool" where
  "writable JNull = True"
| "writable (JBool b) = True"
| "writable (JNumber s) = False"
| "writable (JString s) = scannable s"
| "writable (JArray vs) = (\<forall>v \<in> set vs. writable v)"
| "writable (JObject ms) = (\<forall>(k, v) \<in> set ms. scannable k \<and> writable v)"

fun nesting :: "json \<Rightarrow> nat" where
  "nesting (JArray vs) = Suc (Max (insert 0 (set (map nesting vs))))"
| "nesting (JObject ms) = Suc (Max (insert 0 (set (map (\<lambda>(k, v). nesting v) ms))))"
| "nesting v = 0"

lemma first_char:
  assumes "writable v"
  obtains c cs where "json_print v = c # cs" "\<not> isSpace c" "c \<noteq> CHR '']''"
proof -
  have "\<exists>c cs. json_print v = c # cs \<and> \<not> isSpace c \<and> c \<noteq> CHR '']''"
    using assms by (cases v) (auto simp: isSpace_def)
  then show thesis using that by blast
qed

lemma scan_first:
  assumes "writable v"
  shows "scan_run (json_print v @ rest) (BeginValueOrEmpty, st) = scan_run (json_print v @ rest) (BeginValue, st)"
  using assms by (rule first_char) simp

lemma scan_elements:
  assumes "\<And>v st'. v \<in> set vs \<Longrightarrow> length st' \<le> d \<Longrightarrow> scan_run (json_print v) (BeginValue, st') = Some (value_read v st')"
    and "vs \<noteq> []" "Suc (length st) \<le> d"
  shows "scan_run (json_commas (map json_print vs)) (BeginValue, InArray acc # st) = Some (EndValue, InArray (acc @ vs) # st)"
  using assms
proof (induction vs arbitrary: acc rule: induct_list012)
  case (3 v w vs)
  have "scan_run (json_commas (map json_print (w # vs))) (BeginValue, InArray (acc @ [v]) # st) =
      Some (EndValue, InArray ((acc @ [v]) @ w # vs) # st)"
    by (rule "3.IH"(2)) (use "3.prems" in auto)
  then show ?case using "3.prems"(1) [of v "InArray acc # st"] "3.prems"(3)
    by (simp add: scan_run_append stateEndValue_def isSpace_def char_code_def)
qed simp_all

abbreviation print_member :: "string \<times> json \<Rightarrow> string" where
  "print_member \<equiv> \<lambda>(k, v). quote # k @ [quote] @ '':'' @ json_print v"

lemma scan_member:
  assumes "scan_run (json_print v) (BeginValue, ObjectValue acc k # st) = Some (value_read v (ObjectValue acc k # st))"
    and "scannable k"
  shows "scan_run (print_member (k, v)) (BeginString, ObjectKey acc # st) = Some (EndValue, ObjectNext (acc @ [(k, v)]) # st)"
proof -
  have "print_member (k, v) = (quote # k @ [quote]) @ CHR '':'' # json_print v" by simp
  then show ?thesis
    using assms by (simp only: scan_run_append scan_string [OF assms(2), of BeginString] insertI1 insertI2 option.case)
      (simp add: stateEndValue_def isSpace_def char_code_def)
qed

lemma scan_members:
  assumes "\<And>m st'. m \<in> set ms \<Longrightarrow> length st' \<le> d \<Longrightarrow>
      scan_run (json_print (snd m)) (BeginValue, st') = Some (value_read (snd m) st')"
    and "\<And>m. m \<in> set ms \<Longrightarrow> scannable (fst m)"
    and "ms \<noteq> []" "Suc (length st) \<le> d"
  shows "scan_run (json_commas (map print_member ms)) (BeginString, ObjectKey acc # st) = Some (EndValue, ObjectNext (acc @ ms) # st)"
  using assms
proof (induction ms arbitrary: acc rule: induct_list012)
  case (2 m)
  obtain k v where m: "m = (k, v)" by (cases m)
  show ?case using scan_member [of v acc k st] 2(1) [of m "ObjectValue acc k # st"] 2(2) [of m] 2(4) m by simp
next
  case (3 m n ms)
  obtain k v where m: "m = (k, v)" by (cases m)
  have "scan_run (json_commas (map print_member (n # ms))) (BeginString, ObjectKey (acc @ [m]) # st) =
      Some (EndValue, ObjectNext ((acc @ [m]) @ n # ms) # st)"
    by (rule "3.IH"(2)) (use "3.prems" in auto)
  moreover have "scan_run (print_member (k, v)) (BeginString, ObjectKey acc # st) = Some (EndValue, ObjectNext (acc @ [(k, v)]) # st)"
    using scan_member [of v acc k st] "3.prems"(1) [of m "ObjectValue acc k # st"] "3.prems"(2) [of m] "3.prems"(4) m by simp
  moreover have "stateEndValue (CHR '','') (ObjectNext (acc @ [m]) # st) = Some (BeginString, ObjectKey (acc @ [m]) # st)"
    by (simp add: stateEndValue_def isSpace_def char_code_def)
  moreover have "json_commas (map print_member (m # n # ms)) =
      print_member (k, v) @ CHR '','' # json_commas (map print_member (n # ms))" using m by simp
  ultimately show ?case using m by (simp only: scan_run_append option.case scan_run.simps scan_step.simps) simp
qed simp

lemma nesting_member:
  "v \<in> set vs \<Longrightarrow> nesting v < nesting (JArray vs)" "(k, v) \<in> set ms \<Longrightarrow> nesting v < nesting (JObject ms)"
  by (force simp: less_Suc_eq_le intro!: Max_ge)+

lemma scan_print:
  assumes "writable j" "length st + nesting j \<le> maxNestingDepth"
  shows "scan_run (json_print j) (BeginValue, st) = Some (value_read j st)"
  using assms
proof (induction j arbitrary: st rule: json_print.induct)
  case (4 s)
  then show ?case using scan_string [of s BeginValue st] by simp
next
  case (5 vs)
  let ?d = "maxNestingDepth - (nesting (JArray vs) - 1)"
  have lt: "length st < maxNestingDepth" using 5(3) by simp
  show ?case
  proof (cases "vs = []")
    case True
    then show ?thesis using lt by (simp add: stateBeginValue_def pushParseState_def isSpace_def char_code_def)
  next
    case False
    have "scan_run (json_commas (map json_print vs)) (BeginValue, InArray [] # st) = Some (EndValue, InArray ([] @ vs) # st)"
    proof (rule scan_elements [of vs ?d])
      fix v and st' :: "frame list" assume v: "v \<in> set vs" "length st' \<le> ?d"
      have "nesting v < nesting (JArray vs)" by (rule nesting_member(1) [OF v(1)])
      then show "scan_run (json_print v) (BeginValue, st') = Some (value_read v st')"
        using 5(1) [OF v(1)] 5(2,3) v by fastforce
    qed (use False 5(3) in auto)
    moreover have "scan_run (json_commas (map json_print vs) @ '']'') (BeginValueOrEmpty, InArray [] # st) =
        scan_run (json_commas (map json_print vs) @ '']'') (BeginValue, InArray [] # st)"
    proof -
      obtain v us where vs: "vs = v # us" using False by (cases vs) auto
      then show ?thesis using scan_first [of v _ "InArray [] # st"] 5(2) by (cases us) auto
    qed
    ultimately show ?thesis using lt
      by (simp add: stateBeginValue_def pushParseState_def isSpace_def char_code_def scan_run_append stateEndValue_def)
  qed
next
  case (6 ms)
  let ?d = "maxNestingDepth - (nesting (JObject ms) - 1)"
  have lt: "length st < maxNestingDepth" using 6(3) by simp
  have member_print: "map (\<lambda>(k, v). quote # k @ [quote] @ '':'' @ json_print v) ms = map print_member ms" by simp
  show ?case
  proof (cases "ms = []")
    case True
    then show ?thesis using lt by (simp add: stateBeginValue_def pushParseState_def isSpace_def char_code_def)
  next
    case False
    have "scan_run (json_commas (map print_member ms)) (BeginString, ObjectKey [] # st) = Some (EndValue, ObjectNext ([] @ ms) # st)"
    proof (rule scan_members [of ms ?d])
      fix m and st' :: "frame list" assume v: "m \<in> set ms" "length st' \<le> ?d"
      obtain k v where m: "m = (k, v)" by (cases m)
      have "nesting v < nesting (JObject ms)" using nesting_member(2) v(1) m by blast
      then show "scan_run (json_print (snd m)) (BeginValue, st') = Some (value_read (snd m) st')"
        using 6(1) [OF v(1), of k v st'] 6(2,3) v m by fastforce
    next
      fix m assume "m \<in> set ms"
      then show "scannable (fst m)" using 6(2) by auto
    qed (use False 6(3) in auto)
    moreover have "scan_run (json_commas (map print_member ms) @ ''}'') (BeginStringOrEmpty, ObjectKey [] # st) =
        scan_run (json_commas (map print_member ms) @ ''}'') (BeginString, ObjectKey [] # st)"
    proof -
      obtain k v us where "ms = (k, v) # us" using False by (cases ms) auto
      then obtain cs where "json_commas (map print_member ms) @ ''}'' = quote # cs" by (cases us) auto
      then show ?thesis by (simp add: isSpace_def)
    qed
    ultimately show ?thesis using lt
      by (simp add: stateBeginValue_def pushParseState_def isSpace_def char_code_def scan_run_append stateEndValue_def member_print)
  qed
next
  case 1
  then show ?case by (simp add: stateBeginValue_def isSpace_def isDigit_def)
next
  case (2 b)
  then show ?case
    by (simp add: stateBeginValue_def isSpace_def isDigit_def)
qed simp

lemma parse_print:
  assumes "writable j" "nesting j \<le> maxNestingDepth"
  shows "json_parse (json_print j) = Some j"
proof -
  have "scan_run (json_print j) (BeginValue, []) = Some (EndTop j, [])"
    using scan_print [OF assms(1), of "[]"] assms(2) by (cases j) auto
  then show ?thesis by (simp add: json_parse_def scan_run_append isSpace_def char_code_def)
qed

section \<open>Escaped strings\<close>

definition ascii :: "string \<Rightarrow> bool" where
  "ascii s \<longleftrightarrow> (\<forall>c \<in> set s. char_code c < 128)"

lemma EncodeToString_ascii: "ascii (EncodeToString b)"
proof -
  have "\<forall>k \<in> set [0..<16]. char_code (hextable ! k) < 128" by code_simp
  then have h: "char_code (hextable ! k) < 128" if "k < 16" for k using that by simp
  have "unat v < 256" for v :: byte using unsigned_less [of v] by simp
  then have "unat v div 16 < 16" "unat v mod 16 < 16" for v :: byte
    by (auto simp: div_less_iff_less_mult)
  then show ?thesis by (auto simp: ascii_def EncodeToString_def h)
qed

lemma unquote_char:
  assumes "char_code c < 128"
  shows "unquote (json_char c @ t) = c # unquote t"
proof -
  have plain: "unquote (c # t) = c # unquote t" if "c \<noteq> backslash"
    using assms that by (simp add: unquote.simps(2) utf8_size_def)
  have esc: "unquote (backslash # d # t) = escaped d # unquote t" if "d \<noteq> CHR ''u''" for d
    using that by (simp add: unquote.simps(2))
  have z: "fromHexChar (CHR ''0'') = Some 0" by code_simp
  have hex: "hex4 (''00'' @ [hextable ! (char_code c div 16), hextable ! (char_code c mod 16)] @ t) = Some (char_code c)"
    by (simp add: hex4_def z fromHexChar_hextable [OF hex_digits(1)] fromHexChar_hextable [OF hex_digits(2)])
  have u: "unquote (backslash # CHR ''u'' # ''00'' @ [hextable ! (char_code c div 16), hextable ! (char_code c mod 16)] @ t) =
      c # unquote t"
    using assms by (simp only: unquote.simps(2) list.case simp_thms if_True hex option.case)
      (simp add: utf8_encode_def)
  have one: "char_code c = 10 \<Longrightarrow> c = char_of (10 :: nat)" "char_code c = 13 \<Longrightarrow> c = char_of (13 :: nat)"
    "char_code c = 9 \<Longrightarrow> c = char_of (9 :: nat)"
    by (metis char_of_code)+
  have e: "escaped quote = quote" "escaped backslash = backslash" "escaped (CHR ''n'') = char_of (10 :: nat)"
    "escaped (CHR ''r'') = char_of (13 :: nat)" "escaped (CHR ''t'') = char_of (9 :: nat)"
    by code_simp+
  have u': "quote \<noteq> CHR ''u''" "backslash \<noteq> CHR ''u''" "CHR ''n'' \<noteq> CHR ''u''" "CHR ''r'' \<noteq> CHR ''u''" "CHR ''t'' \<noteq> CHR ''u''"
    by code_simp+
  show ?thesis
    unfolding json_char_def
    using u plain esc [OF u'(1)] esc [OF u'(2)] esc [OF u'(3)] esc [OF u'(4)] esc [OF u'(5)] one
    by (auto simp: e)
qed

lemma unquote_escape: "ascii s \<Longrightarrow> unquote (json_escape s) = s"
  by (induction s) (simp_all add: json_escape.simps ascii_def unquote_char unquote.simps(1))

text \<open>A structure of strings is read back.\<close>

lemma string_field_object:
  assumes "\<forall>(k, s) \<in> set fields. ascii k \<and> ascii s" "distinct (map (fold_name \<circ> fst) fields)"
    and "name \<in> fst ` set fields"
  shows "string_field name (map (\<lambda>(k, s). (json_escape k, JString (json_escape s))) fields) cur = map_of fields name"
proof -
  have other: "string_field name (map (\<lambda>(k, s). (json_escape k, JString (json_escape s))) fs) cur = Some cur"
    if "\<forall>(k, s) \<in> set fs. ascii k \<and> ascii s" "fold_name name \<notin> fold_name ` fst ` set fs" for fs :: "(string \<times> string) list" and cur
    using that by (induction fs) (auto simp: unquote_escape selects_def image_iff)
  show ?thesis
    using assms
  proof (induction fields arbitrary: cur)
    case (Cons f fs)
    obtain k s where f: "f = (k, s)" by (cases f)
    show ?case
    proof (cases "name = k")
      case True
      then show ?thesis
        using Cons.prems f other [of fs s] by (auto simp: unquote_escape selects_def image_iff)
    next
      case False
      then have "name \<in> fst ` set fs" using Cons.prems(3) f by auto
      then have "\<not> selects k name" using Cons.prems(2) f False by (force simp: selects_def)
      then show ?thesis using Cons f False \<open>name \<in> fst ` set fs\<close> by (simp add: unquote_escape)
    qed
  qed simp
qed

lemma object_writable: "writable (json_object fields)" "nesting (json_object fields) \<le> 1"
proof -
  have "set (map (\<lambda>(k, v). nesting v) (map (\<lambda>(k, s). (json_escape k, JString (json_escape s))) fields)) \<subseteq> {0}"
    by auto
  then have "Max (insert 0 (set (map (\<lambda>(k, v). nesting v) (map (\<lambda>(k, s). (json_escape k, JString (json_escape s))) fields)))) = 0"
    by (metis Max_singleton insert_absorb2 subset_singletonD)
  then show "nesting (json_object fields) \<le> 1" by (simp add: json_object_def)
qed (auto simp: json_object_def json_escape_scannable)

lemma those_Some [simp]: "those (map Some xs) = Some xs"
  by (induction xs) auto

lemma those_map: "(\<And>x. x \<in> set xs \<Longrightarrow> f x = Some (g x)) \<Longrightarrow> those (map f xs) = Some (map g xs)"
  using those_Some [of "map g xs"] by (metis (mono_tags, lifting) list.map_comp map_cong comp_apply)

text \<open>The fields of a structure: ASCII names and values, and names that differ without case.\<close>

definition plain_fields :: "(string \<times> string) list \<Rightarrow> bool" where
  "plain_fields fields \<longleftrightarrow>
     (\<forall>(k, s) \<in> set fields. ascii k \<and> ascii s) \<and> distinct (map (fold_name \<circ> fst) fields)"

lemma unmarshal_object:
  assumes "plain_fields fields"
  shows "unmarshal_struct (map fst fields) (json_object fields) = Some (map snd fields)"
proof -
  have p: "\<forall>(k, s) \<in> set fields. ascii k \<and> ascii s" "distinct (map (fold_name \<circ> fst) fields)"
    using assms by (simp_all add: plain_fields_def)
  have d: "distinct (map fst fields)" using p(2) by (auto simp: distinct_map inj_on_def)
  have "string_field k (map (\<lambda>(k, s). (json_escape k, JString (json_escape s))) fields) [] = Some s"
    if "(k, s) \<in> set fields" for k s
    using string_field_object [OF p, of k "[]"] that map_of_is_SomeI [OF d that] by force
  then have "map (\<lambda>name. string_field name (map (\<lambda>(k, s). (json_escape k, JString (json_escape s))) fields) [])
      (map fst fields) = map Some (map snd fields)" by auto
  then show ?thesis by (simp only: unmarshal_struct_def json_object_def json.case those_Some)
qed

lemma unmarshal_marshal:
  assumes "plain_fields fields"
  shows "unmarshal_strings (map fst fields) (json_print (json_object fields)) = Some (map snd fields)"
proof -
  have "json_parse (json_print (json_object fields)) = Some (json_object fields)"
    using parse_print [OF object_writable(1), of fields] object_writable(2) [of fields] by (simp add: maxNestingDepth_def)
  then show ?thesis using unmarshal_object [OF assms] by (simp add: unmarshal_strings_def)
qed

lemma unmarshal_marshal_slice:
  assumes "\<And>fields. fields \<in> set rows \<Longrightarrow> plain_fields fields \<and> map fst fields = names"
  shows "unmarshal_slice names (json_print (JArray (map json_object rows))) = Some (map (map snd) rows)"
proof -
  have "nesting (json_object fields) \<le> 9999" for fields
    using object_writable(2) [of fields] by simp
  then have "nesting (JArray (map json_object rows)) \<le> maxNestingDepth"
    by (simp add: maxNestingDepth_def)
  then have "json_parse (json_print (JArray (map json_object rows))) = Some (JArray (map json_object rows))"
    by (intro parse_print) (auto simp: object_writable(1))
  moreover have "those (map (unmarshal_struct names) (map json_object rows)) = Some (map (map snd) rows)"
    using those_map [of rows "unmarshal_struct names \<circ> json_object" "map snd"] unmarshal_object assms by (auto simp: o_def)
  ultimately show ?thesis by (simp only: unmarshal_slice_def option.case json.case)
qed

end
