(* ===== verification/Web.thy ===== *)
theory Web
  imports NetState JsonTrips
begin

text \<open>
  The web API (\<open>internal/web/web.go\<close>): the two handlers of its routes as functions from a
  request, the store and the net service to the response. A Go string or byte slice that is
  a body is its list of characters. Its \<open>Run\<close> and \<open>Stop\<close> are in WebServer.
\<close>

section \<open>Requests and responses (net/http)\<close>

record request =
  rqMethod :: string
  rqPath :: string
  rqBody :: "goerr + string"

record response =
  rsStatus :: int
  rsHeader :: "(string \<times> string) list"
  rsBody :: string

definition no_response :: response where
  "no_response = \<lparr>rsStatus = 200, rsHeader = [], rsBody = []\<rparr>"

definition header_Set :: "string \<Rightarrow> string \<Rightarrow> response \<Rightarrow> response" where
  "header_Set k v r = r\<lparr>rsHeader := AList.update k v (rsHeader r)\<rparr>"

text \<open>\<open>http.Error\<close>: the body is the text and a newline.\<close>

definition http_Error :: "string \<Rightarrow> int \<Rightarrow> response \<Rightarrow> response" where
  "http_Error text status r =
     (header_Set ''X-Content-Type-Options'' ''nosniff''
       (header_Set ''Content-Type'' ''text/plain; charset=utf-8'' r))
     \<lparr>rsStatus := status, rsBody := text @ [char_of (10::nat)]\<rparr>"

section \<open>Bodies\<close>

definition json_netNode :: "netNode \<Rightarrow> json" where
  "json_netNode n =
     json_object [(''pubkey'', nnPubKey n), (''address'', nnAddress n), (''identity'', nnIdentity n)]"

text \<open>\<open>json.Marshal\<close> of a slice that is not nil, and of a string.\<close>

definition json_netNodes :: "netNode list \<Rightarrow> string" where
  "json_netNodes ns = json_print (JArray (map json_netNode ns))"

definition json_string :: "string \<Rightarrow> string" where
  "json_string s = json_print (JString (json_escape s))"

record addPeer =
  apKey :: string
  apAddr :: string

text \<open>\<open>json.Unmarshal\<close> into an \<open>AddPeer\<close>.\<close>

definition unmarshal_AddPeer :: "string \<Rightarrow> goerr + addPeer" where
  "unmarshal_AddPeer body =
     (case unmarshal_strings [''key'', ''addr''] body of
        Some [key, addr] \<Rightarrow> Inr \<lparr>apKey = key, apAddr = addr\<rparr>
      | _ \<Rightarrow> Inl (OpaqueError ''encoding/json''))"

section \<open>The handlers\<close>

definition options :: "string \<Rightarrow> string \<Rightarrow> response \<Rightarrow> response" where
  "options method allowed w =
     (if method = ''OPTIONS'' then (header_Set ''Allow'' allowed w)\<lparr>rsStatus := 204\<rparr>
      else http_Error ''method not allowed'' 405 (header_Set ''Allow'' allowed w))"

definition json_ok :: "string \<Rightarrow> string \<Rightarrow> response \<Rightarrow> response" where
  "json_ok allowed body w =
     (header_Set ''Allow'' allowed
       (header_Set ''Content-Length'' (itoa (int (length body)))
         (header_Set ''Content-Type'' ''application/json'' w)))\<lparr>rsBody := body\<rparr>"

text \<open>\<open>None\<close> where the store call does not return.\<close>

definition getNodes :: "'s store \<Rightarrow> request \<Rightarrow> 's \<Rightarrow> (response \<times> 's) option" where
  "getNodes S r s =
     (if rqMethod r = ''GET'' then
        (case st_NodeList S s of
           None \<Rightarrow> None
         | Some ((nodes, Some err), s1) \<Rightarrow>
             Some (http_Error (''error in query: '' @ Error err) 500 no_response, s1)
         | Some ((nodes, None), s1) \<Rightarrow> Some (json_ok ''GET, OPTIONS'' (json_netNodes nodes) no_response, s1))
      else Some (options (rqMethod r) ''GET, OPTIONS'' no_response, s))"

text \<open>
  \<open>add_peer\<close> is the method \<open>AddPeer\<close> of the net service, which waits (\<open>None\<close>) while its queue
  is full. The texts of the errors of the decoders are abbreviated.
\<close>

definition addpeer :: "gossip \<Rightarrow> (nodeInfo \<Rightarrow> 'n \<Rightarrow> 'n option) \<Rightarrow> request \<Rightarrow> 'n \<Rightarrow> (response \<times> 'n) option" where
  "addpeer G add_peer r n =
     (if rqMethod r = ''POST'' then
        (case rqBody r of
           Inl err \<Rightarrow> Some (http_Error (''bad request: '' @ Error err) 400 no_response, n)
         | Inr body \<Rightarrow>
             (case unmarshal_AddPeer body of
                Inl err \<Rightarrow> Some (http_Error (''error decoding JSON: '' @ Error err) 400 no_response, n)
              | Inr to \<Rightarrow>
                  (case DecodeString (apKey to) of
                     (pub, bad) \<Rightarrow>
                       if bad \<or> length pub \<noteq> 32
                       then Some (http_Error (''invalid key: '' @ (if bad then ''encoding/hex'' else ''<nil>'')) 400
                              no_response, n)
                       else
                         (case ParseAddress G (apAddr to) of
                            (addr, Some err) \<Rightarrow>
                              Some (http_Error (''invalid peer address: '' @ Error err) 400 no_response, n)
                          | (addr, None) \<Rightarrow>
                              (case add_peer \<lparr>niPubKey = pub, niAddr = addr\<rparr> n of
                                 None \<Rightarrow> None
                               | Some n1 \<Rightarrow>
                                   Some (json_ok ''POST, OPTIONS'' (json_string ''OK'') no_response, n1))))))
      else Some (options (rqMethod r) ''POST, OPTIONS'' no_response, n))"

text \<open>\<open>New\<close> registers the two routes on a mux, which answers 404 for every other path.\<close>

definition web_handle :: "gossip \<Rightarrow> 's store \<Rightarrow> request \<Rightarrow> 's net \<Rightarrow>
    (response \<times> 's net) option" where
  "web_handle G S r n =
     (if rqPath r = ''/nodes'' then
        map_option (\<lambda>(w, s). (w, n\<lparr>stState := s\<rparr>)) (getNodes S r (stState n))
      else if rqPath r = ''/addpeer'' then addpeer G AddPeer r n
      else Some (http_Error ''404 page not found'' 404 no_response, n))"

section \<open>What the API does\<close>

text \<open>A request the handler of \<open>/addpeer\<close> accepts, and the peer it names.\<close>

definition names_peer :: "gossip \<Rightarrow> request \<Rightarrow> nodeInfo \<Rightarrow> bool" where
  "names_peer G r np \<longleftrightarrow>
     rqMethod r = ''POST'' \<and>
     (\<exists>body to. rqBody r = Inr body \<and> unmarshal_AddPeer body = Inr to \<and>
        DecodeString (apKey to) = (niPubKey np, False) \<and> length (niPubKey np) = 32 \<and>
        ParseAddress G (apAddr to) = (niAddr np, None))"

lemma names_peer_key: "names_peer G r np \<Longrightarrow> length (niPubKey np) = 32"
  by (auto simp: names_peer_def)

lemma addpeer_named:
  assumes "names_peer G r np"
  shows "addpeer G add_peer r n =
    map_option (\<lambda>n1. (json_ok ''POST, OPTIONS'' (json_string ''OK'') no_response, n1)) (add_peer np n)"
proof -
  have e: "\<lparr>niPubKey = niPubKey np, niAddr = niAddr np\<rparr> = np" by simp
  obtain body to where "rqMethod r = ''POST''" "rqBody r = Inr body" "unmarshal_AddPeer body = Inr to"
      "DecodeString (apKey to) = (niPubKey np, False)" "length (niPubKey np) = 32"
      "ParseAddress G (apAddr to) = (niAddr np, None)"
    using assms by (auto simp: names_peer_def)
  then show ?thesis by (cases "add_peer np n") (simp_all add: addpeer_def e)
qed

lemma addpeer_refuses:
  assumes "\<nexists>np. names_peer G r np"
  shows "\<exists>w. addpeer G add_peer r n = Some (w, n) \<and> rsStatus w \<in> {204, 400, 405}"
proof -
  have st: "rsStatus (http_Error t c w) = c" for t c w by (simp add: http_Error_def)
  have op: "rsStatus (options m al w) \<in> {204, 405}" for m al w
    by (simp add: options_def http_Error_def)
  show ?thesis
  proof (cases "rqMethod r = ''POST''")
    case False
    then show ?thesis using op [of "rqMethod r" "''POST, OPTIONS''" no_response] by (auto simp: addpeer_def)
  next
    case post: True
    show ?thesis
    proof (cases "\<exists>body to. rqBody r = Inr body \<and> unmarshal_AddPeer body = Inr to")
      case False
      then show ?thesis using post by (auto simp: addpeer_def st split: sum.splits)
    next
      case True
      then obtain body to where b: "rqBody r = Inr body" "unmarshal_AddPeer body = Inr to" by blast
      obtain pub bad addr e where p: "DecodeString (apKey to) = (pub, bad)" "ParseAddress G (apAddr to) = (addr, e)"
        by fastforce
      have "bad \<or> length pub \<noteq> 32 \<or> e \<noteq> None"
        using assms [simplified, rule_format, of "\<lparr>niPubKey = pub, niAddr = addr\<rparr>"] post b p by (auto simp: names_peer_def)
      then show ?thesis using post b p by (cases e) (auto simp: addpeer_def st)
    qed
  qed
qed

context net_svc
begin

lemma addpeer_accepts:
  assumes "names_peer G r np"
  shows "addpeer G add_peer r n =
    (if length (pending n) < 10
     then Some (json_ok ''POST, OPTIONS'' (json_string ''OK'') no_response, with_pending (pending n @ [np]) n)
     else None)"
  using addpeer_named [OF assms, of add_peer n] by (simp add: add_law)

lemma addpeer_effect:
  assumes "addpeer G add_peer r n = Some (w, n')"
  shows "n' = n \<or> (\<exists>np. length (niPubKey np) = 32 \<and> add_peer np n = Some n')"
proof (cases "\<exists>np. names_peer G r np")
  case True
  then obtain np where np: "names_peer G r np" by blast
  then have "add_peer np n = Some n'" using addpeer_named [OF np, of add_peer n] assms by (cases "add_peer np n") auto
  then show ?thesis using names_peer_key [OF np] by blast
next
  case False
  then show ?thesis using addpeer_refuses [of G r add_peer n] assms by auto
qed

lemma addpeer_waits: "addpeer G add_peer r n = None \<longleftrightarrow> (\<exists>np. names_peer G r np) \<and> 10 \<le> length (pending n)"
proof (cases "\<exists>np. names_peer G r np")
  case True
  then show ?thesis using addpeer_accepts by (auto split: if_splits)
next
  case False
  then show ?thesis using addpeer_refuses [of G r add_peer n] by auto
qed

end

lemma json_ok_string: "json_ok ''POST, OPTIONS'' (json_string ''OK'') no_response =
   \<lparr>rsStatus = 200, rsHeader = [(''Content-Type'', ''application/json''), (''Content-Length'', ''4''),
      (''Allow'', ''POST, OPTIONS'')], rsBody = json_string ''OK''\<rparr>"
proof -
  have "json_escape ''OK'' = ''OK''" by code_simp
  moreover have "char_of (52::nat) = CHR ''4''" by code_simp
  ultimately show ?thesis
    by (simp add: json_string_def json_ok_def header_Set_def no_response_def itoa_def nat_digits.simps)
qed

text \<open>
  C29: what the web API can do to the node. A \<open>POST\<close> to \<open>/addpeer\<close> with a decodable body, a
  key of 64 hexadecimal digits and an address that parses puts exactly the named peer at
  the end of the queue of peers to try and answers 200 with \<open>"OK"\<close>, or waits while ten are
  queued already. Every other request to \<open>/addpeer\<close> leaves the node as it is and answers
  204 (\<open>OPTIONS\<close>), 405 (any other method) or 400.
\<close>

theorem addpeer_queues_named_peer:
  "(\<forall>np. names_peer G r np \<longrightarrow> length (niPubKey np) = 32 \<and>
      addpeer G AddPeer r n =
       (if length (newPeers n) < 10
        then Some (\<lparr>rsStatus = 200,
               rsHeader = [(''Content-Type'', ''application/json''), (''Content-Length'', ''4''),
                 (''Allow'', ''POST, OPTIONS'')],
               rsBody = json_string ''OK''\<rparr>, n\<lparr>newPeers := newPeers n @ [np]\<rparr>)
        else None)) \<and>
   ((\<nexists>np. names_peer G r np) \<longrightarrow>
      (\<exists>w. addpeer G AddPeer r n = Some (w, n) \<and> rsStatus w \<in> {204, 400, 405}))"
  using netsvc.addpeer_accepts [of G r _ n] addpeer_refuses [of G r AddPeer n] names_peer_key [of G r]
  by (auto simp: json_ok_string)

text \<open>A request with the body that \<open>json.Marshal\<close> writes for a key and an address.\<close>

definition sample_body :: string where
  "sample_body = json_print (json_object
     [(''key'', EncodeToString (replicate 32 7)), (''addr'', EncodeToString [1, 2, 3, 4, 0, 80])])"

definition sample_request :: "request" where
  "sample_request = \<lparr>rqMethod = ''POST'', rqPath = ''/addpeer'', rqBody = Inr sample_body\<rparr>"

lemma sample_body_read:
  "unmarshal_AddPeer sample_body =
     Inr \<lparr>apKey = EncodeToString (replicate 32 7), apAddr = EncodeToString [1, 2, 3, 4, 0, 80]\<rparr>"
proof -
  have "ascii ''key''" "ascii ''addr''" by code_simp+
  moreover have "fold_name ''key'' \<noteq> fold_name ''addr''" by code_simp
  ultimately show ?thesis
    using unmarshal_marshal [of "[(''key'', EncodeToString (replicate 32 7)), (''addr'', EncodeToString [1, 2, 3, 4, 0, 80])]"]
    by (simp add: sample_body_def unmarshal_AddPeer_def EncodeToString_ascii plain_fields_def)
qed

lemma sample_names:
  "names_peer sample_gossip sample_request \<lparr>niPubKey = replicate 32 7, niAddr = \<lparr>Host = [1, 2, 3, 4], Port = 80\<rparr>\<rparr>"
proof -
  have port: "bytes_port [0, 80] = 80" by code_simp
  show ?thesis by (simp add: names_peer_def sample_request_def sample_body_read sample_gossip_def port)
qed

theorem addpeer_queues_named_peer_witness:
  "\<exists>w. addpeer sample_gossip AddPeer sample_request
       (NetService_New [] \<lparr>Network = [], BindAddress = []\<rparr> \<lparr>Priv = [], Pub = []\<rparr> False 0 ()) =
     Some (w, (NetService_New [] \<lparr>Network = [], BindAddress = []\<rparr> \<lparr>Priv = [], Pub = []\<rparr> False 0 ())
       \<lparr>newPeers := [\<lparr>niPubKey = replicate 32 7, niAddr = \<lparr>Host = [1, 2, 3, 4], Port = 80\<rparr>\<rparr>]\<rparr>)"
  using addpeer_queues_named_peer [of sample_gossip sample_request
      "NetService_New [] \<lparr>Network = [], BindAddress = []\<rparr> \<lparr>Priv = [], Pub = []\<rparr> False 0 ()"] sample_names
  by (auto simp: NetService_New_def)

end
