(* ===== verification/WebServer.thy ===== *)
theory WebServer
  imports Web
begin

text \<open>
  The life cycle of the web API (\<open>internal/web/web.go\<close>): \<open>Run\<close> serves its HTTP server until it
  is shut down, every connection has a goroutine that reads requests and calls the
  handlers, and \<open>Stop\<close> starts a goroutine that shuts the server down within ten seconds. Of
  \<open>net/http\<close> the model has what \<open>ListenAndServe\<close> and \<open>Shutdown\<close> document.
\<close>

section \<open>State\<close>

text \<open>
  Where \<open>Run\<close> is: before \<open>ListenAndServe\<close>, in it before the listener is open, in its accept
  loop, returned.
\<close>

datatype web_pc = WStart | WListen | WServe | WReturned

text \<open>A connection: new since an instant, with a request whose handler runs, or idle.\<close>

datatype web_conn = CNew int | CActive request | CIdle

text \<open>
  The goroutine of \<open>Stop\<close>: none yet, started, in \<open>Shutdown\<close> until its deadline, ended; the
  flag says whether every connection was closed by then.
\<close>

datatype stop_pc = SIdle | SSpawned | SWaiting int | SEnded bool

record webApi =
  waAddr :: string
  waPc :: web_pc
  waListening :: bool
  waShutdown :: bool
  waConns :: "(nat \<times> web_conn) list"
  waNext :: nat
  waStop :: stop_pc
  waSent :: "(nat \<times> response) list"

text \<open>\<open>New\<close>. The responses written so far are kept in \<open>waSent\<close>.\<close>

definition Web_New :: "gossip \<Rightarrow> address \<Rightarrow> webApi" where
  "Web_New G bind =
     \<lparr>waAddr = AddressString G bind, waPc = WStart, waListening = False, waShutdown = False,
      waConns = [], waNext = 0, waStop = SIdle, waSent = []\<rparr>"

section \<open>Run\<close>

text \<open>
  \<open>WGo\<close> lets the goroutine go on, \<open>WFailed\<close> is the error of \<open>Listen\<close> or \<open>Accept\<close>, \<open>WConnect\<close> a
  connection.
\<close>

datatype web_event = WGo | WFailed goerr | WConnect

definition WebAPI_Run :: "web_event \<Rightarrow> int \<Rightarrow> webApi \<Rightarrow> webApi option" where
  "WebAPI_Run ev now a =
     (case waPc a of
        WStart \<Rightarrow>
          if ev = WGo then Some (a\<lparr>waPc := (if waShutdown a then WReturned else WListen)\<rparr>) else None
      | WListen \<Rightarrow>
          (case ev of
             WFailed e \<Rightarrow> Some (a\<lparr>waPc := WReturned\<rparr>)
           | WGo \<Rightarrow>
               if waShutdown a then Some (a\<lparr>waPc := WReturned\<rparr>)
               else Some (a\<lparr>waPc := WServe, waListening := True\<rparr>)
           | WConnect \<Rightarrow> None)
      | WServe \<Rightarrow>
          (case ev of
             WConnect \<Rightarrow>
               if waListening a
               then Some (a\<lparr>waConns := waConns a @ [(waNext a, CNew now)], waNext := Suc (waNext a)\<rparr>)
               else None
           | WFailed e \<Rightarrow> Some (a\<lparr>waPc := WReturned, waListening := False\<rparr>)
           | WGo \<Rightarrow> if waShutdown a then Some (a\<lparr>waPc := WReturned\<rparr>) else None)
      | WReturned \<Rightarrow> None)"

section \<open>Connections\<close>

text \<open>
  A request arrives; the client, or a read that fails, ends a connection without a request;
  the handler of a request runs and its response is written. A connection is kept for the
  next request unless the client closes it or the server is shutting down.
\<close>

datatype conn_event = ReadRequest "request" | Hangup | Handle bool

definition set_conn :: "nat \<Rightarrow> web_conn \<Rightarrow> webApi \<Rightarrow> webApi" where
  "set_conn i s a = a\<lparr>waConns := map (\<lambda>(j, c). (j, if j = i then s else c)) (waConns a)\<rparr>"

definition end_conn :: "nat \<Rightarrow> webApi \<Rightarrow> webApi" where
  "end_conn i a = a\<lparr>waConns := filter (\<lambda>(j, c). j \<noteq> i) (waConns a)\<rparr>"

definition web_conn_step :: "gossip \<Rightarrow> 's store \<Rightarrow> conn_event \<Rightarrow> nat \<Rightarrow> webApi \<Rightarrow> 's net \<Rightarrow>
    (webApi \<times> 's net) option" where
  "web_conn_step G S ev i a n =
     (case (map_of (waConns a) i, ev) of
        (None, _) \<Rightarrow> None
      | (Some (CActive r), Handle keep) \<Rightarrow>
          (case web_handle G S r n of
             None \<Rightarrow> None
           | Some (w, n1) \<Rightarrow>
               Some ((if keep \<and> \<not> waShutdown a then set_conn i CIdle a else end_conn i a)
                  \<lparr>waSent := waSent a @ [(i, w)]\<rparr>, n1))
      | (Some (CActive r), _) \<Rightarrow> None
      | (Some c, ReadRequest r) \<Rightarrow> Some (set_conn i (CActive r) a, n)
      | (Some c, Hangup) \<Rightarrow> Some (end_conn i a, n)
      | (Some c, Handle keep) \<Rightarrow> None)"

section \<open>Stop\<close>

definition WebAPI_Stop :: "webApi \<Rightarrow> webApi" where
  "WebAPI_Stop a = a\<lparr>waStop := SSpawned\<rparr>"

text \<open>
  One round of \<open>Shutdown\<close> closes the idle connections, and those on which nothing was read
  for more than five seconds.
\<close>

definition is_idle :: "int \<Rightarrow> web_conn \<Rightarrow> bool" where
  "is_idle now c = (case c of CIdle \<Rightarrow> True | CNew t \<Rightarrow> Unix t < Unix now - 5 | CActive r \<Rightarrow> False)"

definition closeIdleConns :: "int \<Rightarrow> webApi \<Rightarrow> webApi" where
  "closeIdleConns now a = a\<lparr>waConns := filter (\<lambda>(i, c). \<not> is_idle now c) (waConns a)\<rparr>"

text \<open>
  The goroutine of \<open>Stop\<close>: it starts \<open>Shutdown\<close>, which closes the listener, makes its rounds,
  and returns when no connection is left or at the deadline of its context.
\<close>

datatype stop_event = Round | Deadline

definition web_stop_step :: "stop_event \<Rightarrow> int \<Rightarrow> webApi \<Rightarrow> webApi option" where
  "web_stop_step ev now a =
     (case waStop a of
        SIdle \<Rightarrow> None
      | SSpawned \<Rightarrow> Some (a\<lparr>waShutdown := True, waListening := False, waStop := SWaiting (now + 10 * Second)\<rparr>)
      | SWaiting t \<Rightarrow>
          (case ev of
             Round \<Rightarrow>
               let a1 = closeIdleConns now a in
               Some (if waConns a1 = [] then a1\<lparr>waStop := SEnded True\<rparr> else a1)
           | Deadline \<Rightarrow> if t \<le> now then Some (a\<lparr>waStop := SEnded False\<rparr>) else None)
      | SEnded done \<Rightarrow> None)"

section \<open>All steps of the service\<close>

text \<open>
  The service among the others: \<open>cancelled\<close> says whether the governor has cancelled the
  context; only then it calls \<open>Stop\<close>, once, and it no longer runs \<open>Run\<close> again after it returned.
\<close>

inductive web_step :: "gossip \<Rightarrow> 's store \<Rightarrow> bool \<Rightarrow> int \<Rightarrow> webApi \<Rightarrow> 's net \<Rightarrow> webApi \<Rightarrow> 's net \<Rightarrow> bool"
  for G S cancelled now a n where
  Run: "WebAPI_Run ev now a = Some a' \<Longrightarrow> web_step G S cancelled now a n a' n"
| Conn: "web_conn_step G S cev i a n = Some (a', n') \<Longrightarrow> web_step G S cancelled now a n a' n'"
| CallStop: "cancelled \<Longrightarrow> waStop a = SIdle \<Longrightarrow> web_step G S cancelled now a n (WebAPI_Stop a) n"
| StopTask: "web_stop_step sev now a = Some a' \<Longrightarrow> web_step G S cancelled now a n a' n"
| Again: "\<not> cancelled \<Longrightarrow> waPc a = WReturned \<Longrightarrow> web_step G S cancelled now a n (a\<lparr>waPc := WStart\<rparr>) n"

inductive web_reachable :: "gossip \<Rightarrow> 's store \<Rightarrow> webApi \<Rightarrow> bool" for G S where
  "web_reachable G S (Web_New G bind)"
| "web_reachable G S a \<Longrightarrow> web_step G S cancelled now a n a' n' \<Longrightarrow> web_reachable G S a'"

section \<open>Steps of a connection\<close>

lemma web_conn_step_simps:
  "map_of (waConns a) i = None \<Longrightarrow> web_conn_step G S ev i a n = None"
  "map_of (waConns a) i = Some (CActive r) \<Longrightarrow> web_conn_step G S (Handle keep) i a n =
     map_option (\<lambda>(w, n1). ((if keep \<and> \<not> waShutdown a then set_conn i CIdle a else end_conn i a)
                  \<lparr>waSent := waSent a @ [(i, w)]\<rparr>, n1)) (web_handle G S r n)"
  "map_of (waConns a) i = Some (CActive r) \<Longrightarrow> web_conn_step G S (ReadRequest q) i a n = None"
  "map_of (waConns a) i = Some (CActive r) \<Longrightarrow> web_conn_step G S Hangup i a n = None"
  "map_of (waConns a) i = Some c \<Longrightarrow> \<forall>r. c \<noteq> CActive r \<Longrightarrow>
     web_conn_step G S (ReadRequest q) i a n = Some (set_conn i (CActive q) a, n)"
  "map_of (waConns a) i = Some c \<Longrightarrow> \<forall>r. c \<noteq> CActive r \<Longrightarrow> web_conn_step G S Hangup i a n = Some (end_conn i a, n)"
  "map_of (waConns a) i = Some c \<Longrightarrow> \<forall>r. c \<noteq> CActive r \<Longrightarrow> web_conn_step G S (Handle keep) i a n = None"
  by (simp add: web_conn_step_def,
      simp add: web_conn_step_def split: option.split,
      simp add: web_conn_step_def, simp add: web_conn_step_def,
      (cases c; simp add: web_conn_step_def), (cases c; simp add: web_conn_step_def),
      (cases c; simp add: web_conn_step_def))

text \<open>A step ends or keeps one connection; only \<open>Handle\<close> reaches the net service.\<close>

lemma web_conn_shape:
  assumes "web_conn_step G S ev i a n = Some (a', n')"
  shows "\<exists>sent. ((\<exists>s. a' = (set_conn i s a)\<lparr>waSent := sent\<rparr>) \<or> a' = (end_conn i a)\<lparr>waSent := sent\<rparr>) \<and>
    (n' = n \<or> (\<exists>r w. map_of (waConns a) i = Some (CActive r) \<and> web_handle G S r n = Some (w, n')))"
proof -
  have same: "b = b\<lparr>waSent := waSent b\<rparr>" for b :: webApi by simp
  obtain c where c: "map_of (waConns a) i = Some c"
    using assms web_conn_step_simps(1) [of a i G S ev n] by (cases "map_of (waConns a) i") auto
  show ?thesis
  proof (cases "\<exists>r. c = CActive r")
    case True
    then obtain r where r: "map_of (waConns a) i = Some (CActive r)" using c by blast
    obtain keep where "ev = Handle keep"
      using assms by (cases ev) (simp_all add: web_conn_step_simps(3,4) [OF r])
    then obtain w where w: "web_handle G S r n = Some (w, n')"
       "a' = (if keep \<and> \<not> waShutdown a then set_conn i CIdle a else end_conn i a)\<lparr>waSent := waSent a @ [(i, w)]\<rparr>"
      using assms by (auto simp: web_conn_step_simps(2) [OF r])
    then show ?thesis using r by (cases "keep \<and> \<not> waShutdown a") auto
  next
    case False
    then have "\<forall>r. c \<noteq> CActive r" by blast
    note s = web_conn_step_simps(5-7) [OF c this]
    have "n' = n \<and> ((\<exists>s. a' = set_conn i s a) \<or> a' = end_conn i a)"
      using assms by (cases ev) (auto simp: s)
    then show ?thesis using same by metis
  qed
qed

section \<open>What the API does to the net service\<close>

lemma web_handle_net:
  assumes "web_handle G S r n = Some (w, n')"
  shows "n' = n \<or> (\<exists>np. length (niPubKey np) = 32 \<and> AddPeer np n = Some n') \<or>
    (\<exists>x s. n' = n\<lparr>stState := s\<rparr> \<and> st_NodeList S (stState n) = Some (x, s))"
proof (cases "rqPath r = ''/nodes''")
  case True
  then obtain s where s: "n' = n\<lparr>stState := s\<rparr>" "getNodes S r (stState n) = Some (w, s)"
    using assms by (auto simp: web_handle_def)
  from s(2) have "s = stState n \<or> (\<exists>x. st_NodeList S (stState n) = Some (x, s))"
    by (auto simp: getNodes_def split: if_splits option.splits prod.splits)
  then show ?thesis using s(1) by auto
next
  case False
  then have "n' = n \<or> addpeer G AddPeer r n = Some (w, n')"
    using assms by (simp add: web_handle_def split: if_splits)
  then show ?thesis using netsvc.addpeer_effect [of G r n w n'] by blast
qed

lemma web_step_net:
  assumes "web_step G S cancelled now a n a' n'"
  shows "n' = n \<or> (\<exists>np. length (niPubKey np) = 32 \<and> AddPeer np n = Some n') \<or>
    (\<exists>x s. n' = n\<lparr>stState := s\<rparr> \<and> st_NodeList S (stState n) = Some (x, s))"
  using assms
proof (induction rule: web_step.induct)
  case (Conn cev i a' n')
  then have "n' = n \<or> (\<exists>r w. web_handle G S r n = Some (w, n'))"
    using web_conn_shape by blast
  then show ?case using web_handle_net by blast
qed simp_all

section \<open>Shutdown\<close>

text \<open>
  The listener is open only in the accept loop and never after \<open>Shutdown\<close> has begun; the
  connections have distinct numbers; a shutdown that reported success left none.
\<close>

definition web_ok :: "webApi \<Rightarrow> bool" where
  "web_ok a \<longleftrightarrow>
     (waListening a \<longrightarrow> waPc a = WServe \<and> \<not> waShutdown a) \<and>
     (waShutdown a \<longleftrightarrow> waStop a \<notin> {SIdle, SSpawned}) \<and>
     (waStop a = SEnded True \<longrightarrow> waConns a = []) \<and>
     distinct (map fst (waConns a)) \<and> (\<forall>i c. (i, c) \<in> set (waConns a) \<longrightarrow> i < waNext a)"

abbreviation conn_ids :: "webApi \<Rightarrow> nat list" where
  "conn_ids a \<equiv> map fst (waConns a)"

lemma set_conn_fields [simp]:
  "conn_ids (set_conn i s a) = conn_ids a" "waPc (set_conn i s a) = waPc a" "waStop (set_conn i s a) = waStop a"
  "waListening (set_conn i s a) = waListening a" "waShutdown (set_conn i s a) = waShutdown a"
  "waNext (set_conn i s a) = waNext a" "waConns (set_conn i s a) = [] \<longleftrightarrow> waConns a = []"
  by (simp_all add: set_conn_def o_def case_prod_beta)

lemma end_conn_fields [simp]:
  "waPc (end_conn i a) = waPc a" "waStop (end_conn i a) = waStop a" "waListening (end_conn i a) = waListening a"
  "waShutdown (end_conn i a) = waShutdown a" "waNext (end_conn i a) = waNext a"
  by (simp_all add: end_conn_def)

lemma filter_conns:
  "distinct (map fst cs) \<Longrightarrow> distinct (map fst (filter P cs)) \<and> set (map fst (filter P cs)) \<subseteq> set (map fst cs)"
  by (auto simp: distinct_map_filter)

lemma end_conn_ids:
  "distinct (conn_ids a) \<Longrightarrow> distinct (conn_ids (end_conn i a)) \<and> set (conn_ids (end_conn i a)) \<subseteq> set (conn_ids a) \<and>
   (waConns a = [] \<longrightarrow> waConns (end_conn i a) = [])"
  unfolding end_conn_def using filter_conns [of "waConns a"] by simp

text \<open>What a step can do to the connections and to the flags.\<close>

lemma web_conn_frame:
  assumes "web_conn_step G S ev i a n = Some (a', n')" "distinct (conn_ids a)"
  shows "distinct (conn_ids a') \<and> set (conn_ids a') \<subseteq> set (conn_ids a) \<and> waPc a' = waPc a \<and> waStop a' = waStop a \<and>
    waListening a' = waListening a \<and> waShutdown a' = waShutdown a \<and> waNext a' = waNext a"
proof -
  have w: "conn_ids (b\<lparr>waSent := sent\<rparr>) = conn_ids b" for b :: webApi and sent by simp
  from web_conn_shape [OF assms(1)] consider s sent where "a' = (set_conn i s a)\<lparr>waSent := sent\<rparr>"
    | sent where "a' = (end_conn i a)\<lparr>waSent := sent\<rparr>" by blast
  then show ?thesis
  proof cases
    case 1
    then show ?thesis using assms(2) w [where b = "set_conn i s a" for s] by (simp del: set_map)
  next
    case 2
    then show ?thesis using end_conn_ids [OF assms(2), of i] w [where b = "end_conn i a"] by (simp del: set_map)
  qed
qed

lemma Run_cases:
  assumes "WebAPI_Run ev now a = Some a'"
  shows "(\<exists>pc. a' = a\<lparr>waPc := pc\<rparr> \<and> pc \<noteq> WServe \<and> (waPc a \<noteq> WServe \<or> waShutdown a)) \<or>
    a' = a\<lparr>waPc := WServe, waListening := True\<rparr> \<and> \<not> waShutdown a \<or>
    a' = a\<lparr>waConns := waConns a @ [(waNext a, CNew now)], waNext := Suc (waNext a)\<rparr> \<and> waListening a \<or>
    a' = a\<lparr>waPc := WReturned, waListening := False\<rparr>"
proof (cases "waPc a")
  case WStart
  then show ?thesis using assms by (cases "waShutdown a") (simp_all add: WebAPI_Run_def split: if_splits, blast+)
next
  case WListen
  then show ?thesis using assms by (cases ev; cases "waShutdown a") (simp_all add: WebAPI_Run_def, blast+)
next
  case WServe
  then show ?thesis using assms by (cases ev; cases "waShutdown a") (simp_all add: WebAPI_Run_def split: if_splits, blast+)
next
  case WReturned
  then show ?thesis using assms by (simp add: WebAPI_Run_def)
qed

lemma web_ok_Run:
  assumes "WebAPI_Run ev now a = Some a'" "web_ok a"
  shows "web_ok a'"
proof (cases "waConns a' = waConns a")
  case False
  then have connects: "a' = a\<lparr>waConns := waConns a @ [(waNext a, CNew now)], waNext := Suc (waNext a)\<rparr>" "waListening a"
    using Run_cases [OF assms(1)] by auto
  have "waNext a \<notin> set (conn_ids a)" using assms(2) by (fastforce simp: web_ok_def)
  moreover have "waStop a \<noteq> SEnded True" using connects(2) assms(2) by (auto simp: web_ok_def)
  moreover have "i < Suc (waNext a)" if "(i, c) \<in> set (waConns a)" for i c
    using that assms(2) unfolding web_ok_def by (blast intro: less_SucI)
  ultimately show ?thesis using assms(2) connects by (auto simp: web_ok_def)
next
  case True
  then show ?thesis using Run_cases [OF assms(1)] assms(2) by (auto simp: web_ok_def)
qed

lemma web_ok_conn:
  assumes "web_conn_step G S ev i a n = Some (a', n')" "web_ok a"
  shows "web_ok a'"
proof -
  have d: "distinct (conn_ids a)" using assms(2) by (simp add: web_ok_def)
  note f = web_conn_frame [OF assms(1) d]
  then have "waConns a = [] \<longrightarrow> waConns a' = []" by (metis list.map_disc_iff list.set(1) set_empty subset_empty)
  moreover have "i < waNext a'" if "(i, c) \<in> set (waConns a')" for i c
  proof -
    have "i \<in> set (conn_ids a)" using f that by force
    then show ?thesis using f assms(2) by (auto simp: web_ok_def)
  qed
  ultimately show ?thesis using f assms(2) by (auto simp: web_ok_def)
qed

lemma web_ok_stop:
  assumes "web_stop_step ev now a = Some a'" "web_ok a"
  shows "web_ok a'"
proof -
  have d: "distinct (conn_ids a)" using assms(2) by (simp add: web_ok_def)
  from assms filter_conns [OF d] show ?thesis
    by (cases "waStop a"; cases ev) (auto 0 3 simp: web_stop_step_def web_ok_def closeIdleConns_def Let_def split: if_splits)
qed

lemma web_ok_step: "web_step G S cancelled now a n a' n' \<Longrightarrow> web_ok a \<Longrightarrow> web_ok a'"
proof (induction rule: web_step.induct)
  case (Again)
  then show ?case by (auto simp: web_ok_def)
next
  case (Run ev a')
  then show ?case by (blast intro: web_ok_Run)
next
  case (Conn cev i a' n')
  then show ?case by (blast intro: web_ok_conn)
next
  case (StopTask sev a')
  then show ?case by (blast intro: web_ok_stop)
qed (simp add: web_ok_def WebAPI_Stop_def)

lemma web_reachable_ok: "web_reachable G S a \<Longrightarrow> web_ok a"
proof (induction rule: web_reachable.induct)
  case (1 bind)
  show ?case by (simp add: web_ok_def Web_New_def)
next
  case (2 a cancelled now n a' n')
  then show ?case by (blast intro: web_ok_step)
qed

lemma web_step_shutdown:
  assumes "web_step G S cancelled now a n a' n'" "web_ok a" "waShutdown a"
  shows "waShutdown a' \<and> set (conn_ids a') \<subseteq> set (conn_ids a)"
  using assms
proof (induction rule: web_step.induct)
  case (Conn cev i a' n')
  then show ?case using web_conn_frame [OF Conn(1)] by (simp add: web_ok_def)
next
  case (StopTask sev a')
  then show ?case
    by (cases "waStop a"; cases sev) (auto simp: web_stop_step_def closeIdleConns_def Let_def split: if_splits)
next
  case (Run ev a')
  then show ?case using Run_cases [OF Run(1)] by (auto simp: web_ok_def)
qed (auto simp: WebAPI_Stop_def)

end
