(* ===== verification/Trimmer.thy ===== *)
theory Trimmer
  imports StoreExpiry
begin

text \<open>
  The goroutine of the store trimmer (\<open>internal/store/trimmer.go\<close>): it sleeps for an hour and
  then calls \<open>TrimNodes\<close>, until the service is stopped.
\<close>

section \<open>Run\<close>

text \<open>
  Before its \<open>Sleep\<close>, in it until an instant, before the call of \<open>TrimNodes\<close>, returned.
\<close>

datatype trim_pc = TrimLoop | TrimSleep int | TrimCall | TrimReturned

text \<open>\<open>New\<close>; then the events: the goroutine goes on, its timer expires, the context is done.\<close>

definition NewStoreTrimmer :: trim_pc where
  "NewStoreTrimmer = TrimLoop"

datatype trim_event = TrimGo | TrimWake | TrimDone

text \<open>
  One step of \<open>Run\<close>, with the state of the store. Errors of \<open>TrimNodes\<close> are only logged.
  \<open>None\<close> where the goroutine waits.
\<close>

definition StoreTrimmer_Run :: "'s store \<Rightarrow> trim_event \<Rightarrow> bool \<Rightarrow> int \<Rightarrow> trim_pc \<Rightarrow> 's \<Rightarrow> (trim_pc \<times> 's) option" where
  "StoreTrimmer_Run S ev stopping now pc s =
     (case pc of
        TrimLoop \<Rightarrow> if ev = TrimGo then Some (TrimSleep (now + 1 * Hour), s) else None
      | TrimSleep t \<Rightarrow>
          (case ev of
             TrimGo \<Rightarrow> None
           | TrimWake \<Rightarrow> if t \<le> now then Some (TrimCall, s) else None
           | TrimDone \<Rightarrow> if stopping then Some (TrimReturned, s) else None)
      | TrimCall \<Rightarrow>
          if ev = TrimGo then map_option (\<lambda>(r, s1). (TrimLoop, s1)) (st_TrimNodes S s) else None
      | TrimReturned \<Rightarrow> None)"

text \<open>The store is touched by the call of \<open>TrimNodes\<close> only.\<close>

lemma Run_store:
  assumes "StoreTrimmer_Run S ev stopping now pc s = Some (pc', s')"
  shows "s' = s \<or> pc = TrimCall \<and> (\<exists>r. st_TrimNodes S s = Some (r, s'))"
  using assms by (cases pc; cases ev) (auto simp: StoreTrimmer_Run_def split: if_splits)

section \<open>Runs\<close>

text \<open>
  A run among the other services: between two steps of the goroutine time passes, the store
  changes, and the service may be stopped. The list holds the instants of the calls, the
  last one first.
\<close>

inductive trim_run :: "'s store \<Rightarrow> int \<Rightarrow> trim_pc \<Rightarrow> int \<Rightarrow> int list \<Rightarrow> bool" for S start where
  trim_start: "trim_run S start NewStoreTrimmer start []"
| trim_wait: "trim_run S start pc now calls \<Longrightarrow> now \<le> now' \<Longrightarrow> trim_run S start pc now' calls"
| trim_step: "trim_run S start pc now calls \<Longrightarrow> StoreTrimmer_Run S ev stopping now pc s = Some (pc', s') \<Longrightarrow>
     trim_run S start pc' now (if pc = TrimCall then now # calls else calls)"

text \<open>The instant the hour before the next call began, and what that says of the calls.\<close>

fun spaced :: "int \<Rightarrow> int list \<Rightarrow> bool" where
  "spaced start [] = True"
| "spaced start [t] = (start + Hour \<le> t)"
| "spaced start (t # u # ts) = (u + Hour \<le> t \<and> spaced start (u # ts))"

abbreviation last_call :: "int \<Rightarrow> int list \<Rightarrow> int" where
  "last_call start calls \<equiv> (case calls of [] \<Rightarrow> start | t # _ \<Rightarrow> t)"

definition trim_ok :: "int \<Rightarrow> trim_pc \<Rightarrow> int \<Rightarrow> int list \<Rightarrow> bool" where
  "trim_ok start pc now calls \<longleftrightarrow> spaced start calls \<and> last_call start calls \<le> now \<and>
     (case pc of
        TrimSleep t \<Rightarrow> last_call start calls + Hour \<le> t
      | TrimCall \<Rightarrow> last_call start calls + Hour \<le> now
      | _ \<Rightarrow> True)"

lemma spaced_Cons: "spaced start calls \<Longrightarrow> last_call start calls + Hour \<le> t \<Longrightarrow> spaced start (t # calls)"
  by (cases calls) auto

lemma trim_run_ok: "trim_run S start pc now calls \<Longrightarrow> trim_ok start pc now calls"
proof (induction rule: trim_run.induct)
  case trim_start
  show ?case by (simp add: trim_ok_def NewStoreTrimmer_def)
next
  case (trim_wait pc now calls now')
  then show ?case by (cases pc) (auto simp: trim_ok_def)
next
  case (trim_step pc now calls ev stopping s pc' s')
  show ?case
  proof (cases pc)
    case TrimCall
    then have "pc' = TrimLoop" using trim_step(2) by (auto simp: StoreTrimmer_Run_def split: if_splits)
    then show ?thesis using trim_step(3) TrimCall spaced_Cons [of start calls now] by (simp add: trim_ok_def)
  qed (use trim_step(2,3) in \<open>auto simp: StoreTrimmer_Run_def trim_ok_def split: if_splits trim_event.splits\<close>)
qed

lemma spaced_count: "spaced start calls \<Longrightarrow> start + int (length calls) * Hour \<le> last_call start calls"
proof (induction start calls rule: spaced.induct)
  case (3 start t u ts)
  then show ?case by (simp add: algebra_simps)
qed (simp_all add: algebra_simps)

text \<open>
  C39: the store is trimmed at most once an hour. In every run of the trimmer's goroutine,
  whatever the store and the clock do, the first call of \<open>TrimNodes\<close> comes at least an hour
  after the start and every further call at least an hour after the one before, so after
  \<open>k\<close> calls \<open>k\<close> hours have passed. While it sleeps a shutdown lets it return at once, and over
  the SQLite store with a well-formed database no call makes it hang.
\<close>

theorem trims_hourly:
  assumes "trim_run S start pc now calls"
  shows "spaced start calls \<and> start + int (length calls) * Hour \<le> now \<and>
    (\<forall>t. pc = TrimSleep t \<longrightarrow> last_call start calls + Hour \<le> t \<and>
       StoreTrimmer_Run S TrimDone True now pc s = Some (TrimReturned, s)) \<and>
    (good (disk w) \<longrightarrow> (\<exists>w'. StoreTrimmer_Run (sqliteStore G) TrimGo stopping now TrimCall w = Some (TrimLoop, w')))"
proof -
  have ok: "trim_ok start pc now calls" by (rule trim_run_ok [OF assms])
  moreover have "start + int (length calls) * Hour \<le> now"
    using spaced_count [of start calls] ok by (simp add: trim_ok_def)
  moreover have "\<exists>w'. StoreTrimmer_Run (sqliteStore G) TrimGo stopping now TrimCall w = Some (TrimLoop, w')" if "good (disk w)"
    using TrimNodes_result [OF that] by (auto simp: StoreTrimmer_Run_def sqliteStore_def)
  ultimately show ?thesis by (auto simp: trim_ok_def StoreTrimmer_Run_def)
qed

text \<open>Two hours, two calls.\<close>

theorem trims_hourly_witness:
  "trim_run (sqliteStore sample_gossip) 0 TrimLoop (2 * Hour) [2 * Hour, Hour] \<and> spaced 0 [2 * Hour, Hour]"
proof -
  let ?R = "trim_run (sqliteStore sample_gossip) 0"
  have pos: "0 \<le> Hour" by (simp add: Hour_def Minute_def Second_def)
  obtain r w where w: "TrimNodes sample_world = Some (r, w)"
    using TrimNodes_result [OF good_sample(2)] by auto
  have loop: "?R TrimLoop (t + Hour) ((t + Hour) # calls)" if "?R TrimLoop t calls" for t calls
  proof -
    have "?R (TrimSleep (t + Hour)) t calls"
      using trim_step [OF that, of TrimGo False sample_world] by (simp add: StoreTrimmer_Run_def)
    then have "?R (TrimSleep (t + Hour)) (t + Hour) calls" by (rule trim_wait) (use pos in simp)
    then have "?R TrimCall (t + Hour) calls"
      using trim_step [of "sqliteStore sample_gossip" 0 "TrimSleep (t + Hour)" "t + Hour" calls TrimWake False sample_world]
      by (simp add: StoreTrimmer_Run_def)
    then show ?thesis
      using trim_step [of "sqliteStore sample_gossip" 0 TrimCall "t + Hour" calls TrimGo False sample_world TrimLoop w] w
      by (simp add: StoreTrimmer_Run_def sqliteStore_def)
  qed
  have "?R TrimLoop 0 []" using trim_start [of "sqliteStore sample_gossip" 0] by (simp add: NewStoreTrimmer_def)
  from loop [OF loop [OF this]] have r: "?R TrimLoop (2 * Hour) [2 * Hour, Hour]" by simp
  from trims_hourly [OF r] r show ?thesis by blast
qed

end
