(* ===== verification/DogeNode.thy ===== *)
theory DogeNode
  imports NetProps WebServer Trimmer
begin

text \<open>
  The whole program (\<open>pkg/dogenet/service.go\<close>): the store is opened, and the net service, the
  announce service, the web API and the trimmer share it; the queue of changes goes from the
  net service to the announce service, which hands its announcements back. Every service is
  the model of its own theory; they are interleaved in any order. Whatever the whole program
  does to the net service is a behaviour of \<open>NetSystem\<close>.
\<close>

section \<open>Configuration and wiring\<close>

record dogeNetConfig =
  cfgDir :: string
  cfgDBFile :: string
  cfgBinds :: "address list"
  cfgBindWeb :: "address list"
  cfgHandlerBind :: bindTo
  cfgNodeKey :: keyPair
  cfgAllowLocal :: bool
  cfgPublic :: address
  cfgUseReflector :: bool

text \<open>
  The services the governor is given, with their states; \<open>dnForward\<close> is the announcement the
  announce service is handing over, between the two critical sections of \<open>ReceiveAnnounce\<close>.
\<close>

record dogenet =
  dnNet :: "world net"
  dnAnn :: announce
  dnWeb :: "webApi list"
  dnTrimmer :: trim_pc
  dnForward :: "rawMessage option"

text \<open>\<open>openErr\<close> is the error of \<open>sql.Open\<close>. \<open>None\<close> where opening the store does not return.\<close>

definition DogeNet :: "gossip \<Rightarrow> dogeNetConfig \<Rightarrow> goerr option \<Rightarrow> int \<Rightarrow> world \<Rightarrow> (goerr + dogenet) option" where
  "DogeNet G cfg openErr now w =
     (case NewSQLiteStore openErr w of
        None \<Rightarrow> None
      | Some (Some err, w1) \<Rightarrow> Some (Inl err)
      | Some (None, db) \<Rightarrow>
          Some (Inr \<lparr>dnNet = NetService_New (cfgBinds cfg) (cfgHandlerBind cfg) (cfgNodeKey cfg) (cfgAllowLocal cfg) now db,
                     dnAnn = Announce_New G (cfgPublic cfg) (cfgNodeKey cfg) (cfgUseReflector cfg),
                     dnWeb = map (Web_New G) (cfgBindWeb cfg), dnTrimmer = NewStoreTrimmer, dnForward = None\<rparr>))"

section \<open>Steps\<close>

text \<open>The goroutines of the net service, without the calls from outside.\<close>

inductive net_task :: "gossip \<Rightarrow> 's store \<Rightarrow> 's net \<Rightarrow> 's net \<Rightarrow> bool" for G S where
  "receiveFromPeer G S ev p n = Some n' \<Longrightarrow> net_task G S n n'"
| "sendToPeer ev p n = Some n' \<Longrightarrow> net_task G S n n'"
| "receiveFromHandler G S ev h n = Some n' \<Longrightarrow> net_task G S n n'"
| "sendToHandler ev h n = Some n' \<Longrightarrow> net_task G S n n'"
| "acceptIncoming G tev l n = Some n' \<Longrightarrow> net_task G S n n'"
| "acceptHandlers tev n = Some n' \<Longrightarrow> net_task G S n n'"
| "findPeers G S tev n = Some n' \<Longrightarrow> net_task G S n n'"
| "gossipRandomAddresses G S tev n = Some n' \<Longrightarrow> net_task G S n n'"
| "seedFromDNS G tev n = Some n' \<Longrightarrow> net_task G S n n'"

lemma net_task_step: "net_task G S n n' \<Longrightarrow> \<not> crashed n \<Longrightarrow> net_step G S others n n'"
  by (induction rule: net_task.induct) (auto intro: net_step.intros)

definition receive_out :: "rawMessage option \<Rightarrow> 's net \<Rightarrow> 's net" where
  "receive_out out n = (case out of None \<Rightarrow> n | Some msg \<Rightarrow> ns_setAnnounce msg n)"

text \<open>
  One step of the program. A panic of the announce service and \<open>log.Fatal\<close> end the process.
  The announce service calls \<open>ReceiveAnnounce\<close>: it sets the announcement and, in a later
  step, forwards it to the peers; meanwhile its goroutine waits for the call to return.
\<close>

definition alive :: "dogenet \<Rightarrow> bool" where
  "alive d \<longleftrightarrow> \<not> crashed (dnNet d) \<and> anPc (dnAnn d) \<noteq> APanicked"

inductive dogenet_step :: "gossip \<Rightarrow> dogenet \<Rightarrow> dogenet \<Rightarrow> bool" for G where
  NetTask: "alive d \<Longrightarrow> net_task G (sqliteStore G) (dnNet d) n \<Longrightarrow> dogenet_step G d (d\<lparr>dnNet := n\<rparr>)"
| AnnounceTask: "alive d \<Longrightarrow> dnForward d = None \<Longrightarrow>
     Announce_Run G (sqliteStore G) ev (stopping (dnNet d)) (clock (dnNet d)) now' (dnAnn d)
       (announceChanges (dnNet d)) (stState (dnNet d)) = Some (a, q, s, out) \<Longrightarrow>
     dogenet_step G d
       (d\<lparr>dnAnn := a, dnNet := receive_out out ((dnNet d)\<lparr>announceChanges := q, stState := s\<rparr>), dnForward := out\<rparr>)"
| ForwardTask: "alive d \<Longrightarrow> dnForward d = Some msg \<Longrightarrow>
     dogenet_step G d (d\<lparr>dnNet := forwardToPeers msg (dnNet d), dnForward := None\<rparr>)"
| TrimTask: "alive d \<Longrightarrow>
     StoreTrimmer_Run (sqliteStore G) trev (stopping (dnNet d)) (clock (dnNet d)) (dnTrimmer d) (stState (dnNet d)) =
       Some (pc, s) \<Longrightarrow>
     dogenet_step G d (d\<lparr>dnTrimmer := pc, dnNet := (dnNet d)\<lparr>stState := s\<rparr>\<rparr>)"
| WebTask: "alive d \<Longrightarrow> k < length (dnWeb d) \<Longrightarrow>
     web_step G (sqliteStore G) (stopping (dnNet d)) (clock (dnNet d)) (dnWeb d ! k) (dnNet d) wa n \<Longrightarrow>
     dogenet_step G d (d\<lparr>dnWeb := (dnWeb d)[k := wa], dnNet := n\<rparr>)"
| Faults: "alive d \<Longrightarrow>
     dogenet_step G d (d\<lparr>dnNet := (dnNet d)\<lparr>stState := (stState (dnNet d))\<lparr>faults := fs, unixNow := t, rnd := r\<rparr>\<rparr>\<rparr>)"
| Time: "alive d \<Longrightarrow> clock (dnNet d) \<le> t \<Longrightarrow> dogenet_step G d (d\<lparr>dnNet := (dnNet d)\<lparr>clock := t\<rparr>\<rparr>)"
| Cancel: "alive d \<Longrightarrow> dogenet_step G d (d\<lparr>dnNet := (dnNet d)\<lparr>stopping := True\<rparr>\<rparr>)"
| Shutdown: "alive d \<Longrightarrow> stopping (dnNet d) \<Longrightarrow> dogenet_step G d (d\<lparr>dnNet := Stop (dnNet d)\<rparr>)"

text \<open>
  The program started on a database file: a new one, or one an earlier run left, whose node
  keys have 32 bytes; \<open>answers\<close> are the answers to its attempts to listen.
\<close>

definition program_file :: "db \<Rightarrow> bool" where
  "program_file d \<longleftrightarrow> known_version d \<and> wf_db d \<and> (\<forall>r\<in>set (node d). length (ndKey r) = 32)"

definition dogenet_started :: "gossip \<Rightarrow> dogeNetConfig \<Rightarrow> world \<Rightarrow> dogenet \<Rightarrow> bool" where
  "dogenet_started G cfg w d \<longleftrightarrow>
     program_file (disk w) \<and> length (Pub (cfgNodeKey cfg)) = 32 \<and>
     (\<exists>now answers d0. DogeNet G cfg None now w = Some (Inr d0) \<and>
        d = d0\<lparr>dnNet := NetService_Run answers (dnNet d0)\<rparr>)"

definition dogenet_reachable :: "gossip \<Rightarrow> dogeNetConfig \<Rightarrow> world \<Rightarrow> dogenet \<Rightarrow> bool" where
  "dogenet_reachable G cfg w d \<longleftrightarrow>
     (\<exists>d0. dogenet_started G cfg w d0 \<and> (dogenet_step G)\<^sup>*\<^sup>* d0 d)"

section \<open>The start\<close>

lemma same_rows_view:
  assumes "same_rows d d'"
  shows "view d' k = view d k"
proof -
  have "row_view d' = row_view d" using assms by (auto simp: same_rows_def row_view_def chans_of_def intro!: ext)
  then show ?thesis using assms by (simp add: same_rows_def view_def node_at_def)
qed

lemma same_rows_wf: "same_rows d d' \<Longrightarrow> wf_db d \<Longrightarrow> wf_db d'"
proof -
  assume "same_rows d d'" "wf_db d"
  moreover from this have "length (announce d') = length (announce d)"
    unfolding same_rows_def by (blast dest: map_eq_imp_length_eq)
  ultimately show "wf_db d'" by (simp add: same_rows_def wf_db_def)
qed

lemma same_rows_own:
  assumes "same_rows (disk w) (disk w')" "own_stored G key (world_announcement w)"
  shows "own_stored G key (world_announcement w')"
proof -
  have "fst (world_announcement w') = fst (world_announcement w) \<and>
      fst (snd (world_announcement w')) = fst (snd (world_announcement w))"
    using assms(1) by (cases "announce (disk w)"; cases "announce (disk w')")
      (auto simp: same_rows_def world_announcement_def announcement_def)
  then show ?thesis using assms(2) by (simp add: own_stored_def)
qed

lemma view_key: "view d k \<noteq> None \<Longrightarrow> \<exists>r\<in>set (node d). ndKey r = k"
  by (auto simp: view_def node_at_def dest: find_key_Some)

lemma DogeNet_opens:
  assumes "program_file (disk w)" "DogeNet G cfg None now w = Some (Inr d)"
  shows "good_world (stState (dnNet d)) \<and> keys32 (registered (stState (dnNet d))) \<and>
    dnNet d = NetService_New (cfgBinds cfg) (cfgHandlerBind cfg) (cfgNodeKey cfg) (cfgAllowLocal cfg) now
      (stState (dnNet d)) \<and> dnAnn d = Announce_New G (cfgPublic cfg) (cfgNodeKey cfg) (cfgUseReflector cfg) \<and>
    init_result (unixDayStamp (unixNow w)) (disk w) (disk (stState (dnNet d)))"
proof -
  obtain w' where w': "initSchema w = Some (None, w')"
     "d = \<lparr>dnNet = NetService_New (cfgBinds cfg) (cfgHandlerBind cfg) (cfgNodeKey cfg) (cfgAllowLocal cfg) now w',
           dnAnn = Announce_New G (cfgPublic cfg) (cfgNodeKey cfg) (cfgUseReflector cfg),
           dnWeb = map (Web_New G) (cfgBindWeb cfg), dnTrimmer = NewStoreTrimmer, dnForward = None\<rparr>"
    using assms(2) by (auto simp: DogeNet_def NewSQLiteStore_def split: option.splits prod.splits)
  have i: "init_result (unixDayStamp (unixNow w)) (disk w) (disk w')"
    using initSchema_result [OF _ w'(1)] assms(1) by (simp add: program_file_def)
  then have r: "ready (disk w')" "same_rows (disk w) (disk w')" by (simp_all add: init_result_def)
  then have "good_world w'"
    using same_rows_wf assms(1) by (simp add: good_world_def good_def program_file_def)
  moreover have "keys32 (registered w')"
    using view_key [of "disk w"] same_rows_view [OF r(2)] assms(1)
    by (fastforce simp: keys32_def registered_def program_file_def)
  ultimately show ?thesis using w'(2) i by (simp add: NetService_New_def)
qed

lemma started_running:
  assumes "dogenet_started G cfg w d"
  shows "node_running G (dnNet d)"
proof -
  obtain now answers d0 where d0: "DogeNet G cfg None now w = Some (Inr d0)"
      "dnNet d = NetService_Run answers (dnNet d0)" and f: "program_file (disk w)"
    using assms by (auto simp: dogenet_started_def)
  from DogeNet_opens [OF f d0(1)] have opened: "good_world (stState (dnNet d0))" "keys32 (registered (stState (dnNet d0)))"
    "dnNet d0 = NetService_New (cfgBinds cfg) (cfgHandlerBind cfg) (cfgNodeKey cfg) (cfgAllowLocal cfg) now (stState (dnNet d0))"
    by blast+
  have "net_started (dnNet d)" unfolding d0(2) by (subst opened(3)) (rule net_started.intros)
  moreover have "stState (dnNet d) = stState (dnNet d0)"
    by (simp add: d0(2) NetService_Run_def)
  ultimately show ?thesis using opened(1,2) unfolding node_running_def by (intro exI [of _ "dnNet d"]) simp
qed

section \<open>The program refines the net service\<close>

text \<open>What the announce service does to the store is what other services may do.\<close>

abbreviation others_run :: "gossip \<Rightarrow> world \<Rightarrow> world \<Rightarrow> bool" where
  "others_run G \<equiv> (other_service G)\<^sup>*\<^sup>*"

lemma others_calls:
  "GetAnnounce w = Some (z, w1) \<Longrightarrow> others_run G w w1" "GetChannels w = Some (c, w1) \<Longrightarrow> others_run G w w1"
  "SetAnnounce pl sg t w = Some (e, w1) \<Longrightarrow> others_run G w w1" "SetAnnounceOwner ow w = Some (e, w1) \<Longrightarrow> others_run G w w1"
  "length key = 32 \<Longrightarrow> AddNetNode G key ad t ow cs pl sg w = Some (b, w1) \<Longrightarrow> others_run G w w1"
  by (blast intro: other_service.intros)+

lemma generate_others:
  assumes "generateAnnounce G (sqliteStore G) now key m w = Returns (r, w')" "length (Pub key) = 32"
  shows "others_run G w w'"
  using assms
  by (auto simp: generateAnnounce_def Let_def dest!: others_calls(3) [where G = G] others_calls(5) [OF assms(2), where G = G]
      split: if_splits option.splits prod.splits intro: rtranclp_trans)

lemma load_others:
  assumes "loadOrGenerateAnnounce G (sqliteStore G) now now' a w = Returns (r, a', w')" "length (Pub (anNodeKey a)) = 32"
  shows "others_run G w w'"
proof -
  have gen: "others_run G v w'" if "generateAnnounce G (sqliteStore G) now' (anNodeKey a) m v = Returns (r, w')" for m v
    using generate_others [OF that assms(2)] .
  have reuse: "others_run G v w'"
    if "reuse_or_generate G (sqliteStore G) now now' b pl sg ex v = Returns (r, a', w')" "anNodeKey b = anNodeKey a" for b pl sg ex v
    using that gen
    by (auto simp: reuse_or_generate_def with_state_Returns Let_def split: if_splits option.splits)
  show ?thesis
    using assms(1)
    by (auto simp: loadOrGenerateAnnounce_def with_state_Returns Let_def split: option.splits prod.splits
        dest!: others_calls(1,2) [where G = G] gen reuse intro: rtranclp_trans)
qed

lemma change_others:
  "apply_change (sqliteStore G) c a w = Some (b, a', w') \<Longrightarrow> others_run G w w'"
  using others_calls(2,4)
  by (cases c) (auto simp: apply_change_def Let_def split: if_splits option.splits prod.splits)

lemma announce_others:
  assumes "Announce_Run G (sqliteStore G) ev st now now' a q w = Some (a', q', w', out)"
    and "length (Pub (anNodeKey a)) = 32"
  shows "others_run G w w' \<and> (q' = q \<or> (\<exists>c. q = c # q')) \<and> anNodeKey a' = anNodeKey a"
proof (cases "ev = AFire")
  case True
  then show ?thesis using assms(1) by (auto simp: Announce_Run_def)
next
  case ev: False
  show ?thesis
  proof (cases "anPc a")
    case ALoad
    then show ?thesis
      using assms ev load_others load_fields
      by (fastforce simp: Announce_Run_def split: if_splits call.splits prod.splits)
  next
    case ASelect
    then have "ann_select G (sqliteStore G) ev st now a q w = Some (a', q', w', out)"
      using assms(1) ev by (simp add: Announce_Run_def)
    then show ?thesis
      using assms(2) change_others generate_others
      by (auto simp: ann_select_def after_change_def dest: apply_change_fields
          split: ann_event.splits list.splits option.splits prod.splits bool.splits call.splits if_splits)
  qed (use assms ev in \<open>auto simp: Announce_Run_def fetch_attempt_def Let_def
      split: if_splits ann_event.splits sum.splits\<close>)
qed

abbreviation net_run :: "gossip \<Rightarrow> world net \<Rightarrow> world net \<Rightarrow> bool" where
  "net_run G \<equiv> (net_step G (sqliteStore G) (other_service G))\<^sup>*\<^sup>*"

lemma net_run_others:
  assumes "others_run G s s'" "\<not> crashed n" "stState n = s"
  shows "net_run G n (n\<lparr>stState := s'\<rparr>)"
  using assms
proof (induction rule: rtranclp_induct)
  case base
  then have "n\<lparr>stState := s\<rparr> = n" by auto
  then show ?case by simp
next
  case (step t u)
  then have "net_step G (sqliteStore G) (other_service G) (n\<lparr>stState := t\<rparr>) ((n\<lparr>stState := t\<rparr>)\<lparr>stState := u\<rparr>)"
    by (intro net_step.Others) simp_all
  then show ?case using step.IH [OF step.prems] by simp
qed

lemma net_run_announce:
  assumes "others_run G (stState n) s" "q = announceChanges n \<or> (\<exists>c. announceChanges n = c # q)" "\<not> crashed n"
  shows "net_run G n (receive_out out (n\<lparr>announceChanges := q, stState := s\<rparr>))"
proof -
  let ?n1 = "n\<lparr>stState := s\<rparr>"
  let ?n2 = "n\<lparr>announceChanges := q, stState := s\<rparr>"
  have 1: "net_run G n ?n1" by (rule net_run_others [OF assms(1,3) refl])
  have e: "?n1\<lparr>announceChanges := q\<rparr> = ?n2" by simp
  have 2: "net_run G ?n1 ?n2"
  proof (cases "q = announceChanges n")
    case True
    then have "?n2 = ?n1" by simp
    then show ?thesis by simp
  next
    case False
    then obtain c where "announceChanges ?n1 = c # q" using assms(2) by auto
    from net_step.TakeChange [OF _ this] have "net_step G (sqliteStore G) (other_service G) ?n1 ?n2"
      using assms(3) by (simp add: e)
    then show ?thesis by blast
  qed
  have 3: "net_run G ?n2 (receive_out out ?n2)"
    using net_step.SetAnnounce [of ?n2] assms(3) by (cases out) (auto simp: receive_out_def)
  from 1 2 3 show ?thesis by (meson rtranclp_trans)
qed

lemma dogenet_step_net:
  assumes "dogenet_step G d d'" "length (Pub (anNodeKey (dnAnn d))) = 32"
  shows "net_run G (dnNet d) (dnNet d')"
  using assms
proof (induction rule: dogenet_step.induct)
  case (NetTask d n)
  then show ?case using net_task_step by (fastforce simp: alive_def)
next
  case (AnnounceTask d ev now' a q s out)
  then show ?case
    using announce_others [OF AnnounceTask(3,4)] net_run_announce [of G "dnNet d" s q out] by (auto simp: alive_def)
next
  case (ForwardTask d msg)
  then show ?case using net_step.Forward [of "dnNet d"] by (auto simp: alive_def)
next
  case (TrimTask d trev pc s)
  from Run_store [OF TrimTask(2)] have "others_run G (stState (dnNet d)) s"
    by (auto intro: other_service.intros)
  then show ?case using net_run_others TrimTask(1) by (simp add: alive_def)
next
  case (WebTask d k wa n)
  from web_step_net [OF WebTask(3)] consider "n = dnNet d" | np where "length (niPubKey np) = 32" "AddPeer np (dnNet d) = Some n"
    | x s where "n = (dnNet d)\<lparr>stState := s\<rparr>" "NodeList G (stState (dnNet d)) = Some (x, s)" by auto
  then show ?case
  proof cases
    case 2
    then have "net_step G (sqliteStore G) (other_service G) (dnNet d) n"
      using WebTask(1) by (intro net_step.AddPeer) (simp_all add: alive_def)
    then show ?thesis by auto
  next
    case 3
    then have "others_run G (stState (dnNet d)) s" by (blast intro: other_service.intros)
    then show ?thesis using net_run_others WebTask(1) 3(1) by (simp add: alive_def)
  qed simp
next
  case (Faults d r t fs)
  then have "others_run G (stState (dnNet d)) ((stState (dnNet d))\<lparr>faults := fs, unixNow := t, rnd := r\<rparr>)"
    by (blast intro: other_service.intros)
  then show ?case using net_run_others Faults(1) by (simp add: alive_def)
qed (auto simp: alive_def intro: net_step.intros)

lemma dogenet_step_key:
  assumes "dogenet_step G d d'" "length (Pub (anNodeKey (dnAnn d))) = 32"
  shows "anNodeKey (dnAnn d') = anNodeKey (dnAnn d)"
  using assms
proof (induction rule: dogenet_step.induct)
  case (AnnounceTask d ev now' a q s out)
  then show ?case using announce_others [OF AnnounceTask(3,4)] by simp
qed simp_all

lemma started_key:
  assumes "dogenet_started G cfg w d"
  shows "anNodeKey (dnAnn d) = cfgNodeKey cfg \<and> nodeKey (dnNet d) = cfgNodeKey cfg \<and>
    encAnnounce (dnNet d) = zero_rawMessage \<and> \<not> crashed (dnNet d) \<and>
    dnAnn d = Announce_New G (cfgPublic cfg) (cfgNodeKey cfg) (cfgUseReflector cfg) \<and>
    init_result (unixDayStamp (unixNow w)) (disk w) (disk (stState (dnNet d)))"
proof -
  obtain now answers d0 where d0: "DogeNet G cfg None now w = Some (Inr d0)"
      "d = d0\<lparr>dnNet := NetService_Run answers (dnNet d0)\<rparr>" and f: "program_file (disk w)"
    using assms by (auto simp: dogenet_started_def)
  obtain s where s: "dnNet d0 = NetService_New (cfgBinds cfg) (cfgHandlerBind cfg) (cfgNodeKey cfg) (cfgAllowLocal cfg) now s"
    using DogeNet_opens [OF f d0(1)] by blast
  have "stState (dnNet d) = stState (dnNet d0)" "nodeKey (dnNet d) = cfgNodeKey cfg"
    "encAnnounce (dnNet d) = zero_rawMessage" "\<not> crashed (dnNet d)"
    by (simp_all add: d0(2) s NetService_Run_def NetService_New_def)
  then show ?thesis using DogeNet_opens [OF f d0(1)] d0(2) by (simp add: Announce_New_def)
qed

lemma dogenet_net:
  assumes "dogenet_reachable G cfg w d"
  shows "node_running G (dnNet d) \<and> anNodeKey (dnAnn d) = cfgNodeKey cfg \<and> length (Pub (cfgNodeKey cfg)) = 32"
proof -
  obtain d0 where d0: "dogenet_started G cfg w d0" "(dogenet_step G)\<^sup>*\<^sup>* d0 d"
    using assms by (auto simp: dogenet_reachable_def)
  have k: "length (Pub (cfgNodeKey cfg)) = 32" using d0(1) by (simp add: dogenet_started_def)
  from d0(2) show ?thesis
  proof (induction rule: rtranclp_induct)
    case base
    then show ?case using started_running [OF d0(1)] conjunct1 [OF started_key [OF d0(1)]] k by blast
  next
    case (step y z)
    then have l: "length (Pub (anNodeKey (dnAnn y))) = 32" by simp
    have "node_running G (dnNet z)"
      using step.IH dogenet_step_net [OF step.hyps(2) l] unfolding node_running_def by (meson rtranclp_trans)
    then show ?case using step.IH dogenet_step_key [OF step.hyps(2) l] by simp
  qed
qed

section \<open>Only this node's announcement is sent as its own\<close>

lemma net_task_announcement:
  assumes "net_task G (sqliteStore G) n n'" "good_world (stState n)"
  shows "encAnnounce n' = encAnnounce n \<and> world_announcement (stState n') = world_announcement (stState n)"
  using assms
proof (induction rule: net_task.induct)
  case (1 ev p n n')
  then show ?case
    using receive_service [OF 1(1)] receive_store [OF 1(1)] sqlite.AddNetNode_ann [OF 1(2)]
    by (fastforce simp: same_service_def)
next
  case (2 ev p n n')
  then show ?case using send_service [OF 2(1)] send_store [OF 2(1)] by (simp add: same_service_def)
next
  case (3 ev h n n')
  then show ?case
    using handler_service [OF 3(1)] handler_store [OF 3(1)] sqlite.AddChannel_ann [OF 3(2)]
    by (auto simp: same_service_def)
next
  case (4 ev h n n')
  then show ?case using send_handler_service [OF 4(1)] send_handler_store [OF 4(1)] by (simp add: same_service_def)
next
  case (5 ev l n n')
  then show ?case using accept_service [OF 5(1)] accept_store [OF 5(1)] by (simp add: same_service_def)
next
  case (6 ev n n')
  then show ?case
    by (auto simp: acceptHandlers_def trackHandler_def Let_def
        split: accept_pc.splits if_splits task_event.splits prod.splits bool.splits)
next
  case (7 ev n n')
  have "encAnnounce n' = encAnnounce n"
    using 7(1) by (auto simp: findPeers_def choosePeer_def same_service_def dest!: open_peer_service lockPeer_fields
        split: find_pc.splits if_splits task_event.splits prod.splits bool.splits list.splits option.splits)
  then show ?case using find_store [OF 7(1)] sqlite.ChooseNetNode_ann [OF 7(2)] by auto
next
  case (8 ev n n')
  have "encAnnounce n' = encAnnounce n"
    using 8(1) by (auto simp: gossipRandomAddresses_def split: gossip_pc.splits task_event.splits if_splits option.splits prod.splits)
  then show ?case using gossip_store [OF 8(1)] sqlite.ChooseNetNodeMsg_ann [OF 8(2)] by auto
next
  case (9 ev n n')
  then show ?case using seed_service [OF 9(1)] seed_store [OF 9(1)] by (simp add: same_service_def)
qed

lemma TrimNodes_announcement:
  assumes "good_world w" "TrimNodes w = Some (r, w')"
  shows "world_announcement w' = world_announcement w"
proof -
  obtain a m e where r: "r = (a, m, e)" by (cases r)
  then have "disk w' = disk w \<or> disk w' = trimmed (unixDayStamp (unixNow w)) (disk w)"
    using TrimNodes_result [of w] assms by (auto simp: good_world_def split: option.splits if_splits)
  then show ?thesis by (auto simp: world_announcement_def announcement_def trimmed_def)
qed

text \<open>The invariant, as the announce service keeps it and the others leave it.\<close>

definition own_ok :: "gossip \<Rightarrow> dogenet \<Rightarrow> bool" where
  "own_ok G d \<longleftrightarrow> sqlite.ann_own G (dnAnn d) (stState (dnNet d)) \<and>
     (encAnnounce (dnNet d) = zero_rawMessage \<or> own_announcement G (anNodeKey (dnAnn d)) (encAnnounce (dnNet d)))"

lemma own_frame:
  assumes "own_ok G d" "good_world s" "world_announcement s = world_announcement (stState (dnNet d))"
    and "encAnnounce n = encAnnounce (dnNet d)" "stState n = s"
  shows "own_ok G (d\<lparr>dnNet := n\<rparr>)"
  using assms by (auto simp: own_ok_def sqlite.ann_own_def)

lemma own_step:
  assumes "dogenet_step G d d'" "own_ok G d" "good_world (stState (dnNet d))" "good_world (stState (dnNet d'))"
    and "codec_total G"
  shows "own_ok G d'"
  using assms
proof (induction rule: dogenet_step.induct)
  case (NetTask d n)
  then show ?case using net_task_announcement [OF NetTask(2,4)] own_frame [OF NetTask(3)] by simp
next
  case (AnnounceTask d ev now' a q s out)
  have "sqlite.ann_own G (dnAnn d) (stState (dnNet d))" using AnnounceTask(4) by (simp add: own_ok_def)
  from sqlite.ann_own_step [OF AnnounceTask(3) this AnnounceTask(7)] AnnounceTask(4)
  show ?case
    by (cases out) (auto simp: own_ok_def receive_out_def ns_setAnnounce_def)
next
  case (ForwardTask d msg)
  then show ?case using own_frame [OF ForwardTask(3), of "stState (dnNet d)" "forwardToPeers msg (dnNet d)"]
    by (simp add: own_ok_def forwardToPeers_eq)
next
  case (TrimTask d trev pc s)
  have "world_announcement s = world_announcement (stState (dnNet d))"
    using Run_store [OF TrimTask(2)] TrimNodes_announcement [OF TrimTask(4)] by auto
  then show ?case using TrimTask by (auto simp: own_ok_def sqlite.ann_own_def)
next
  case (WebTask d k wa n)
  have "encAnnounce n = encAnnounce (dnNet d) \<and> disk (stState n) = disk (stState (dnNet d))"
    using web_step_net [OF WebTask(3)] NodeList_disk by (auto simp: AddPeer_def)
  then show ?case using WebTask(4,6) by (auto simp: own_ok_def sqlite.ann_own_def world_announcement_def)
next
  case (Faults d r t fs)
  then show ?case using own_frame [OF Faults(2)] by (simp add: world_announcement_def)
next
  case (Shutdown d)
  then show ?case using own_frame [OF Shutdown(3)] by (simp add: Stop_eq)
qed (use own_frame in \<open>simp_all\<close>)

section \<open>A start on a new database\<close>

lemma sample_open:
  "initSchema \<lparr>disk = empty_db, faults = [], unixNow = 1700000000, rnd = 0\<rparr> = Some (None, sample_world)"
  by (simp add: initSchema_def doTxn_first initSchema_work_def initSchema_config_def
        initSchema_migrate_def MIGRATIONS_def stmt_defs empty_db_def only_error_def
        unixDayStamp_def SecondsPerDay_def go_div_def sample_world_def sample_db_def)

definition new_world :: world where
  "new_world = \<lparr>disk = empty_db, faults = [], unixNow = 1700000000, rnd = 0\<rparr>"

lemma new_world_file: "program_file (disk new_world)"
  by (simp add: new_world_def program_file_def known_version_def wf_db_def empty_db_def)

lemma new_world_opens:
  "\<exists>d0. DogeNet G cfg None now new_world = Some (Inr d0) \<and> stState (dnNet d0) = sample_world \<and>
     dnAnn d0 = Announce_New G (cfgPublic cfg) (cfgNodeKey cfg) (cfgUseReflector cfg)"
  by (simp add: DogeNet_def NewSQLiteStore_def new_world_def sample_open NetService_New_def)

definition sample_config :: dogeNetConfig where
  "sample_config = \<lparr>cfgDir = ''./storage'', cfgDBFile = ''dogenet.db'', cfgBinds = [], cfgBindWeb = [zero_address],
     cfgHandlerBind = \<lparr>Network = ''unix'', BindAddress = ''/tmp/dogenet.sock''\<rparr>, cfgNodeKey = sample_key, cfgAllowLocal = False,
     cfgPublic = \<lparr>Host = [8, 8, 8, 8], Port = 22\<rparr>, cfgUseReflector = False\<rparr>"

lemma sample_starts:
  "\<exists>d0. DogeNet sample_gossip sample_config None 0 new_world = Some (Inr d0) \<and>
     dogenet_started sample_gossip sample_config new_world d0 \<and>
     dnNet d0 = NetService_New [] (cfgHandlerBind sample_config) sample_key False 0 sample_world \<and> dnForward d0 = None \<and>
     dnWeb d0 = [Web_New sample_gossip zero_address] \<and> anPc (dnAnn d0) = ALoad"
proof -
  let ?n = "NetService_New [] (cfgHandlerBind sample_config) sample_key False 0 sample_world"
  let ?d0 = "\<lparr>dnNet = ?n, dnAnn = Announce_New sample_gossip \<lparr>Host = [8, 8, 8, 8], Port = 22\<rparr> sample_key False,
     dnWeb = [Web_New sample_gossip zero_address], dnTrimmer = NewStoreTrimmer, dnForward = None\<rparr>"
  have d: "DogeNet sample_gossip sample_config None 0 new_world = Some (Inr ?d0)"
    by (simp add: DogeNet_def NewSQLiteStore_def new_world_def sample_open sample_config_def)
  moreover have "?d0 = ?d0\<lparr>dnNet := NetService_Run [] (dnNet ?d0)\<rparr>" by (simp add: NetService_Run_def)
  moreover have "length (Pub (cfgNodeKey sample_config)) = 32" by (simp add: sample_config_def sample_key_def)
  ultimately have "dogenet_started sample_gossip sample_config new_world ?d0"
    unfolding dogenet_started_def using new_world_file by blast
  with d show ?thesis by (intro exI [of _ ?d0]) (simp add: Announce_New_def)
qed

end
