(* ===== verification/AnnounceProps.thy ===== *)
theory AnnounceProps
  imports DogeNode
begin

text \<open>
  Properties of the announce service: its timer, the reflector's backoff, what counts as a
  change, and, over the SQLite store, what it signs, stores and sends again after a restart.
\<close>

section \<open>A concrete run\<close>

definition sample_announce :: announce where
  "sample_announce = Announce_New sample_gossip \<lparr>Host = [8, 8, 8, 8], Port = 22\<rparr> sample_key False"

lemma sample_announce_fields [simp]:
  "anPc sample_announce = ALoad" "anNodeKey sample_announce = sample_key"
  "AddrMsgIsValid sample_gossip (anNext sample_announce)" "amChannels (anNext sample_announce) = []"
  "amOwner (anNext sample_announce) = ZeroOwner" "length (amAddress (anNext sample_announce)) = 16"
  by (simp_all add: sample_announce_def Announce_New_def sample_gossip_def ZeroOwner_def To16_def)

lemma sample_config:
  "(anNext sample_announce)\<lparr>amChannels := []\<rparr> = anNext sample_announce"
  "sample_announce\<lparr>anNext := anNext sample_announce\<rparr> = sample_announce"
  by (simp_all add: sample_announce_def Announce_New_def)

lemma sample_rows [simp]:
  "channels sample_db = []" "announce sample_db = []" "announcement sample_db = ([], [], 0, [])"
  by (simp_all add: sample_db_def empty_db_def announcement_def)

lemma sample_generate:
  assumes "AddrMsgIsValid sample_gossip m" "amChannels m = []"
  shows "\<exists>s. generateAnnounce sample_gossip (sqliteStore sample_gossip) now sample_key m sample_world =
     Returns ((\<lparr>Header = ViewHeader sample_gossip (signed_packet sample_gossip now sample_key m),
               Payload = signed_payload sample_gossip now m\<rparr>, AnnounceLongevity, True), s)"
proof -
  let ?pl = "signed_payload sample_gossip now m"
    and ?sig = "ViewSignature sample_gossip (signed_packet sample_gossip now sample_key m)"
  obtain e where e: "SetAnnounce ?pl ?sig (Unix (now + AnnounceLongevity)) sample_world = Some (Some e, sample_world)"
    using sample_SetAnnounce by blast
  obtain isnew s where "AddNetNode sample_gossip (Pub sample_key) \<lparr>Host = amAddress m, Port = amPort m\<rparr>
      (Unix (DogeLocal sample_gossip (UnixToDoge sample_gossip now))) (amOwner m) [] ?pl ?sig sample_world = Some ((isnew, None), s)"
    using sample_AddNetNode by blast
  then show ?thesis
    using assms e by (auto simp: generateAnnounce_def signed_defs Let_def)
qed

lemma sample_reads:
  "GetChannels sample_world = Some (([], None), sample_world)"
  "GetAnnounce sample_world = Some (([], [], 0, [], None), sample_world)"
  using GetChannels_no_fault [OF good_sample(2,3)] GetAnnounce_no_fault [OF good_sample(2,3)] by simp_all

lemma sample_load:
  "\<exists>s. loadOrGenerateAnnounce sample_gossip (sqliteStore sample_gossip) now now' sample_announce sample_world =
     Returns ((\<lparr>Header = ViewHeader sample_gossip (signed_packet sample_gossip now' sample_key (anNext sample_announce)),
               Payload = signed_payload sample_gossip now' (anNext sample_announce)\<rparr>, AnnounceLongevity, True),
              sample_announce, s)"
proof -
  obtain s where "generateAnnounce sample_gossip (sqliteStore sample_gossip) now' sample_key (anNext sample_announce) sample_world =
     Returns ((\<lparr>Header = ViewHeader sample_gossip (signed_packet sample_gossip now' sample_key (anNext sample_announce)),
               Payload = signed_payload sample_gossip now' (anNext sample_announce)\<rparr>, AnnounceLongevity, True), s)"
    using sample_generate by fastforce
  moreover have "AddrMsgMinSize sample_gossip = 51" by (simp add: sample_gossip_def)
  ultimately show ?thesis
    by (simp add: loadOrGenerateAnnounce_def reuse_or_generate_def sample_reads Let_def sample_config with_state_def)
qed

text \<open>From the start to the \<open>select\<close>, and a change that finds the timer fired.\<close>

lemma sample_selecting:
  "\<exists>a. ann_reachable sample_gossip (sqliteStore sample_gossip) a \<and> anPc a = ASelect \<and>
     anTimer a = NewTimer 0 AnnounceLongevity \<and> anNext a = anNext sample_announce"
proof -
  let ?S = "sqliteStore sample_gossip"
  let ?R = "ann_reachable sample_gossip ?S"
  obtain s r where l: "loadOrGenerateAnnounce sample_gossip ?S 0 0 sample_announce sample_world =
     Returns ((r, AnnounceLongevity, True), sample_announce, s)"
    using sample_load by blast
  have start: "?R sample_announce" unfolding sample_announce_def by (rule ann_start)
  have "Announce_Run sample_gossip ?S AGo False 0 0 sample_announce [] sample_world =
      Some (sample_announce\<lparr>anPc := AFirst (r, AnnounceLongevity, True)\<rparr>, [], s, None)"
    using l by (simp add: Announce_Run_def)
  from ann_step [OF start this] have "?R (sample_announce\<lparr>anPc := AFirst (r, AnnounceLongevity, True)\<rparr>)" .
  then have "?R (sample_announce\<lparr>anPc := AFirstSent AnnounceLongevity\<rparr>)"
    by (rule ann_step [where ev = AGo]) (simp add: Announce_Run_def)
  then have "?R (sample_announce\<lparr>anTimer := NewTimer 0 AnnounceLongevity, anPc := ALoop\<rparr>)"
    by (rule ann_step [where ev = AGo and now = 0]) (simp add: Announce_Run_def)
  then have "?R (sample_announce\<lparr>anTimer := NewTimer 0 AnnounceLongevity, anPc := ASelect\<rparr>)"
    by (rule ann_step [where ev = AGo and stopping = False]) (simp add: Announce_Run_def)
  then show ?thesis
    by (intro exI [of _ "sample_announce\<lparr>anTimer := NewTimer 0 AnnounceLongevity, anPc := ASelect\<rparr>"]) simp
qed

section \<open>The timer\<close>

text \<open>
  C10: the announce loop never stalls on its timer. In every reachable state: where the loop
  waits in its \<open>select\<close>, the timer is running or its value is ready to be received, never
  both, so a next announcement is always due; where a change found the timer already fired,
  the receive that drains it cannot block, and after it the timer is due in ten seconds.
\<close>

theorem announce_timer_always_due:
  assumes "ann_reachable G S a"
  shows "(anPc a = ASelect \<longrightarrow> (tDeadline (anTimer a) \<noteq> None) \<noteq> (\<exists>t. timer_receive (anTimer a) = Some t)) \<and>
    (anPc a = ADrain \<longrightarrow> Announce_Run G S AGo st now now' a q s =
       Some (a\<lparr>anTimer := NewTimer now QueueAnnouncement, anPc := ALoop\<rparr>, q, s, None))"
  using ann_reachable_timer [OF assms]
  by (auto simp: timer_ok_def Announce_Run_def timer_defs)

theorem announce_timer_always_due_witness:
  "\<exists>a. ann_reachable sample_gossip (sqliteStore sample_gossip) a \<and> anPc a = ASelect \<and>
     timer_receive (anTimer a) = None"
proof -
  obtain a where a: "ann_reachable sample_gossip (sqliteStore sample_gossip) a" "anPc a = ASelect"
     "anTimer a = NewTimer 0 AnnounceLongevity"
    using sample_selecting by blast
  then have "tDeadline (anTimer a) \<noteq> None" by (simp add: NewTimer_def)
  with announce_timer_always_due [OF a(1)] a show ?thesis by (cases "timer_receive (anTimer a)") auto
qed

text \<open>
  C26: a change is announced after ten quiet seconds. When the loop takes a change from its
  queue that is not ignored, and the node's description is then valid, the timer is set to
  fire exactly ten seconds after the change (or after the drain, when it had just fired);
  nothing is sent and the rest of the queue is kept. If the description is not valid the
  timer runs on unchanged.
\<close>

theorem change_announced_after_quiet:
  assumes "ann_reachable G S a" "anPc a = ASelect" "apply_change S c a s = Some (True, a1, s1)"
  shows "\<exists>a'. Announce_Run G S AChange st now now' a (c # q) s = Some (a', q, s1, None) \<and>
    anNext a' = anNext a1 \<and>
    (if \<not> AddrMsgIsValid G (anNext a1) then anPc a' = ALoop \<and> anTimer a' = anTimer a
     else if tDeadline (anTimer a) \<noteq> None then anPc a' = ALoop \<and> anTimer a' = NewTimer now QueueAnnouncement
     else anPc a' = ADrain \<and>
       Announce_Run G S AGo st' later later' a' q s1 =
         Some (a'\<lparr>anTimer := NewTimer later QueueAnnouncement, anPc := ALoop\<rparr>, q, s1, None))"
proof -
  have t: "tFired (anTimer a) \<longleftrightarrow> tDeadline (anTimer a) = None"
    using ann_reachable_timer [OF assms(1)] assms(2) by (simp add: timer_ok_def)
  have "anTimer a1 = anTimer a" using apply_change_fields [OF assms(3)] by simp
  then show ?thesis
    using assms(2,3) t
    by (auto simp: Announce_Run_def ann_select_def after_change_def timer_defs)
qed

theorem change_announced_after_quiet_witness:
  "\<exists>a a'. ann_reachable sample_gossip (sqliteStore sample_gossip) a \<and>
     Announce_Run sample_gossip (sqliteStore sample_gossip) AChange False 5 5 a [ChangePublicAddress \<lparr>Host = [9, 9, 9, 9], Port = 1\<rparr>] sample_world =
       Some (a', [], sample_world, None) \<and> anTimer a' = NewTimer 5 QueueAnnouncement"
proof -
  obtain a where a: "ann_reachable sample_gossip (sqliteStore sample_gossip) a" "anPc a = ASelect"
     "anTimer a = NewTimer 0 AnnounceLongevity" "anNext a = anNext sample_announce"
    using sample_selecting by blast
  let ?a1 = "a\<lparr>anNext := (anNext a)\<lparr>amAddress := To16 [9, 9, 9, 9], amPort := 1\<rparr>\<rparr>"
  have c: "apply_change (sqliteStore sample_gossip) (ChangePublicAddress \<lparr>Host = [9, 9, 9, 9], Port = 1\<rparr>) a sample_world =
      Some (True, ?a1, sample_world)"
    by (simp add: apply_change_def)
  have v: "AddrMsgIsValid sample_gossip (anNext ?a1)"
    by (simp add: a(4) sample_announce_def Announce_New_def sample_gossip_def ZeroOwner_def To16_def)
  have "tDeadline (anTimer a) \<noteq> None" by (simp add: a(3) NewTimer_def)
  with change_announced_after_quiet [OF a(1,2) c, of False 5 5 "[]"] v a(1) show ?thesis by auto
qed

section \<open>The reflector\<close>

text \<open>
  C40: how long the service waits between two attempts to learn its address. In every
  reachable state after a failed attempt the backoff is 60 nanoseconds, not 60 seconds, so
  the wait, with any random part below ten, is shorter than the ten seconds the backoff
  started from. A reflector that answers with the JSON of an address is understood; an
  answer is used only if it is an IP address, which is then kept in its 16-byte form.
\<close>

theorem reflector_backoff:
  assumes "ann_reachable G S a"
  shows "(anPc a = AFetchSleep b \<longrightarrow> b = 60 \<and>
      (\<forall>r. 0 \<le> r \<and> r < RetryRandom \<longrightarrow> 0 < retry_sleep b r \<and> retry_sleep b r < ReflectorRetry)) \<and>
    (case fetchJson res of
       Inr addr \<Rightarrow> anPc (fetch_attempt G res b' a) = ALoad \<longleftrightarrow> ParseIP addr \<noteq> []
     | Inl e \<Rightarrow> anNext (fetch_attempt G res b' a) = anNext a) \<and>
    (anNext (fetch_attempt G res b' a) \<noteq> anNext a \<longrightarrow>
       length (amAddress (anNext (fetch_attempt G res b' a))) = 16) \<and>
    (ascii text \<longrightarrow> fetchJson (Inr (200, Inr (json_print (json_object [(''ip'', text)])))) = Inr text)"
proof (intro conjI impI)
  have ok: "timer_ok a" by (rule ann_reachable_timer [OF assms])
  assume "anPc a = AFetchSleep b"
  then show "b = 60" using ok by (simp add: timer_ok_def)
  then show "\<forall>r. 0 \<le> r \<and> r < RetryRandom \<longrightarrow> 0 < retry_sleep b r \<and> retry_sleep b r < ReflectorRetry"
    by (auto simp: retry_sleep_def RetryRandom_def ReflectorRetry_def Second_def)
next
  have len: "To16 (ParseIP addr) = ParseIP addr" for addr
    using length_ParseIP [of addr] by (auto simp: To16_def)
  show "case fetchJson res of
       Inr addr \<Rightarrow> anPc (fetch_attempt G res b' a) = ALoad \<longleftrightarrow> ParseIP addr \<noteq> []
     | Inl e \<Rightarrow> anNext (fetch_attempt G res b' a) = anNext a"
    by (auto simp: fetch_attempt_def len Let_def split: sum.splits)
  assume "anNext (fetch_attempt G res b' a) \<noteq> anNext a"
  then show "length (amAddress (anNext (fetch_attempt G res b' a))) = 16"
    using length_ParseIP by (auto simp: fetch_attempt_def len Let_def split: sum.splits if_splits)
next
  assume "ascii text"
  moreover have "ascii ''ip''" by code_simp
  ultimately have "plain_fields [(''ip'', text)]" by (simp add: plain_fields_def)
  from unmarshal_marshal [OF this] show "fetchJson (Inr (200, Inr (json_print (json_object [(''ip'', text)])))) = Inr text"
    by (simp add: fetchJson_def unmarshal_MyIPResult_def)
qed

theorem reflector_backoff_witness:
  "\<exists>a. ann_reachable sample_gossip (sqliteStore sample_gossip) a \<and> anPc a = AFetchSleep 60 \<and> retry_sleep 60 9 < ReflectorRetry"
proof -
  let ?S = "sqliteStore sample_gossip"
  let ?a = "Announce_New sample_gossip zero_address sample_key True"
  have r: "ann_reachable sample_gossip ?S ?a" by (rule ann_start)
  have "Announce_Run sample_gossip ?S (AAnswer (Inl (OpaqueError ''refused''))) False 0 0 ?a [] sample_world =
     Some (?a\<lparr>anPc := AFetchSleep 60\<rparr>, [], sample_world, None)"
    by (simp add: Announce_Run_def Announce_New_def fetch_attempt_def fetchJson_def next_backoff_def
        ReflectorRetry_def Second_def)
  from ann_step [OF r this] have "ann_reachable sample_gossip ?S (?a\<lparr>anPc := AFetchSleep 60\<rparr>)" .
  from reflector_backoff [OF this, of 60] this show ?thesis
    by (intro exI [of _ "?a\<lparr>anPc := AFetchSleep 60\<rparr>"]) (simp add: RetryRandom_def)
qed

section \<open>Changes\<close>

lemma channels_differ_iff: "length xs = length ys \<Longrightarrow> channels_differ xs ys \<longleftrightarrow> xs \<noteq> ys"
  by (induction xs ys rule: list_induct2) simp_all



section \<open>Signing and storing\<close>



text \<open>
  C21: which announcement the service starts with. If the registered channels and the stored
  announcement can be read, the description is completed with the sorted channels and the
  stored owner; the stored announcement is sent again, with its own signature and for the
  rest of its time, exactly when it has not expired and encoding the present description with
  the stored time gives the stored payload, and then nothing is written; otherwise a new one
  is signed.
\<close>

theorem stored_announcement_reused:
  assumes "loadOrGenerateAnnounce G (sqliteStore G) now now' a w = Returns ((msg, remain, ok), a', w')" "good_world w"
    and "GetChannels w = Some ((cs, None), w1)" "GetAnnounce w1 = Some ((pl, sg, ex, ow, None), w2)"
  shows "anNext a' = stored_owner ow ((anNext a)\<lparr>amChannels := sort cs\<rparr>) \<and> (ok \<longleftrightarrow> AddrMsgIsValid G (anNext a')) \<and>
    (ok \<longrightarrow>
      (if reusable G now (anNext a') (world_announcement w)
       then msg = ReEncodeMessage G (ChannelNode G) (TagAddress G) (Pub (anNodeKey a))
              (fst (snd (world_announcement w))) (fst (world_announcement w)) \<and>
            remain = (fst (snd (snd (world_announcement w))) - Unix now) * Second \<and>
            world_announcement w' = world_announcement w \<and> registered w' = registered w
       else msg = \<lparr>Header = ViewHeader G (signed_packet G now' (anNodeKey a) (anNext a')),
                   Payload = signed_payload G now' (anNext a')\<rparr> \<and> remain = AnnounceLongevity))"
  using sqlite.load_contract [OF assms(1,2), unfolded sqliteStore_fields, OF assms(3,4)] by simp

theorem stored_announcement_reused_witness:
  "\<exists>msg a' w'. loadOrGenerateAnnounce sample_gossip (sqliteStore sample_gossip) 0 0 sample_announce sample_world =
     Returns ((msg, AnnounceLongevity, True), a', w') \<and> anNext a' = anNext sample_announce"
proof -
  obtain msg w' where l: "loadOrGenerateAnnounce sample_gossip (sqliteStore sample_gossip) 0 0 sample_announce sample_world =
     Returns ((msg, AnnounceLongevity, True), sample_announce, w')"
    using sample_load by blast
  have "good_world sample_world" by (simp add: good_world_def)
  from stored_announcement_reused [OF l this sample_reads] l show ?thesis
    by (auto simp: stored_owner_def sample_config)
qed

section \<open>Restarts\<close>

text \<open>
  C9: a restart repeats the announcement. If storing an announcement signed at time \<open>t\<close>
  succeeded, then any later start that finds this announcement in the store before it
  expires, with the same channels, owner, address and services, sends the very same payload
  with the same signature again, for exactly the time that is left, and signs and writes
  nothing. The library is relied on to decode the time of what it encoded, and on the sizes
  of payloads and signatures.
\<close>

theorem restart_repeats_announcement:
  assumes "generateAnnounce G (sqliteStore G) t key m w = Returns ((msg, remain, True), w1)" "good_world w"
    and "SetAnnounce (signed_payload G t m) (ViewSignature G (signed_packet G t key m)) (Unix (t + AnnounceLongevity)) w =
      Some (None, w0)"
    and "DecodeAddrMsg G (signed_payload G t m) = Some old" "amTime old = UnixToDoge G t"
    and "AddrMsgMinSize G \<le> length (signed_payload G t m)" "length (ViewSignature G (signed_packet G t key m)) = 64"
    and "good_world v" "world_announcement v = world_announcement w1" "Unix now < Unix (t + AnnounceLongevity)"
    and "GetChannels v = Some ((cs, None), v1)" "GetAnnounce v1 = Some ((pl, sg, ex, ow, None), v2)"
    and "anNodeKey a = key" "stored_owner ow ((anNext a)\<lparr>amChannels := sort cs\<rparr>) = m"
  shows "loadOrGenerateAnnounce G (sqliteStore G) now now' a v =
      Returns ((ReEncodeMessage G (ChannelNode G) (TagAddress G) (Pub key)
          (ViewSignature G (signed_packet G t key m)) (signed_payload G t m),
        (Unix (t + AnnounceLongevity) - Unix now) * Second, True), a\<lparr>anNext := m\<rparr>, v2) \<and>
    world_announcement v2 = world_announcement v \<and> registered v2 = registered v"
proof -
  have row: "world_announcement v = (signed_payload G t m, ViewSignature G (signed_packet G t key m), signed_expiry t,
      snd (snd (snd (world_announcement w))))"
    using sqlite.generate_stored [OF assms(1,2), of w0] assms(3,9) by (simp add: signed_expiry_def)
  have valid: "AddrMsgIsValid G m" using sqlite.generate_contract [OF assms(1,2)] by simp
  have "good_world v1 \<and> world_announcement v1 = world_announcement v"
    using sqlite.GetChannels_law [OF assms(8), of G cs None v1] assms(11) by simp
  then have "ow = snd (snd (snd (world_announcement w)))"
    using sqlite.GetAnnounce_law [of v1 G pl sg ex ow None v2] assms(12) row by simp
  moreover have "Unix now < signed_expiry t" using assms(10) by (simp add: signed_expiry_def)
  ultimately show ?thesis
    using sqlite.restart_reuses [where now' = now', OF assms(8) row valid assms(4-7) _ assms(13),
        unfolded sqliteStore_fields, OF _ assms(11,12)] assms(14)
    by (simp add: signed_expiry_def)
qed

text \<open>A store with an announcement row, and the row a new announcement leaves.\<close>

definition sample_row_world :: "bytes \<Rightarrow> bytes \<Rightarrow> int \<Rightarrow> world" where
  "sample_row_world p s t = sample_world\<lparr>disk := sample_db\<lparr>announce :=
     [\<lparr>anPayload = p, anSig = s, anTime = t, anOwner = Some (replicate 32 0)\<rparr>]\<rparr>\<rparr>"

lemma sample_row_world_good: "good (disk (sample_row_world p s t))" "faults (sample_row_world p s t) = []"
  "good_world (sample_row_world p s t)"
  "world_announcement (sample_row_world p s t) = (p, s, t, replicate 32 0)"
  by (simp_all add: sample_row_world_def good_def ready_def wf_db_def sample_db_def empty_db_def
      good_world_def world_announcement_def announcement_def)

lemma sample_row_SetAnnounce:
  "SetAnnounce p' s' t' (sample_row_world p s t) = Some (None, sample_row_world p' s' t')"
proof -
  have "SetAnnounce_work p' s' t' () (disk (sample_row_world p s t), []) = (None, (), disk (sample_row_world p' s' t'), [])"
    using sample_row_world_good(1) [of p s t]
    by (simp add: SetAnnounce_work_def stmt_defs) (simp add: sample_row_world_def)
  from doTxn_ok [of "sample_row_world p s t" "SetAnnounce_work p' s' t'" "()", OF sample_row_world_good(2) this]
  show ?thesis by (simp add: SetAnnounce_def only_error_def) (simp add: sample_row_world_def)
qed

lemma sample_codec:
  assumes "AddrMsgIsValid sample_gossip m"
  shows "\<exists>old. DecodeAddrMsg sample_gossip (signed_payload sample_gossip t m) = Some old \<and>
      amTime old = UnixToDoge sample_gossip t"
    and "AddrMsgMinSize sample_gossip \<le> length (signed_payload sample_gossip t m)"
    and "length (ViewSignature sample_gossip (signed_packet sample_gossip t key m)) = 64"
  using assms
  by (auto simp: sample_gossip_def signed_payload_def signed_packet_def sample_encode_def sample_decode_def port_bytes_def)

theorem restart_repeats_announcement_witness:
  "\<exists>v a v2. loadOrGenerateAnnounce sample_gossip (sqliteStore sample_gossip) (Second * 100) 0 sample_announce v =
     Returns ((ReEncodeMessage sample_gossip 1 2 (Pub sample_key)
         (ViewSignature sample_gossip (signed_packet sample_gossip 0 sample_key (anNext sample_announce)))
         (signed_payload sample_gossip 0 (anNext sample_announce)), 86300 * Second, True), a, v2)"
proof -
  let ?m = "anNext sample_announce" and ?S = "sqliteStore sample_gossip"
  let ?pl = "signed_payload sample_gossip 0 ?m" and ?sg = "ViewSignature sample_gossip (signed_packet sample_gossip 0 sample_key ?m)"
  let ?w = "sample_row_world [] [] 0" and ?v = "sample_row_world ?pl ?sg (Unix AnnounceLongevity)"
  have set: "SetAnnounce ?pl ?sg (Unix (0 + AnnounceLongevity)) ?w = Some (None, ?v)"
    by (simp add: sample_row_SetAnnounce)
  obtain c e w1 where "AddNetNode sample_gossip (Pub sample_key) \<lparr>Host = amAddress ?m, Port = amPort ?m\<rparr>
      (Unix (DogeLocal sample_gossip (UnixToDoge sample_gossip 0))) (amOwner ?m) (amChannels ?m) ?pl ?sg ?v = Some ((c, e), w1)"
    using sqlite.AddNetNode_law [OF sample_row_world_good(3), of sample_gossip] unfolding sqliteStore_fields by blast
  then obtain msg where gen: "generateAnnounce sample_gossip ?S 0 sample_key ?m ?w = Returns ((msg, AnnounceLongevity, True), w1)"
    using set by (auto simp: generateAnnounce_def signed_defs Let_def)
  obtain old where old: "DecodeAddrMsg sample_gossip ?pl = Some old" "amTime old = UnixToDoge sample_gossip 0"
    using sample_codec(1) [of ?m 0] by auto
  have row: "world_announcement ?v = world_announcement w1"
    using sqlite.generate_stored [OF gen sample_row_world_good(3), of ?v] set
    by (simp add: sample_row_world_good(4) signed_expiry_def)
  have reads: "GetChannels ?v = Some (([], None), ?v)"
     "GetAnnounce ?v = Some ((?pl, ?sg, Unix AnnounceLongevity, replicate 32 0, None), ?v)"
    using GetChannels_no_fault [OF sample_row_world_good(1,2)] GetAnnounce_no_fault [OF sample_row_world_good(1,2)]
      sample_row_world_good(4)
    by (simp_all add: sample_row_world_def world_announcement_def)
  have time: "Unix (Second * 100) < Unix (0 + AnnounceLongevity)" "Unix AnnounceLongevity - Unix (Second * 100) = 86300"
    by (simp_all add: Unix_def AnnounceLongevity_def time_units)
  have cfg: "stored_owner (replicate 32 0) (?m\<lparr>amChannels := sort []\<rparr>) = ?m"
    by (simp add: sample_config stored_owner_def) (simp add: sample_announce_def Announce_New_def ZeroOwner_def)
  have "loadOrGenerateAnnounce sample_gossip ?S (Second * 100) 0 sample_announce ?v =
     Returns ((ReEncodeMessage sample_gossip 1 2 (Pub sample_key) ?sg ?pl, 86300 * Second, True), sample_announce, ?v)"
    using restart_repeats_announcement [OF gen sample_row_world_good(3) set old sample_codec(2,3)
        sample_row_world_good(3) row time(1) reads sample_announce_fields(2) cfg, of 0] time(2)
    by (simp add: sample_config)
  then show ?thesis by blast
qed

lemma AddNetNode_announce:
  assumes "good (disk w)" "AddNetNode G key ad t ow cs pl sg w = Some (r, w')"
  shows "announce (disk w') = announce (disk w)"
  using AddNetNode_result [OF assms(1), of G key ad t ow cs pl sg] assms(2)
    store_row_contract(2) [OF assms(1)]
  by (auto split: option.splits if_splits)

lemma generate_no_row:
  assumes "generateAnnounce G (sqliteStore G) now key m w = Returns ((msg, remain, ok), w')" "good_world w"
    and "announce (disk w) = []"
  shows "announce (disk w') = [] \<and> (ok \<longrightarrow> msg = \<lparr>Header = ViewHeader G (signed_packet G now key m), Payload = signed_payload G now m\<rparr>)"
proof (cases "AddrMsgIsValid G m")
  case True
  then obtain e w1 r where c: "SetAnnounce (signed_payload G now m) (ViewSignature G (signed_packet G now key m))
       (Unix (now + AnnounceLongevity)) w = Some (e, w1)"
     "AddNetNode G (Pub key) \<lparr>Host = amAddress m, Port = amPort m\<rparr> (Unix (DogeLocal G (UnixToDoge G now)))
       (amOwner m) (amChannels m) (signed_payload G now m) (ViewSignature G (signed_packet G now key m)) w1 = Some (r, w')"
    using assms(1) by (auto simp: generateAnnounce_def signed_defs Let_def split: option.splits prod.splits)
  have "disk w1 = disk w"
    using SetAnnounce_without_row [OF _ assms(3) c(1)] assms(2) by (simp add: good_world_def)
  then show ?thesis
    using AddNetNode_announce [OF _ c(2)] assms sqlite.generate_contract [OF assms(1,2)] by (simp add: good_world_def)
next
  case False
  then show ?thesis using assms sqlite.generate_contract [OF assms(1,2)] by auto
qed

text \<open>
  C33: the first announcement is never stored. On a database without an announcement row,
  whatever the driver does, a start of the announce service leaves it without one, and every
  announcement it hands out is newly signed. So every start signs anew, until the owner of
  the node becomes known and \<open>SetAnnounceOwner\<close> inserts the row.
\<close>

theorem first_announcement_never_stored:
  assumes "good_world w" "announce (disk w) = []" "0 < AddrMsgMinSize G"
    and "loadOrGenerateAnnounce G (sqliteStore G) now now' a w = Returns ((msg, remain, ok), a', w')"
  shows "announce (disk w') = [] \<and>
    (ok \<longrightarrow> msg = \<lparr>Header = ViewHeader G (signed_packet G now' (anNodeKey a) (anNext a')),
                  Payload = signed_payload G now' (anNext a')\<rparr>)"
proof -
  obtain cs e w1 where c: "GetChannels w = Some ((cs, e), w1)"
    using assms(4) by (cases "GetChannels w") (auto simp: loadOrGenerateAnnounce_def)
  have 1: "disk w1 = disk w" "good_world w1"
    using contract_GetChannels [OF assms(1) c] same_disk(1) [of w1 w] assms(1) by auto
  show ?thesis
  proof (cases e)
    case (Some x)
    then show ?thesis using assms(2,4) c 1(1) by (auto simp: loadOrGenerateAnnounce_def)
  next
    case e: None
    let ?a1 = "a\<lparr>anNext := (anNext a)\<lparr>amChannels := sort cs\<rparr>\<rparr>"
    obtain pl sg ex ow e2 w2 where g: "GetAnnounce w1 = Some ((pl, sg, ex, ow, e2), w2)"
      using assms(4) c e by (cases "GetAnnounce w1") (auto simp: loadOrGenerateAnnounce_def Let_def)
    have 2: "disk w2 = disk w" "good_world w2" "e2 = None \<Longrightarrow> pl = []"
      using contract_GetAnnounce [OF 1(2) g] same_disk(1) [of w2 w1] 1 assms(2)
      by (auto simp: world_announcement_def announcement_def)
    let ?a2 = "if length ow = 32 then ?a1\<lparr>anNext := (anNext ?a1)\<lparr>amOwner := ow\<rparr>\<rparr> else ?a1"
    have gen: "announce (disk w') = [] \<and> (ok \<longrightarrow> msg = \<lparr>Header = ViewHeader G (signed_packet G now' (anNodeKey b) (anNext b)),
          Payload = signed_payload G now' (anNext b)\<rparr>)"
      if "generateAnnounce G (sqliteStore G) now' (anNodeKey b) (anNext b) w2 = Returns ((msg, remain, ok), w')" for b
      using generate_no_row [OF that 2(2)] 2(1) assms(2) by simp
    show ?thesis
    proof (cases e2)
      case e2: None
      have "reuse_or_generate G (sqliteStore G) now now' ?a2 pl sg ex w2 = Returns ((msg, remain, ok), a', w')"
        using assms(4) c e g e2 by (simp add: loadOrGenerateAnnounce_def Let_def)
      moreover have "\<not> AddrMsgMinSize G \<le> length pl" using 2(3) e2 assms(3) by simp
      moreover have "anNodeKey ?a2 = anNodeKey a" by simp
      ultimately show ?thesis
        using gen [of ?a2] 2(1) assms(2)
        by (simp only: reuse_or_generate_def with_state_Returns split: if_splits) auto
    next
      case e2: (Some y)
      then have "with_state ?a1 (generateAnnounce G (sqliteStore G) now' (anNodeKey ?a1) (anNext ?a1) w2) =
          Returns ((msg, remain, ok), a', w')"
        using assms(4) c e g by (simp add: loadOrGenerateAnnounce_def Let_def)
      then show ?thesis using gen [of ?a1] by (auto simp: with_state_Returns)
    qed
  qed
qed

theorem first_announcement_never_stored_witness:
  "\<exists>msg a' w'. loadOrGenerateAnnounce sample_gossip (sqliteStore sample_gossip) 0 0 sample_announce sample_world =
     Returns ((msg, AnnounceLongevity, True), a', w') \<and> announce (disk w') = []"
proof -
  obtain msg w' where l: "loadOrGenerateAnnounce sample_gossip (sqliteStore sample_gossip) 0 0 sample_announce sample_world =
     Returns ((msg, AnnounceLongevity, True), sample_announce, w')"
    using sample_load by blast
  have "good_world sample_world" "announce (disk sample_world) = []" "0 < AddrMsgMinSize sample_gossip"
    by (simp_all add: good_world_def sample_gossip_def)
  from first_announcement_never_stored [OF this l] l show ?thesis by blast
qed

end
