(* ===== verification/MainCmd.thy ===== *)
theory MainCmd
  imports DogeNode
begin

text \<open>
  The command line (\<open>cmd/dogenet/main.go\<close>): the flags, the \<open>genkey\<close> command, the checks of
  the configuration and the private key, up to the call of \<open>DogeNet\<close>. The operating system
  is a record of the answers it gives; what the program does to it is a list of effects.
\<close>

section \<open>The operating system\<close>

datatype stat_answer = NotExist | StatError goerr | IsFile | IsDirectory

record os =
  osStat :: "string \<Rightarrow> stat_answer"
  osRemove :: "string \<Rightarrow> goerr option"
  osKEY :: string
  osGenerateKeyPair :: "goerr + keyPair"

datatype effect =
    Removed string
  | WroteFile string string
  | SetenvKEY string
  | Printed string

text \<open>How \<open>main\<close> goes on or ends: an exit code, a panic, or the call of \<open>DogeNet\<close>.\<close>

datatype outcome = ExitCode int | MainPanics | StartServices dogeNetConfig

text \<open>
  \<open>path.Dir\<close> of a path that begins with a slash: everything before the last slash, with
  empty, \<open>.\<close> and \<open>..\<close> elements resolved.
\<close>

fun split_path :: "string \<Rightarrow> string list" where
  "split_path [] = [[]]"
| "split_path (c # s) =
     (if c = CHR ''/'' then [] # split_path s
      else case split_path s of (a # r) \<Rightarrow> (c # a) # r | [] \<Rightarrow> [[c]])"

definition clean_step :: "string list \<Rightarrow> string \<Rightarrow> string list" where
  "clean_step done e = (if e = [] \<or> e = ''.'' then done else if e = ''..'' then butlast done else done @ [e])"

definition path_Dir :: "string \<Rightarrow> string" where
  "path_Dir p =
     (case foldl clean_step [] (butlast (split_path p)) of
        [] \<Rightarrow> ''/''
      | es \<Rightarrow> concat (map (\<lambda>e. CHR ''/'' # e) es))"

section \<open>Addresses on the command line\<close>

definition WebAPIDefaultPort :: "16 word" where "WebAPIDefaultPort = 8085"

definition HandlerDefaultBind :: bindTo where
  "HandlerDefaultBind = \<lparr>Network = ''unix'', BindAddress = ''/tmp/dogenet.sock''\<rparr>"

definition bad_flag :: goerr where
  "bad_flag = OpaqueError ''bad flag value''"

definition parseIPPort :: "gossip \<Rightarrow> string \<Rightarrow> 16 word \<Rightarrow> goerr + address" where
  "parseIPPort G arg defaultPort =
     (let colon = LastIndex (CHR '':'') arg; bracket = LastIndex (CHR '']'') arg in
      if colon = - 1 \<or> (hd arg = CHR ''['' \<and> bracket \<noteq> - 1 \<and> colon < bracket) then
        let ip = ParseIP arg in
        if ip = [] then Inl bad_flag else Inr \<lparr>Host = ip, Port = defaultPort\<rparr>
      else (case ParseAddress G arg of
              (res, Some err) \<Rightarrow> Inl bad_flag
            | (res, None) \<Rightarrow> Inr res))"

definition parseBindTo :: "gossip \<Rightarrow> os \<Rightarrow> string \<Rightarrow> (goerr + bindTo) \<times> effect list" where
  "parseBindTo G os arg =
     (if HasPrefix arg ''/'' then
        (case osStat os arg of
           NotExist \<Rightarrow>
             (case osStat os (path_Dir arg) of
                IsDirectory \<Rightarrow> (Inr \<lparr>Network = ''unix'', BindAddress = arg\<rparr>, [])
              | _ \<Rightarrow> (Inl bad_flag, []))
         | StatError err \<Rightarrow> (Inl bad_flag, [])
         | IsFile \<Rightarrow>
             (case osRemove os arg of
                Some err \<Rightarrow> (Inl bad_flag, [])
              | None \<Rightarrow> (Inr \<lparr>Network = ''unix'', BindAddress = arg\<rparr>, [Removed arg]))
         | IsDirectory \<Rightarrow> (Inl bad_flag, []))
      else
        (case parseIPPort G arg 0 of
           Inl err \<Rightarrow> (Inl bad_flag, [])
         | Inr addr \<Rightarrow>
             if Port addr = 0 then (Inl bad_flag, [])
             else (Inr \<lparr>Network = ''tcp'', BindAddress = AddressString G addr\<rparr>, [])))"

section \<open>Flags\<close>

text \<open>The variables of \<open>main\<close> that flags set.\<close>

record flags =
  fAllowLocal :: bool
  fBinds :: "address list"
  fBindWeb :: "address list"
  fHandlerBind :: bindTo
  fPublic :: address
  fUseReflector :: bool
  fPeers :: "nodeInfo list"
  fDbfile :: string
  fDir :: string

definition initial_flags :: flags where
  "initial_flags =
     \<lparr>fAllowLocal = False, fBinds = [], fBindWeb = [], fHandlerBind = HandlerDefaultBind,
      fPublic = zero_address, fUseReflector = False, fPeers = [],
      fDbfile = ''dogenet.db'', fDir = ''./storage''\<rparr>"

text \<open>\<open>strconv.ParseBool\<close>.\<close>

definition ParseBool :: "string \<Rightarrow> bool option" where
  "ParseBool s =
     (if s \<in> {''1'', ''t'', ''T'', ''TRUE'', ''true'', ''True''} then Some True
      else if s \<in> {''0'', ''f'', ''F'', ''FALSE'', ''false'', ''False''} then Some False
      else None)"

text \<open>The functions given to \<open>flag.Func\<close>, \<open>BoolVar\<close> and \<open>StringVar\<close>.\<close>

datatype flag_result = FlagOk flags "effect list" | FlagErr | FlagExit int

definition add_address :: "goerr + address \<Rightarrow> (address \<Rightarrow> flags) \<Rightarrow> flag_result" where
  "add_address r f = (case r of Inl e \<Rightarrow> FlagErr | Inr a \<Rightarrow> FlagOk (f a) [])"

definition peer_flag :: "gossip \<Rightarrow> string \<Rightarrow> flags \<Rightarrow> flag_result" where
  "peer_flag G arg fl =
     (case SplitN2 (CHR '':'') arg of
        [p0, p1] \<Rightarrow>
          (case DecodeString p0 of
             (pub, bad) \<Rightarrow>
               if bad \<or> length pub \<noteq> 32 then FlagErr
               else add_address (parseIPPort G arg (DogeNetDefaultPort G))
                      (\<lambda>a. fl\<lparr>fPeers := fPeers fl @ [\<lparr>niPubKey = pub, niAddr = a\<rparr>]\<rparr>))
      | _ \<Rightarrow> FlagErr)"

definition set_flag :: "gossip \<Rightarrow> os \<Rightarrow> string \<Rightarrow> string \<Rightarrow> flags \<Rightarrow> flag_result" where
  "set_flag G os name arg fl =
     (if name = ''dir'' then
        (if osStat os arg = IsDirectory then FlagOk (fl\<lparr>fDir := arg\<rparr>) [] else FlagExit 1)
      else if name = ''db'' then FlagOk (fl\<lparr>fDbfile := arg\<rparr>) []
      else if name = ''local'' then
        (case ParseBool arg of None \<Rightarrow> FlagErr | Some b \<Rightarrow> FlagOk (fl\<lparr>fAllowLocal := b\<rparr>) [])
      else if name = ''reflector'' then
        (case ParseBool arg of None \<Rightarrow> FlagErr | Some b \<Rightarrow> FlagOk (fl\<lparr>fUseReflector := b\<rparr>) [])
      else if name = ''bind'' then
        add_address (parseIPPort G arg (DogeNetDefaultPort G)) (\<lambda>a. fl\<lparr>fBinds := fBinds fl @ [a]\<rparr>)
      else if name = ''web'' then
        add_address (parseIPPort G arg WebAPIDefaultPort) (\<lambda>a. fl\<lparr>fBindWeb := fBindWeb fl @ [a]\<rparr>)
      else if name = ''handler'' then
        (case parseBindTo G os arg of
           (Inl e, fx) \<Rightarrow> FlagErr
         | (Inr bind, fx) \<Rightarrow> FlagOk (fl\<lparr>fHandlerBind := bind\<rparr>) fx)
      else if name = ''public'' then
        add_address (parseIPPort G arg (DogeNetDefaultPort G)) (\<lambda>a. fl\<lparr>fPublic := a\<rparr>)
      else peer_flag G arg fl)"

definition known_flags :: "string list" where
  "known_flags = [''dir'', ''db'', ''local'', ''reflector'', ''bind'', ''web'', ''handler'', ''public'', ''peer'']"

text \<open>
  \<open>flag.Parse\<close>: one argument (\<open>parseOne\<close>), then all. The remaining arguments are those from
  the first that is no flag. A failure exits with 2, a request for help with 0.
\<close>

datatype one_result = NoFlag "string list" | Parsed "string list" flags "effect list" | Exits int

fun cut_equals :: "string \<Rightarrow> string \<times> string option" where
  "cut_equals [] = ([], None)"
| "cut_equals (c # s) =
     (if c = CHR ''='' then ([], Some s) else case cut_equals s of (n, v) \<Rightarrow> (c # n, v))"

definition apply_flag :: "gossip \<Rightarrow> os \<Rightarrow> string \<Rightarrow> string \<Rightarrow> string list \<Rightarrow> flags \<Rightarrow> one_result" where
  "apply_flag G os name val rest fl =
     (case set_flag G os name val fl of
        FlagOk fl1 fx \<Rightarrow> Parsed rest fl1 fx
      | FlagErr \<Rightarrow> Exits 2
      | FlagExit code \<Rightarrow> Exits code)"

definition parseOne :: "gossip \<Rightarrow> os \<Rightarrow> string list \<Rightarrow> flags \<Rightarrow> one_result" where
  "parseOne G os args fl =
     (case args of
        [] \<Rightarrow> NoFlag []
      | s # rest \<Rightarrow>
          if length s < 2 \<or> hd s \<noteq> CHR ''-'' then NoFlag (s # rest)
          else if s = ''--'' then NoFlag rest
          else
            let name0 = (if hd (tl s) = CHR ''-'' then drop 2 s else drop 1 s) in
            if name0 = [] \<or> hd name0 = CHR ''-'' \<or> hd name0 = CHR ''='' then Exits 2
            else
              case cut_equals name0 of
                (name, given) \<Rightarrow>
                  if name \<notin> set known_flags then (if name = ''help'' \<or> name = ''h'' then Exits 0 else Exits 2)
                  else if name = ''local'' \<or> name = ''reflector''
                  then apply_flag G os name (case given of Some v \<Rightarrow> v | None \<Rightarrow> ''true'') rest fl
                  else (case given of
                          Some v \<Rightarrow> apply_flag G os name v rest fl
                        | None \<Rightarrow>
                            (case rest of
                               [] \<Rightarrow> Exits 2
                             | v # rest1 \<Rightarrow> apply_flag G os name v rest1 fl)))"

lemma parseOne_shorter: "parseOne G os args fl = Parsed args' fl' fx \<Longrightarrow> length args' < length args"
  by (auto simp: parseOne_def apply_flag_def Let_def
      split: list.splits if_splits prod.splits option.splits flag_result.splits)

function flag_Parse :: "gossip \<Rightarrow> os \<Rightarrow> string list \<Rightarrow> flags \<Rightarrow> effect list \<Rightarrow>
    (int + string list \<times> flags) \<times> effect list" where
  "flag_Parse G os args fl fx =
     (case parseOne G os args fl of
        NoFlag rest \<Rightarrow> (Inr (rest, fl), fx)
      | Parsed rest fl1 fx1 \<Rightarrow> flag_Parse G os rest fl1 (fx @ fx1)
      | Exits code \<Rightarrow> (Inl code, fx))"
  by pat_completeness auto
termination
  by (relation "measure (\<lambda>(G, os, args, fl, fx). length args)") (auto dest: parseOne_shorter)

declare flag_Parse.simps [simp del]

section \<open>main\<close>

text \<open>The \<open>genkey\<close> command; a failed write is not noticed.\<close>

definition genkey :: "os \<Rightarrow> string list \<Rightarrow> outcome \<times> effect list" where
  "genkey os args =
     (case osGenerateKeyPair os of
        Inl err \<Rightarrow> (MainPanics, [])
      | Inr kp \<Rightarrow>
          let priv = EncodeToString (Priv kp); pub = EncodeToString (Pub kp) in
          (ExitCode 0,
           case args of
             [] \<Rightarrow> [Printed (''priv: '' @ priv), Printed (''pub: '' @ pub)]
           | [to_priv] \<Rightarrow> [WroteFile to_priv priv]
           | to_priv # to_pub # others \<Rightarrow> [WroteFile to_priv priv, WroteFile to_pub pub]))"

definition keysFromEnv :: "gossip \<Rightarrow> os \<Rightarrow> (int + keyPair) \<times> effect list" where
  "keysFromEnv G os =
     (let nodeHex = osKEY os in
      (if nodeHex = [] then Inl 3
       else case DecodeString nodeHex of
         (priv, bad) \<Rightarrow>
           if bad then Inl 3
           else if length priv \<noteq> 32 then Inl 3
           else Inr (KeyPairFromPrivKey G priv),
       [SetenvKEY []]))"

text \<open>The part of \<open>main\<close> after the flags and the commands.\<close>

definition any_host :: "16 word \<Rightarrow> address" where
  "any_host port = \<lparr>Host = [0, 0, 0, 0], Port = port\<rparr>"

definition main_config :: "gossip \<Rightarrow> os \<Rightarrow> flags \<Rightarrow> effect list \<Rightarrow> outcome \<times> effect list" where
  "main_config G os fl fx =
     (let binds = (if length (fBinds fl) < 1 then [any_host (DogeNetDefaultPort G)] else fBinds fl);
          bindweb = (if length (fBindWeb fl) < 1 then [any_host WebAPIDefaultPort] else fBindWeb fl);
          public = fPublic fl
      in
      if AddressIsValid G public \<and> \<not> fAllowLocal fl \<and> (\<not> IsGlobalUnicast (Host public) \<or> IsPrivate (Host public))
      then (ExitCode 1, fx)
      else if \<not> AddressIsValid G public \<and> \<not> fUseReflector fl then (ExitCode 1, fx)
      else
        let useReflector = (if AddressIsValid G public then False else fUseReflector fl) in
        (case keysFromEnv G os of
           (Inl code, fx1) \<Rightarrow> (ExitCode code, fx @ fx1)
         | (Inr kp, fx1) \<Rightarrow>
             (StartServices
                \<lparr>cfgDir = fDir fl, cfgDBFile = fDbfile fl, cfgBinds = binds, cfgBindWeb = bindweb,
                 cfgHandlerBind = fHandlerBind fl, cfgNodeKey = kp, cfgAllowLocal = fAllowLocal fl,
                 cfgPublic = public, cfgUseReflector = useReflector\<rparr>,
              fx @ fx1)))"

definition main_go :: "gossip \<Rightarrow> os \<Rightarrow> string list \<Rightarrow> outcome \<times> effect list" where
  "main_go G os args =
     (case flag_Parse G os args initial_flags [] of
        (Inl code, fx) \<Rightarrow> (ExitCode code, fx)
      | (Inr (rest, fl), fx) \<Rightarrow>
          (case rest of
             [] \<Rightarrow> main_config G os fl fx
           | cmd # cmdArgs \<Rightarrow>
               if cmd = ''genkey'' then (case genkey os cmdArgs of (r, fx1) \<Rightarrow> (r, fx @ fx1))
               else (ExitCode 1, fx)))"

section \<open>Addresses\<close>

lemma ParseIP_bracket: "ParseIP (CHR ''['' # s) = []"
proof -
  have d: "digit_value (CHR ''['') = None" "fromHexChar (CHR ''['') = None" by code_simp+
  then have "parseIPv4 (CHR ''['' # s) = None" by (simp add: parseIPv4_def)
  moreover have "parseIPv6 (CHR ''['' # s) = None"
    using d by (simp add: parseIPv6_def parseIPv6_loop.simps [of "CHR ''['' # s"])
  ultimately show ?thesis by (simp add: ParseIP_def)
qed

lemma IPv4_String_no_colon: "CHR '':'' \<notin> set (IPv4_String a b c d)"
proof -
  have dig: "n < 10 \<Longrightarrow> char_of (48 + n) \<noteq> CHR '':''" for n :: nat
  proof -
    have "\<forall>n\<in>set [0..<10::nat]. char_of (48 + n) \<noteq> CHR '':''" by code_simp
    then show "n < 10 \<Longrightarrow> char_of (48 + n) \<noteq> CHR '':''" by simp
  qed
  have "CHR '':'' \<notin> set (nat_digits n)" for n
  proof (induction n rule: less_induct)
    case (less n)
    have "char_of (48 + n mod 10) \<noteq> CHR '':''" by (rule dig) simp
    then show ?case
      using less [of "n div 10"] dig [of n] by (cases "n < 10") (auto simp: nat_digits_small nat_digits_step)
  qed
  then show ?thesis by (simp add: IPv4_String_def)
qed

text \<open>
  Addresses on the command line. A dotted IPv4 address without a port is accepted with
  the default port and its 16-byte form, for each of the 2 to the 32 addresses. An address
  that begins with a bracket and has no port after it is always refused, although the
  messages of the program ask for that form: an IPv6 address can only be given with a port.
  Whatever else contains a colon is left to the library.
\<close>

theorem parseIPPort_forms:
  "parseIPPort G (IPv4_String a b c d) port = Inr \<lparr>Host = IPv4 a b c d, Port = port\<rparr> \<and>
   (LastIndex (CHR '':'') (CHR ''['' # s) < LastIndex (CHR '']'') (CHR ''['' # s) \<longrightarrow>
      parseIPPort G (CHR ''['' # s) port = Inl bad_flag) \<and>
   (CHR '':'' \<in> set t \<and> hd t \<noteq> CHR ''['' \<longrightarrow>
      parseIPPort G t port = (case ParseAddress G t of (r, Some e) \<Rightarrow> Inl bad_flag | (r, None) \<Rightarrow> Inr r))"
proof (intro conjI impI)
  show "parseIPPort G (IPv4_String a b c d) port = Inr \<lparr>Host = IPv4 a b c d, Port = port\<rparr>"
    using LastIndex_absent [of "CHR '':''" "IPv4_String a b c d"]
    by (simp add: parseIPPort_def IPv4_String_no_colon ParseIP_IPv4_String Let_def IPv4_def v4InV6Prefix_def)
next
  have ge: "- 1 \<le> LastIndex x u" for x u by (induction u) (auto simp: Let_def)
  assume "LastIndex (CHR '':'') (CHR ''['' # s) < LastIndex (CHR '']'') (CHR ''['' # s)"
  with ge [of "CHR '':''" "CHR ''['' # s"] show "parseIPPort G (CHR ''['' # s) port = Inl bad_flag"
    unfolding parseIPPort_def Let_def ParseIP_bracket by (simp del: LastIndex.simps)
next
  assume "CHR '':'' \<in> set t \<and> hd t \<noteq> CHR ''[''"
  then show "parseIPPort G t port = (case ParseAddress G t of (r, Some e) \<Rightarrow> Inl bad_flag | (r, None) \<Rightarrow> Inr r)"
    using LastIndex_absent [of "CHR '':''" t] by (simp add: parseIPPort_def Let_def)
qed

theorem parseIPPort_forms_witness:
  "parseIPPort sample_gossip ''127.0.0.1'' 8085 = Inr \<lparr>Host = IPv4 127 0 0 1, Port = 8085\<rparr> \<and>
   parseIPPort sample_gossip ''[::1]'' 8085 = Inl bad_flag"
proof -
  have s: "IPv4_String 127 0 0 1 = ''127.0.0.1''" by code_simp
  have l: "LastIndex (CHR '':'') ''[::1]'' < LastIndex (CHR '']'') ''[::1]''" by code_simp
  show ?thesis
    using parseIPPort_forms [of sample_gossip 127 0 0 1 8085 "''::1]''" "[]"] l unfolding s by simp
qed

section \<open>Flags\<close>

lemma DecodeString_chars: "DecodeString s = (b, False) \<Longrightarrow> c \<in> set s \<Longrightarrow> fromHexChar c \<noteq> None"
  by (induction s arbitrary: b rule: DecodeString.induct) (auto split: option.splits prod.splits)

lemma hex_not_bracket: "DecodeString p = (b, False) \<Longrightarrow> p \<noteq> [] \<Longrightarrow> hd p \<noteq> CHR ''[''"
proof
  assume "DecodeString p = (b, False)" "p \<noteq> []" "hd p = CHR ''[''"
  then have "fromHexChar (CHR ''['') \<noteq> None" using DecodeString_chars [of p b "CHR ''[''"] by (cases p) auto
  moreover have "fromHexChar (CHR ''['') = None" by code_simp
  ultimately show False by simp
qed

lemma hex_no_colon: "DecodeString p = (b, False) \<Longrightarrow> CHR '':'' \<notin> set p"
proof
  assume "DecodeString p = (b, False)" "CHR '':'' \<in> set p"
  then have "fromHexChar (CHR '':'') \<noteq> None" using DecodeString_chars by blast
  moreover have "fromHexChar (CHR '':'') = None" by code_simp
  ultimately show False by simp
qed

text \<open>The documented behaviour of \<open>net.SplitHostPort\<close>: one colon, unless the host is in brackets.\<close>

definition splits_host_port :: "gossip \<Rightarrow> bool" where
  "splits_host_port G \<longleftrightarrow>
     (\<forall>s. hd s \<noteq> CHR ''['' \<and> 2 \<le> count_list s (CHR '':'') \<longrightarrow> snd (ParseAddress G s) \<noteq> None)"

text \<open>
  C37: the flag \<open>--peer\<close> can not add a peer. Its argument \<open><pubkey>:<ip>:<port>\<close> is parsed
  as a whole where only the part after the key is meant, so the parser of addresses, which
  refuses a host with a colon in it, refuses every such argument and the program exits. And
  the list of peers that the flag would collect is never used: the configuration and the
  effects of \<open>main\<close> are the same for every list.
\<close>

theorem peer_flag_useless:
  assumes "splits_host_port G" "length pub = 32" "CHR '':'' \<in> set ipPort"
  shows "set_flag G os ''peer'' (EncodeToString pub @ CHR '':'' # ipPort) fl = FlagErr \<and>
    fst (main_go G os (''--peer'' # (EncodeToString pub @ CHR '':'' # ipPort) # after)) = ExitCode 2 \<and>
    main_config G os (fl\<lparr>fPeers := ps\<rparr>) fx = main_config G os fl fx"
proof (intro conjI)
  let ?arg = "EncodeToString pub @ CHR '':'' # ipPort"
  have nc: "CHR '':'' \<notin> set (EncodeToString pub)" by (rule hex_no_colon [OF DecodeString_EncodeToString])
  have ne: "EncodeToString pub \<noteq> []" using assms(2) by (metis length_EncodeToString list.size(3) mult_eq_0_iff zero_neq_numeral)
  have h: "hd ?arg \<noteq> CHR ''[''" using hex_not_bracket [OF DecodeString_EncodeToString ne] ne by simp
  have "count_list ipPort (CHR '':'') \<noteq> 0" using assms(3) by (simp add: count_list_0_iff)
  then have "2 \<le> count_list ?arg (CHR '':'')" by simp
  then obtain r e where "ParseAddress G ?arg = (r, Some e)"
    using assms(1) h unfolding splits_host_port_def by (metis not_None_eq prod.collapse)
  moreover have "LastIndex (CHR '':'') ?arg \<noteq> - 1" by (simp add: LastIndex_absent)
  ultimately have "parseIPPort G ?arg p = Inl bad_flag" for p
    using h by (simp add: parseIPPort_def Let_def)
  moreover have "SplitN2 (CHR '':'') ?arg = [EncodeToString pub, ipPort]" using nc by (simp add: SplitN2_two)
  ultimately have pf: "peer_flag G ?arg fl = FlagErr" for fl
    using assms(2) by (simp add: peer_flag_def add_address_def)
  then show "set_flag G os ''peer'' ?arg fl = FlagErr" by (simp add: set_flag_def)
  have "cut_equals ''peer'' = (''peer'', None)" by code_simp
  then have "parseOne G os (''--peer'' # ?arg # after) initial_flags = Exits 2"
    using pf by (simp add: parseOne_def known_flags_def apply_flag_def set_flag_def)
  then show "fst (main_go G os (''--peer'' # ?arg # after)) = ExitCode 2"
    by (simp add: main_go_def flag_Parse.simps)
  show "main_config G os (fl\<lparr>fPeers := ps\<rparr>) fx = main_config G os fl fx"
    by (cases fl) (simp only: main_config_def flags.simps)
qed

definition sample_os :: os where
  "sample_os = \<lparr>osStat = (\<lambda>p. if p = ''/tmp'' then IsDirectory else if p = ''/tmp/old.sock'' then IsFile else NotExist),
     osRemove = (\<lambda>p. None), osKEY = EncodeToString (replicate 32 2),
     osGenerateKeyPair = Inr \<lparr>Priv = replicate 32 2, Pub = replicate 32 3\<rparr>\<rparr>"

lemma sample_splits: "splits_host_port sample_gossip"
  unfolding splits_host_port_def
proof (intro allI impI)
  fix s :: string assume "hd s \<noteq> CHR ''['' \<and> 2 \<le> count_list s (CHR '':'')"
  then have "CHR '':'' \<in> set s" using count_list_0_iff [of s "CHR '':''"] by auto
  then have "snd (DecodeString s)" using hex_no_colon [of s "fst (DecodeString s)"] by (metis prod.collapse)
  then show "snd (ParseAddress sample_gossip s) \<noteq> None"
    by (cases "DecodeString s") (simp add: sample_gossip_def)
qed

theorem peer_flag_useless_witness:
  "fst (main_go sample_gossip sample_os [''--peer'', EncodeToString (replicate 32 7) @ '':8.8.8.8:22556'', ''genkey'']) = ExitCode 2"
  using peer_flag_useless [OF sample_splits, of "replicate 32 7" "''8.8.8.8:22556''" sample_os initial_flags "[''genkey'']"]
  by simp

section \<open>Starting the services\<close>

text \<open>What flags may do to the file system.\<close>

definition only_sockets :: "os \<Rightarrow> effect list \<Rightarrow> bool" where
  "only_sockets os fx \<longleftrightarrow>
     (\<forall>e\<in>set fx. \<exists>p. e = Removed p \<and> HasPrefix p ''/'' \<and> osStat os p = IsFile \<and> osRemove os p = None)"

lemma parseBindTo_effects: "parseBindTo G os arg = (r, fx) \<Longrightarrow> only_sockets os fx"
  by (auto simp: parseBindTo_def only_sockets_def split: if_splits stat_answer.splits option.splits sum.splits)

lemma parseOne_effects: "parseOne G os args fl = Parsed rest fl1 fx \<Longrightarrow> only_sockets os fx"
proof -
  have "set_flag G os name val fl = FlagOk fl1 fx \<Longrightarrow> only_sockets os fx" for name val fl1 fx
    using parseBindTo_effects [of G os val]
    by (auto simp: set_flag_def add_address_def peer_flag_def only_sockets_def
        split: if_splits option.splits sum.splits prod.splits list.splits)
  then show "parseOne G os args fl = Parsed rest fl1 fx \<Longrightarrow> only_sockets os fx"
    by (auto simp: parseOne_def apply_flag_def Let_def split: list.splits if_splits prod.splits option.splits flag_result.splits)
qed

lemma flag_Parse_effects:
  "flag_Parse G os args fl fx = (r, fx') \<Longrightarrow> only_sockets os fx \<Longrightarrow> only_sockets os fx'"
proof (induction G os args fl fx rule: flag_Parse.induct)
  case (1 G os args fl fx)
  show ?case
  proof (cases "parseOne G os args fl")
    case (Parsed rest fl1 fx1)
    then have "only_sockets os (fx @ fx1)"
      using parseOne_effects [OF Parsed] 1(3) by (auto simp: only_sockets_def)
    then show ?thesis using 1(1) [OF Parsed] 1(2) Parsed by (simp add: flag_Parse.simps [of G os args])
  qed (use 1(2,3) in \<open>auto simp: flag_Parse.simps [of G os args]\<close>)
qed

lemma sample_main:
  "\<exists>cfg. main_go sample_gossip sample_os [''--handler=/tmp/old.sock'', ''--public'', ''8.8.8.8''] =
      (StartServices cfg, [Removed ''/tmp/old.sock'', SetenvKEY []]) \<and>
     cfgNodeKey cfg = \<lparr>Priv = replicate 32 2, Pub = replicate 32 2\<rparr>"
proof -
  have pub: "parseIPPort sample_gossip ''8.8.8.8'' p = Inr \<lparr>Host = IPv4 8 8 8 8, Port = p\<rparr>" for p
  proof -
    have "IPv4_String 8 8 8 8 = ''8.8.8.8''" by code_simp
    then show ?thesis
      using LastIndex_absent [of "CHR '':''" "IPv4_String 8 8 8 8"] ParseIP_IPv4_String [of 8 8 8 8]
      by (simp add: parseIPPort_def Let_def IPv4_def v4InV6Prefix_def)
  qed
  have cuts: "cut_equals ''handler=/tmp/old.sock'' = (''handler'', Some ''/tmp/old.sock'')"
    "cut_equals ''public'' = (''public'', None)" by code_simp+
  let ?fl = "initial_flags\<lparr>fHandlerBind := \<lparr>Network = ''unix'', BindAddress = ''/tmp/old.sock''\<rparr>\<rparr>"
  have 1: "parseOne sample_gossip sample_os [''--handler=/tmp/old.sock'', ''--public'', ''8.8.8.8''] initial_flags =
     Parsed [''--public'', ''8.8.8.8''] ?fl [Removed ''/tmp/old.sock'']"
    by (simp add: parseOne_def cuts known_flags_def apply_flag_def set_flag_def parseBindTo_def sample_os_def)
  have 2: "parseOne sample_gossip sample_os [''--public'', ''8.8.8.8''] ?fl =
     Parsed [] (?fl\<lparr>fPublic := \<lparr>Host = IPv4 8 8 8 8, Port = DogeNetDefaultPort sample_gossip\<rparr>\<rparr>) []"
    by (simp add: parseOne_def cuts known_flags_def apply_flag_def set_flag_def add_address_def pub)
  have ip: "IsGlobalUnicast (IPv4 8 8 8 8)" "\<not> IsPrivate (IPv4 8 8 8 8)" by code_simp+
  have valid: "AddressIsValid sample_gossip \<lparr>Host = IPv4 8 8 8 8, Port = p\<rparr>" for p
    by (simp add: sample_gossip_def IPv4_def)
  have key: "keysFromEnv sample_gossip sample_os = (Inr \<lparr>Priv = replicate 32 2, Pub = replicate 32 2\<rparr>, [SetenvKEY []])"
  proof -
    have "EncodeToString (replicate 32 2) \<noteq> []" by code_simp
    then show ?thesis by (simp add: keysFromEnv_def sample_os_def sample_gossip_def)
  qed
  show ?thesis
    by (simp add: main_go_def flag_Parse.simps 1 2 parseOne_def [of _ _ "[]"] main_config_def Let_def ip valid key)
qed

lemma main_starts_key:
  assumes "main_go G os args = (StartServices cfg, fx)"
  shows "\<exists>priv. length priv = 32 \<and> cfgNodeKey cfg = KeyPairFromPrivKey G priv"
  using assms
  by (auto simp: main_go_def main_config_def keysFromEnv_def genkey_def Let_def
      split: prod.splits sum.splits list.splits if_splits)



text \<open>
  C38: a generated key can be used. With a key pair of 32 bytes \<open>genkey\<close> writes the private
  key to its first argument (or prints it), exits with 0 and starts nothing; and when a later
  start finds what was written in the variable \<open>KEY\<close>, the node gets exactly the keys that the
  library makes from the generated private key.
\<close>

theorem genkey_roundtrip:
  assumes "osGenerateKeyPair os = Inr kp" "length (Priv kp) = 32"
  shows "main_go G os [''genkey'', file] = (ExitCode 0, [WroteFile file (EncodeToString (Priv kp))]) \<and>
    main_go G os [''genkey''] = (ExitCode 0, [Printed (''priv: '' @ EncodeToString (Priv kp)),
       Printed (''pub: '' @ EncodeToString (Pub kp))]) \<and>
    (osKEY os' = EncodeToString (Priv kp) \<longrightarrow>
       keysFromEnv G os' = (Inr (KeyPairFromPrivKey G (Priv kp)), [SetenvKEY []]))"
proof -
  have "EncodeToString (Priv kp) \<noteq> []" using assms(2) by (metis length_EncodeToString list.size(3) mult_eq_0_iff zero_neq_numeral)
  moreover have "parseOne G os (''genkey'' # rest) fl = NoFlag (''genkey'' # rest)" for rest fl
    by (simp add: parseOne_def)
  ultimately show ?thesis
    using assms by (simp add: main_go_def flag_Parse.simps genkey_def keysFromEnv_def)
qed

theorem genkey_roundtrip_witness:
  "keysFromEnv sample_gossip sample_os = (Inr (KeyPairFromPrivKey sample_gossip (replicate 32 2)), [SetenvKEY []])"
  using genkey_roundtrip [of sample_os "\<lparr>Priv = replicate 32 2, Pub = replicate 32 3\<rparr>" sample_gossip "[]" sample_os]
  by (simp add: sample_os_def)

end
