(* ===== verification/NetWire.thy ===== *)
theory NetWire
  imports NetGossip
begin

text \<open>
  What is written on a connection. Its two goroutines share it without a lock, and a message
  is two writes: this theory shows that messages are nevertheless written whole and one
  after the other, on the connections of peers and of handlers.
\<close>

section \<open>Whole messages\<close>

definition frames :: "rawMessage list \<Rightarrow> bytes list" where
  "frames ms = concat (map (\<lambda>m. [Header m, Payload m]) ms)"

lemma frames_snoc [simp]: "frames [] = []" "frames (ms @ [m]) = frames ms @ [Header m, Payload m]"
  by (simp_all add: frames_def)

text \<open>
  What a sender at its program point has written: whole messages, and one header more
  between its two writes; after a failed write or a shutdown the last payload may be missing.
\<close>

definition sender_framed :: "send_pc \<Rightarrow> bytes list \<Rightarrow> bool" where
  "sender_framed pc w \<longleftrightarrow>
     (\<exists>ms. case pc of
        SPay m \<Rightarrow> w = frames ms @ [Header m]
      | SClosing \<Rightarrow> w = frames ms \<or> (\<exists>m :: rawMessage. w = frames ms @ [Header m])
      | SDone \<Rightarrow> w = frames ms \<or> (\<exists>m :: rawMessage. w = frames ms @ [Header m])
      | _ \<Rightarrow> w = frames ms)"

text \<open>Before its sender starts, the receiver of a peer connection writes the announcement.\<close>

definition peer_framed :: "peerConn \<Rightarrow> bytes list \<Rightarrow> bool" where
  "peer_framed x w \<longleftrightarrow>
     sender_framed
       (if pSender x \<noteq> SNone then pSender x
        else case pRecv x of
          RWritePay m \<Rightarrow> SPay m | RClosing \<Rightarrow> SClosing | RDone \<Rightarrow> SDone | _ \<Rightarrow> SNone) w"

text \<open>On a handler's connection the reply to its bind message comes first.\<close>

definition bind_reply_bytes :: "gossip \<Rightarrow> keyPair \<Rightarrow> tag4cc \<Rightarrow> bytes" where
  "bind_reply_bytes G key ch = EncodeBindMessage G \<lparr>bmVersion = 1, bmChan = ch, bmPubKey = Pub key\<rparr>"

definition hand_framed :: "gossip \<Rightarrow> keyPair \<Rightarrow> handlerConn \<Rightarrow> bytes list \<Rightarrow> bool" where
  "hand_framed G key x w \<longleftrightarrow>
     (if hSender x = SNone then w = []
      else \<exists>fs. w = bind_reply_bytes G key (hChannel x) # fs \<and> sender_framed (hSender x) fs) \<and>
     (case hRecv x of
        HBind \<Rightarrow> hSender x = SNone
      | HAddChannel b \<Rightarrow> hSender x = SNone \<and> hChannel x = bmChan b
      | HOwner b \<Rightarrow> hSender x = SNone \<and> hChannel x = bmChan b
      | HChannel b \<Rightarrow> hSender x = SNone \<and> hChannel x = bmChan b
      | HReply b \<Rightarrow> hSender x = SNone \<and> hChannel x = bmChan b
      | _ \<Rightarrow> True)"

definition wire_ok :: "gossip \<Rightarrow> 's net \<Rightarrow> bool" where
  "wire_ok G n \<longleftrightarrow>
     (\<forall>p x. peers n p = Some x \<longrightarrow> peer_framed x (wire n p)) \<and>
     (\<forall>h x. hands n h = Some x \<longrightarrow> hand_framed G (nodeKey n) x (wire n h))"

lemma sender_framed_simps [simp]:
  "sender_framed SNone w = (\<exists>ms. w = frames ms)" "sender_framed STop w = (\<exists>ms. w = frames ms)"
  "sender_framed SSelect w = (\<exists>ms. w = frames ms)" "sender_framed (SHdr m) w = (\<exists>ms. w = frames ms)"
  "sender_framed (SPay m) w = (\<exists>ms. w = frames ms @ [Header m])"
  by (simp_all add: sender_framed_def)

lemma sender_framed_header: "sender_framed SNone w \<Longrightarrow> sender_framed (SPay m) (w @ [Header m])"
  by auto

lemma sender_framed_payload:
  assumes "sender_framed (SPay m) w"
  shows "sender_framed STop (w @ [Payload m])"
proof -
  obtain ms where "w = frames ms @ [Header m]" using assms by auto
  then have "w @ [Payload m] = frames (ms @ [m])" by simp
  then show ?thesis unfolding sender_framed_simps by blast
qed

lemma sender_framed_end:
  "sender_framed pc w \<Longrightarrow> sender_framed SClosing w" "sender_framed pc w \<Longrightarrow> sender_framed SDone w"
  by (cases pc; auto simp: sender_framed_def)+

lemma sender_framed_whole [simp]: "sender_framed SClosing (frames ms)" "sender_framed SDone (frames ms)"
  by (auto simp: sender_framed_def)

section \<open>One structure changes at a time\<close>

lemma wire_ok_peer: "wire_ok G n \<Longrightarrow> peers n p = Some x \<Longrightarrow> peer_framed x (wire n p)"
  by (simp add: wire_ok_def)

lemma wire_ok_hand: "wire_ok G n \<Longrightarrow> hands n h = Some x \<Longrightarrow> hand_framed G (nodeKey n) x (wire n h)"
  by (simp add: wire_ok_def)

lemma wire_frame [simp]:
  "wire_ok G (n\<lparr>connectedPeers := a\<rparr>) = wire_ok G n" "wire_ok G (n\<lparr>connections := b\<rparr>) = wire_ok G n"
  "wire_ok G (n\<lparr>closed := c\<rparr>) = wire_ok G n" "wire_ok G (n\<lparr>stState := s\<rparr>) = wire_ok G n"
  "wire_ok G (n\<lparr>handlers := hs\<rparr>) = wire_ok G n" "wire_ok G (n\<lparr>lockedPeers := l\<rparr>) = wire_ok G n"
  "wire_ok G (n\<lparr>newPeers := np\<rparr>) = wire_ok G n" "wire_ok G (n\<lparr>announceChanges := q\<rparr>) = wire_ok G n"
  "wire_ok G (n\<lparr>encAnnounce := e\<rparr>) = wire_ok G n" "wire_ok G (n\<lparr>clock := t\<rparr>) = wire_ok G n"
  "wire_ok G (n\<lparr>stopping := st\<rparr>) = wire_ok G n" "wire_ok G (n\<lparr>stopped := sp\<rparr>) = wire_ok G n"
  "wire_ok G (n\<lparr>crashed := cr\<rparr>) = wire_ok G n" "wire_ok G (n\<lparr>accepting := ac\<rparr>) = wire_ok G n"
  "wire_ok G (n\<lparr>listeners := li\<rparr>) = wire_ok G n" "wire_ok G (n\<lparr>socket := so\<rparr>) = wire_ok G n"
  "wire_ok G (n\<lparr>findPc := fp\<rparr>) = wire_ok G n" "wire_ok G (n\<lparr>gossipPc := gp\<rparr>) = wire_ok G n"
  "wire_ok G (n\<lparr>seedPc := sd\<rparr>) = wire_ok G n" "wire_ok G (n\<lparr>acceptPc := apc\<rparr>) = wire_ok G n"
  "wire_ok G (n\<lparr>nextId := i\<rparr>) = wire_ok G n" "wire_ok G (close_conn cc n) = wire_ok G n"
  by (simp_all add: wire_ok_def close_conn_def)

lemma try_send_framed [simp]: "peer_framed ((try_send_peer msg ^^ k) x) w = peer_framed x w"
  by (simp add: peer_framed_def)

lemma wire_forward [simp]: "wire_ok G n \<Longrightarrow> wire_ok G (forwardToPeers msg n)"
  by (auto simp: wire_ok_def forwardToPeers_eq)

lemma wire_closes [simp]: "wire_ok G (closePeer p n) = wire_ok G n" "wire_ok G (closeHandler h n) = wire_ok G n"
  by (auto simp: closePeer_def closeHandler_def Let_def split: option.splits)

lemma wire_set_peer:
  "wire_ok G n \<Longrightarrow> (\<And>x. peers n p = Some x \<Longrightarrow> peer_framed (f x) (wire n p)) \<Longrightarrow> wire_ok G (set_peer p f n)"
  by (auto simp: wire_ok_def)

lemma wire_set_hand:
  "wire_ok G n \<Longrightarrow> (\<And>x. hands n h = Some x \<Longrightarrow> hand_framed G (nodeKey n) (f x) (wire n h)) \<Longrightarrow>
   wire_ok G (set_hand h f n)"
  by (auto simp: wire_ok_def)

lemma wire_write_peer:
  assumes "on_write ev p b n (set_peer p f) (set_peer p g) = Some n'" "wire_ok G n"
    and "peers n p = Some x" "hands n p = None"
    and "peer_framed (f x) (wire n p @ [b])" "peer_framed (g x) (wire n p)"
  shows "wire_ok G n'"
  using assms by (auto simp: wire_ok_def on_write_def conn_write_def split: event.splits if_splits)

lemma wire_write_hand:
  assumes "on_write ev h b n (set_hand h f) (set_hand h g) = Some n'" "wire_ok G n"
    and "hands n h = Some x" "peers n h = None"
    and "hand_framed G (nodeKey n) (f x) (wire n h @ [b])" "hand_framed G (nodeKey n) (g x) (wire n h)"
  shows "wire_ok G n'"
  using assms by (auto simp: wire_ok_def on_write_def conn_write_def split: event.splits if_splits)

lemma accepted_framed:
  "hand_framed G key x w \<Longrightarrow> hSender x = SSelect \<Longrightarrow> hand_framed G key (x\<lparr>hSender := SHdr m\<rparr>) w"
  by (auto simp: hand_framed_def split: hand_pc.splits)

lemma wire_forwardToHandlers: "wire_ok G n \<Longrightarrow> wire_ok G (snd (forwardToHandlers ch hdr pl n))"
  by (auto simp: forwardToHandlers_def forward_handlers_eq wire_ok_def accepts_def accepted_framed
      split: option.splits)

section \<open>Steps of the connections\<close>

lemma peer_framed_moves:
  assumes "peer_framed x w" "pSender x = SNone \<longrightarrow> (\<forall>m. pRecv x \<noteq> RWritePay m) \<and> pRecv x \<noteq> RClosing \<and> pRecv x \<noteq> RDone"
  shows "(\<And>m. pc \<noteq> RWritePay m) \<Longrightarrow> peer_framed (x\<lparr>pRecv := pc\<rparr>) w"
    and "pSender x = SNone \<Longrightarrow> peer_framed (x\<lparr>pSender := STop, pRecv := pc\<rparr>) w"
proof -
  have "sender_framed SNone w" if "pSender x = SNone"
    using assms that by (auto simp: peer_framed_def split: recv_pc.splits)
  then show "(\<And>m. pc \<noteq> RWritePay m) \<Longrightarrow> peer_framed (x\<lparr>pRecv := pc\<rparr>) w"
    "pSender x = SNone \<Longrightarrow> peer_framed (x\<lparr>pSender := STop, pRecv := pc\<rparr>) w"
    using assms(1) by (auto simp: peer_framed_def sender_framed_end split: recv_pc.splits)
qed

lemma wire_ingest_return:
  assumes "wire_ok G n" "peers n p = Some x" "pRecv x = RForward who m err' \<or> pRecv x = RIngest who m"
    and "who \<noteq> Relay \<longrightarrow> pSender x = SNone"
  shows "wire_ok G (ingest_return p who err n)"
  using assms(1-4) peer_framed_moves [OF wire_ok_peer [OF assms(1,2)]]
  unfolding ingest_return_def gotos
  by (auto split: option.splits caller.splits intro!: wire_set_peer)

lemma framed_fields [simp]:
  "peer_framed (x\<lparr>pAddr := a\<rparr>) w = peer_framed x w" "peer_framed (x\<lparr>pPub := k\<rparr>) w = peer_framed x w"
  "peer_framed (x\<lparr>pSend := q\<rparr>) w = peer_framed x w"
  "peer_framed (x\<lparr>pPub := k, pRecv := pc\<rparr>) w = peer_framed (x\<lparr>pRecv := pc\<rparr>) w"
  by (simp_all add: peer_framed_def)

lemma wire_adopt:
  "adoptPeer p k n = (b, n1) \<Longrightarrow> wire_ok G n \<Longrightarrow> wire_ok G n1 \<and> peers n1 = peers n \<and> wire n1 = wire n"
  by (auto simp: adoptPeer_def split: if_splits)

lemma wire_ingest:
  assumes "ingest_store G S p who m x n = Some n'" "wire_ok G n" "peers n p = Some x" "pRecv x = RIngest who m"
    and s: "who \<noteq> Relay \<longrightarrow> pSender x = SNone"
  shows "wire_ok G n'"
proof -
  note fr = wire_ok_peer [OF assms(2,3)]
  have r: "wire_ok G (ingest_return p who e n1)" if "wire_ok G n1" "peers n1 p = Some y" "pRecv y = pRecv x" "pSender y = pSender x" for n1 :: "'a net" and e y
    using that assms(4) s by (intro wire_ingest_return [where x = y and m = m and err' = e]) auto
  have a: "wire_ok G (set_peer p (\<lambda>x. x\<lparr>pAddr := ad\<rparr>) n)" for ad
    using wire_set_peer [OF assms(2), of p "pAddr_update (\<lambda>_. ad)"] assms(3) fr by simp
  have f: "wire_ok G (goto p (RForward who m e) ((set_peer p (\<lambda>x. x\<lparr>pAddr := ad\<rparr>) n)\<lparr>stState := s\<rparr>))" for ad e s
    unfolding goto_def using a assms(3,4) fr by (intro wire_set_peer) (auto simp: peer_framed_def)
  show ?thesis using assms(1-4)
    by (auto simp: ingest_store_def Let_def split: if_splits sum.splits option.splits prod.splits intro!: r f a)
qed

lemma wire_receive:
  assumes "receiveFromPeer G S ev p n = Some n'" "net_ok n" "wire_ok G n"
  shows "wire_ok G n'"
proof -
  obtain x where x: "peers n p = Some x" using assms(1) by (auto simp: receiveFromPeer_def split: option.splits)
  note ok = net_ok_peer [OF assms(2) x] and fr = wire_ok_peer [OF assms(3) x]
  then have c: "pConn x = p" by (simp add: peer_ok_def)
  have h: "hands n p = None" using assms(2) x by (auto simp: net_ok_def peers_ok_def)
  have snd: "pSender x \<noteq> SNone \<longrightarrow> established x \<or> pRecv x = RClosing \<or> pRecv x = RDone"
    using ok by (simp add: peer_ok_def)
  note mv = peer_framed_moves [OF fr]
  show ?thesis
  proof (cases "pRecv x")
    case (RWriteHdr m)
    from receive_header [OF assms(1) x this, unfolded c] show ?thesis using assms(3) x h
      by (rule wire_write_peer)
        (use snd fr RWriteHdr in \<open>auto simp: peer_framed_def established_def intro: sender_framed_end(1) [of SNone]\<close>)
  next
    case (RWritePay m)
    from receive_payload [OF assms(1) x this, unfolded c] show ?thesis using assms(3) x h
      by (rule wire_write_peer)
        (use snd fr RWritePay sender_framed_payload [of m "wire n p"] sender_framed_end(1) [of "SPay m" "wire n p"] in
          \<open>auto simp: peer_framed_def established_def\<close>)
  next
    case (RIngest who m)
    then have "who \<noteq> Relay \<longrightarrow> pSender x = SNone" using snd by (auto simp: established_def)
    then show ?thesis using assms(1) x wire_ingest [OF _ assms(3) x RIngest] RIngest
      by (auto simp: receiveFromPeer_def split: if_splits)
  next
    case (RForward who m err)
    have s: "who \<noteq> Relay \<longrightarrow> pSender x = SNone" using snd RForward by (auto simp: established_def)
    let ?fwd = "forwardToPeers \<lparr>Header = mRawHdr m, Payload = mPayload m\<rparr> n"
    obtain y where y: "peers ?fwd p = Some y" "pRecv y = pRecv x" "pSender y = pSender x"
      using x by (auto simp: forwardToPeers_at)
    have "wire_ok G (ingest_forward p who m err n)"
      unfolding ingest_forward_def using RForward assms(3) y s
      by (intro wire_ingest_return [OF _ y(1)]) auto
    then show ?thesis using RForward assms x by (auto simp: receiveFromPeer_def on_tau_Some)
  next
    case (RForwardHandlers m)
    have "wire_ok G (snd (forwardToHandlers (mChan m) (mRawHdr m) (mPayload m) n))"
      using assms(3) by (rule wire_forwardToHandlers)
    then show ?thesis using RForwardHandlers assms(1) x mv(1)
      by (auto simp: receiveFromPeer_def on_tau_Some goto_def relay_to_handlers_def forwardToHandlers_def forward_handlers_eq
          split: prod.splits intro!: wire_set_peer)
  next
    case RClosing
    then show ?thesis using assms x fr
      by (auto simp: receiveFromPeer_def on_tau_Some goto_def peer_framed_def intro!: wire_set_peer intro: sender_framed_end)
  next
    case RDone
    then show ?thesis using assms x by (simp add: receiveFromPeer_def)
  next
    case (RAdoptOut m)
    then show ?thesis using assms(1,3) x mv
      by (auto simp: receiveFromPeer_def on_tau_Some gotos outbound_adopt_def outbound_self_def
          split: if_splits bool.splits prod.splits intro!: wire_set_peer dest!: wire_adopt)
  next
    case (RAdoptIn m)
    then show ?thesis using assms(1,3) x mv
      by (auto simp: receiveFromPeer_def on_tau_Some gotos inbound_adopt_def 
          split: if_splits bool.splits prod.splits intro!: wire_set_peer dest!: wire_adopt)
  qed (use assms(1,3) x mv fr in \<open>auto simp: receiveFromPeer_def on_tau_Some gotos sendMyAddress_poll_def Let_def
      outbound_reply_def outbound_self_def inbound_first_def relay_message_def split: if_splits dest!: on_read_Some intro!: wire_set_peer\<close>)
qed

lemma wire_send:
  assumes "sendToPeer ev p n = Some n'" "net_ok n" "wire_ok G n"
  shows "wire_ok G n'"
proof -
  obtain x where x: "peers n p = Some x" using assms(1) by (auto simp: sendToPeer_def split: option.splits)
  note ok = net_ok_peer [OF assms(2) x] and fr = wire_ok_peer [OF assms(3) x]
  then have c: "pConn x = p" by (simp add: peer_ok_def)
  have h: "hands n p = None" using assms(2) x by (auto simp: net_ok_def peers_ok_def)
  have wr: "wire_ok G n'"
    if "on_write ev p b n (sender_goto p s) (sender_goto p SClosing) = Some n'" "pSender x \<noteq> SNone" "s \<noteq> SNone"
      "sender_framed s (wire n p @ [b])" for s b
    using that(1) [unfolded sender_goto_def] assms(3) x h
    by (rule wire_write_peer) (use that fr sender_framed_end in \<open>auto simp: peer_framed_def\<close>)
  have move: "wire_ok G (set_peer p (\<lambda>x. x\<lparr>pSender := s\<rparr>) n)"
    if "sender_framed s (wire n p)" "s \<noteq> SNone" for s
    using that assms(3) by (intro wire_set_peer) (auto simp: peer_framed_def)
  have fin: "sender_framed SClosing (wire n p)" "sender_framed SDone (wire n p)" if "pSender x \<noteq> SNone"
    using that fr sender_framed_end by (auto simp: peer_framed_def)
  show ?thesis
  proof (cases "pSender x")
    case (SHdr m)
    then have "sender_framed (SPay m) (wire n p @ [Header m])" using fr by (simp add: peer_framed_def)
    then show ?thesis using assms(1) x c SHdr by (intro wr [of "Header m" "SPay m"]) (simp_all add: sendToPeer_def)
  next
    case (SPay m)
    then have "sender_framed STop (wire n p @ [Payload m])"
      using fr sender_framed_payload by (simp add: peer_framed_def)
    then show ?thesis using assms(1) x c SPay by (intro wr [of "Payload m" STop]) (simp_all add: sendToPeer_def)
  next
    case STop
    then show ?thesis using assms(1) x fr fin
      by (auto simp: sendToPeer_def sender_goto_def on_tau_Some peer_framed_def intro!: move)
  next
    case SSelect
    then have w: "\<exists>ms. wire n p = frames ms" using fr by (simp add: peer_framed_def)
    have "wire_ok G (sender_goto p (SHdr raw) (set_peer p (\<lambda>x. x\<lparr>pSend := q\<rparr>) n))" for raw q
      using w assms(3) by (auto simp: sender_goto_def peer_framed_def intro!: wire_set_peer)
    moreover have "wire_ok G (sender_goto p SClosing n)"
      using w assms(3) by (auto simp: sender_goto_def peer_framed_def intro!: wire_set_peer)
    ultimately show ?thesis using assms(1) x SSelect
      by (auto simp: sendToPeer_def split: event.splits list.splits if_splits)
  next
    case SClosing
    then show ?thesis using assms x fin
      by (auto simp: sendToPeer_def sender_goto_def on_tau_Some peer_framed_def intro!: wire_set_peer)
  qed (use assms x in \<open>simp_all add: sendToPeer_def\<close>)
qed

lemma hand_framed_moves:
  assumes "hand_framed G key x w"
  shows "(\<And>b. pc \<notin> {HBind, HAddChannel b, HOwner b, HChannel b, HReply b}) \<Longrightarrow> hand_framed G key (x\<lparr>hRecv := pc\<rparr>) w"
  using assms by (auto simp: hand_framed_def split: hand_pc.splits)

lemma hand_framed_bind:
  assumes "hand_framed G key x w" "hSender x = SNone" "hChannel x = bmChan b"
    and "pc \<in> {HAddChannel b, HOwner b, HChannel b, HReply b}"
  shows "hand_framed G key (x\<lparr>hRecv := pc\<rparr>) w"
  using assms by (auto simp: hand_framed_def)

lemma wire_receiveHandler:
  assumes "receiveFromHandler G S ev h n = Some n'" "net_ok n" "wire_ok G n"
  shows "wire_ok G n'"
proof -
  obtain x where x: "hands n h = Some x" using assms(1) by (auto simp: receiveFromHandler_def split: option.splits)
  have c: "hConn x = h" using assms(2) x tracked_handD [of n h x] by (simp add: net_ok_def)
  have p: "peers n h = None" using assms(2) x by (cases "peers n h") (auto simp: net_ok_def peers_ok_def)
  note fr = wire_ok_hand [OF assms(3) x]
  note mv = hand_framed_moves [OF fr]
  have move: "wire_ok G (hgoto h pc m)"
    if "wire_ok G m" "hands m h = hands n h" "nodeKey m = nodeKey n" "wire m h = wire n h"
      "hand_framed G (nodeKey n) (x\<lparr>hRecv := pc\<rparr>) (wire n h)" for pc and m :: "'a net"
    unfolding hgoto_def using that x by (intro wire_set_hand) auto
  have bind: "hand_framed G (nodeKey n) (x\<lparr>hRecv := pc\<rparr>) (wire n h)"
    if "hRecv x \<in> {HAddChannel b, HOwner b, HChannel b}" "pc \<in> {HOwner b, HChannel b, HReply b}" for b pc
    using fr that by (intro hand_framed_bind [OF fr]) (auto simp: hand_framed_def)
  show ?thesis
  proof (cases "hRecv x")
    case HBind
    have b: "wire_ok G (hgoto h (HAddChannel b) (set_hand h (\<lambda>x. x\<lparr>hChannel := bmChan b\<rparr>) n))" for b
      using HBind fr x assms(3) by (auto simp: hgoto_def hand_framed_def intro!: wire_set_hand)
    have cl: "wire_ok G (hgoto h HClosing n)" using mv assms(3) by (intro move) auto
    show ?thesis using HBind assms(1) x
      by (auto simp: receiveFromHandler_def handler_bound_def b cl split: event.splits sum.splits if_splits)
  next
    case (HAddChannel b)
    then show ?thesis using assms(1,3) x mv bind [of b "HOwner b"] bind [of b "HReply b"]
      by (auto simp: receiveFromHandler_def handler_add_channel_def Let_def split: if_splits option.splits prod.splits intro!: move)
  next
    case (HOwner b)
    then show ?thesis using assms(1,3) x bind [of b "HChannel b"]
      by (auto simp: receiveFromHandler_def send_change_def split: if_splits intro!: move)
  next
    case (HChannel b)
    then show ?thesis using assms(1,3) x bind [of b "HReply b"]
      by (auto simp: receiveFromHandler_def send_change_def split: if_splits intro!: move)
  next
    case (HReply b)
    then have "on_write ev h (EncodeBindMessage G (bind_reply b n)) n
        (set_hand h (\<lambda>x. x\<lparr>hSender := STop, hRecv := HLoop\<rparr>)) (set_hand h (\<lambda>x. x\<lparr>hRecv := HClosing\<rparr>)) = Some n'"
      using assms(1) x c by (auto simp: receiveFromHandler_def hgoto_def hsender_goto_def on_write_def conn_write_def set_hand_def split: event.splits if_splits)
    then show ?thesis using assms(3) x p
      by (rule wire_write_hand)
        (use fr HReply frames_snoc(1) in \<open>auto simp: hand_framed_def bind_reply_def bind_reply_bytes_def intro: exI [of _ "[]"]\<close>)
  next
    case HLoop
    then show ?thesis using assms(1,3) x mv by (auto simp: receiveFromHandler_def on_tau_Some intro!: move split: if_splits)
  next
    case HRead
    then show ?thesis using assms(1,3) x mv by (auto simp: receiveFromHandler_def dest!: on_read_Some intro!: move)
  next
    case (HForward m)
    then show ?thesis using assms(1,3) x mv by (auto simp: receiveFromHandler_def on_tau_Some intro!: move)
  next
    case HClosing
    then show ?thesis using assms(1,3) x mv by (auto simp: receiveFromHandler_def on_tau_Some intro!: move)
  qed (use assms x in \<open>simp_all add: receiveFromHandler_def\<close>)
qed

lemma wire_sendHandler:
  assumes "sendToHandler ev h n = Some n'" "net_ok n" "wire_ok G n"
  shows "wire_ok G n'"
proof -
  obtain x where x: "hands n h = Some x" using assms(1) by (auto simp: sendToHandler_def split: option.splits)
  have c: "hConn x = h" using assms(2) x tracked_handD [of n h x] by (simp add: net_ok_def)
  have p: "peers n h = None" using assms(2) x by (cases "peers n h") (auto simp: net_ok_def peers_ok_def)
  note fr = wire_ok_hand [OF assms(3) x]
  have fs: "hand_framed G (nodeKey n) (x\<lparr>hSender := s\<rparr>) (wire n h @ b)"
    if "hSender x \<noteq> SNone" "s \<noteq> SNone" "\<And>w. sender_framed (hSender x) w \<Longrightarrow> sender_framed s (w @ b)" for s b
    using fr that by (auto simp: hand_framed_def split: hand_pc.splits)
  note stay = fs [where b = "[]", simplified]
  have wr: "wire_ok G n'"
    if "on_write ev h b n (hsender_goto h s) (hsender_goto h SClosing) = Some n'" "hSender x \<noteq> SNone" "s \<noteq> SNone"
      "\<And>w. sender_framed (hSender x) w \<Longrightarrow> sender_framed s (w @ [b])" for s b
    using that(1) [unfolded hsender_goto_def] assms(3) x p
    by (rule wire_write_hand) (use that fs stay sender_framed_end in blast)+
  have move: "wire_ok G (hsender_goto h s n)"
    if "hSender x \<noteq> SNone" "s \<noteq> SNone" "\<And>w. sender_framed (hSender x) w \<Longrightarrow> sender_framed s w" for s
    unfolding hsender_goto_def using stay [OF that] x assms(3) by (intro wire_set_hand) auto
  show ?thesis
  proof (cases "hSender x")
    case (SHdr m)
    then show ?thesis using assms(1) x c sender_framed_header
      by (intro wr [of "Header m" "SPay m"]) (simp_all add: sendToHandler_def)
  next
    case (SPay m)
    then show ?thesis using assms(1) x c sender_framed_payload
      by (intro wr [of "Payload m" STop]) (simp_all add: sendToHandler_def del: sender_framed_simps)
  next
    case STop
    then show ?thesis using assms(1) x
      by (auto simp: sendToHandler_def on_tau_Some intro!: move)
  next
    case SSelect
    then show ?thesis using assms(1) x
      by (auto simp: sendToHandler_def intro!: move split: if_splits)
  next
    case SClosing
    then have "wire_ok G (hsender_goto h SDone (closeHandler h n))"
      unfolding hsender_goto_def using assms(3) x stay [of SDone] sender_framed_end by (intro wire_set_hand) auto
    then show ?thesis using SClosing assms(1) x by (auto simp: sendToHandler_def on_tau_Some)
  qed (use assms x in \<open>simp_all add: sendToHandler_def\<close>)
qed

section \<open>The service\<close>

lemma wire_new:
  "wire_ok G n \<Longrightarrow> ps = (peers n)(c \<mapsto> x) \<Longrightarrow> peer_framed x (wire n c) \<Longrightarrow> wire_ok G (n\<lparr>peers := ps\<rparr>)"
  "wire_ok G n \<Longrightarrow> hs = (hands n)(c \<mapsto> y) \<Longrightarrow> hand_framed G (nodeKey n) y (wire n c) \<Longrightarrow> wire_ok G (n\<lparr>hands := hs\<rparr>)"
  by (auto simp: wire_ok_def)

lemma new_framed: "peer_framed (newPeer c addr pub outbound hasPub n) []" "hand_framed G key (newHandler c) []"
  by (auto simp: newPeer_def newHandler_def hand_framed_def peer_framed_def intro: exI [of _ "[]"])

lemma wire_open_peer:
  assumes "open_peer addr pub outbound hasPub n = (b, n')" "net_ok n" "wire_ok G n"
  shows "wire_ok G n'"
  using assms fresh_id(3) [OF assms(2)]
  by (auto simp: open_peer_def trackPeer_def Let_def new_framed intro!: wire_new split: if_splits)

lemma wire_acceptHandlers:
  assumes "acceptHandlers ev n = Some n'" "net_ok n" "wire_ok G n"
  shows "wire_ok G n'"
  using assms fresh_id(3) [OF assms(2)]
  by (auto simp: acceptHandlers_def trackHandler_def Let_def new_framed intro!: wire_new
      split: accept_pc.splits if_splits task_event.splits prod.splits bool.splits)

lemma wire_startListeners: "wire_ok G n \<Longrightarrow> wire_ok G (startListeners rs n)"
  by (induction rs n rule: startListeners.induct) (simp_all add: Let_def)

lemma wire_New: "wire_ok G (NetService_New b h k l t s)"
  by (simp add: wire_ok_def NetService_New_def)

lemma wire_step:
  assumes "net_step G S others n n'" "net_ok n" "wire_ok G n"
  shows "wire_ok G n'"
  using assms
proof (induction rule: net_step.induct)
  case (AcceptPeer n tev l n')
  then show ?case
    by (auto simp: acceptIncoming_def accept_ends_def dest!: wire_open_peer split: if_splits task_event.splits prod.splits bool.splits)
next
  case (Find n tev n')
  then show ?case
    by (auto simp: findPeers_def choosePeer_def dest!: wire_open_peer lockPeer_fields
        split: find_pc.splits if_splits task_event.splits prod.splits bool.splits list.splits option.splits)
next
  case (GossipAddress n tev n')
  then show ?case
    by (auto simp: gossipRandomAddresses_def split: gossip_pc.splits task_event.splits if_splits option.splits prod.splits)
next
  case (Seed n tev n')
  then show ?case
    by (auto simp: seedFromDNS_def dest!: wire_open_peer split: seed_pc.splits if_splits task_event.splits prod.splits bool.splits)
next
  case (AddPeer n np n')
  then show ?case by (auto simp: AddPeer_def)
qed (auto intro: wire_receive wire_send wire_receiveHandler wire_sendHandler wire_acceptHandlers
    simp: ns_setAnnounce_def Stop_eq)

lemma net_reachable_wire: "net_reachable G S others n \<Longrightarrow> store_typed S \<Longrightarrow> wire_ok G n"
  by (rule net_reachable_induct)
    (auto simp: net_started.simps NetService_Run_def wire_startListeners wire_New intro: wire_step)

section \<open>The property\<close>


end
