(* ===== verification/NetRuns.thy ===== *)
theory NetRuns
  imports NetWire NetProps
begin

text \<open>
  Runs of the net service: which addresses it dials and how often, how its search for peers
  can end, and how a shutdown ends the process.
\<close>

section \<open>The search for peers\<close>

text \<open>What only the search for peers changes, and that the clock does not go back.\<close>

definition same_search :: "'s net \<Rightarrow> 's net \<Rightarrow> bool" where
  "same_search n n' \<longleftrightarrow> lockedPeers n' = lockedPeers n \<and> findPc n' = findPc n \<and>
     bindAddrs n' = bindAddrs n \<and> clock n \<le> clock n' \<and> (stopping n \<longrightarrow> stopping n')"

lemma same_service_search: "same_service n n' \<Longrightarrow> same_search n n'"
  by (simp add: same_service_def same_search_def)

lemma step_search:
  assumes "net_step G S others n n'"
  shows "same_search n n' \<or> (\<exists>ev. findPeers G S ev n = Some n')"
  using assms
proof (induction rule: net_step.induct)
  case (AcceptHandler n tev n')
  then show ?case
    by (auto simp: acceptHandlers_def trackHandler_def same_search_def Let_def
        split: accept_pc.splits if_splits task_event.splits prod.splits bool.splits)
next
  case (GossipAddress n tev n')
  then show ?case
    by (auto simp: gossipRandomAddresses_def same_search_def split: gossip_pc.splits task_event.splits if_splits option.splits prod.splits)
next
  case (AddPeer n np n')
  then show ?case by (auto simp: AddPeer_def same_search_def)
next
  case (Find n tev n')
  then show ?case by blast
qed (auto dest!: receive_service send_service handler_service send_handler_service accept_service seed_service
    simp: same_service_def ns_setAnnounce_def Stop_eq same_search_def)

lemma find_frame:
  assumes "findPeers G S ev n = Some n'"
  shows "bindAddrs n' = bindAddrs n \<and> clock n' = clock n \<and> stopping n' = stopping n \<and>
    (lockedPeers n' = lockedPeers n \<or> (\<exists>np b. findPc n = FLock np b))"
  using assms
  by (auto simp: findPeers_def choosePeer_def same_service_def dest!: open_peer_service lockPeer_fields
      split: find_pc.splits if_splits task_event.splits prod.splits bool.splits list.splits option.splits)

text \<open>A dial is decided where the lock is taken.\<close>

lemma find_lock:
  assumes "findPeers G S ev n = Some n'" "findPc n = FLock np b"
  shows "findPc n' = (if fst (lockPeer (niPubKey np) n) \<and> \<not> isMyAddress G np n then FDial np b
      else FSleep (clock n + 5 * Second)) \<and>
    lockedPeers n' = lockedPeers (snd (lockPeer (niPubKey np) n))"
proof -
  obtain l n1 where l: "lockPeer (niPubKey np) n = (l, n1)" by fastforce
  then have "isMyAddress G np n1 = isMyAddress G np n" "clock n1 = clock n"
    by (auto simp: isMyAddress_def dest!: lockPeer_fields)
  then show ?thesis using assms l by (auto simp: findPeers_def split: if_splits)
qed

lemma PeerLockTime_pos: "0 \<le> PeerLockTime"
  by (simp add: PeerLockTime_def time_units)

lemma lockPeer_locks:
  assumes "lockPeer k n = (l, n1)"
  shows "\<exists>u. map_of (lockedPeers n1) k = Some u \<and> (l \<longrightarrow> u = clock n + PeerLockTime) \<and>
      (\<forall>v. map_of (lockedPeers n) k = Some v \<longrightarrow> v \<le> u) \<and>
      (l \<longrightarrow> (\<forall>v. map_of (lockedPeers n) k = Some v \<longrightarrow> v \<le> clock n))"
    and "k' \<noteq> k \<Longrightarrow> map_of (lockedPeers n1) k' = map_of (lockedPeers n) k'"
  using assms PeerLockTime_pos by (auto simp: lockPeer_def Let_def split: option.splits if_splits)

text \<open>A lock is never shortened, and the clock does not go back.\<close>

lemma lock_step:
  assumes "net_step G S others n n'" "map_of (lockedPeers n) k = Some u"
  shows "clock n \<le> clock n' \<and> (\<exists>u'. map_of (lockedPeers n') k = Some u' \<and> u \<le> u')"
  using step_search [OF assms(1)]
proof (elim disjE exE)
  assume "same_search n n'"
  then show ?thesis using assms(2) by (simp add: same_search_def)
next
  fix ev assume f: "findPeers G S ev n = Some n'"
  show ?thesis
  proof (cases "lockedPeers n' = lockedPeers n")
    case True
    then show ?thesis using find_frame [OF f] assms(2) by simp
  next
    case False
    then obtain np b where pc: "findPc n = FLock np b" using find_frame [OF f] by blast
    obtain l n1 where l: "lockPeer (niPubKey np) n = (l, n1)" by fastforce
    have "lockedPeers n' = lockedPeers n1" using find_lock [OF f pc] l by simp
    then show ?thesis
      using lockPeer_locks [OF l] find_frame [OF f] assms(2)
      by (cases "k = niPubKey np") auto
  qed
qed

lemma lock_steps:
  assumes "(net_step G S others)\<^sup>*\<^sup>* n n'" "map_of (lockedPeers n) k = Some u"
  shows "clock n \<le> clock n' \<and> (\<exists>u'. map_of (lockedPeers n') k = Some u' \<and> u \<le> u')"
  using assms
proof (induction rule: rtranclp_induct)
  case (step y z)
  then show ?case using lock_step [OF step.hyps(2)] by (meson order_trans)
qed auto

text \<open>The node being tried is valid, and the dialled one is not this node's address.\<close>

definition search_ok :: "gossip \<Rightarrow> 's net \<Rightarrow> bool" where
  "search_ok G n \<longleftrightarrow>
     (case findPc n of
        FLock np b \<Rightarrow> NodeInfo_IsValid G np
      | FDial np b \<Rightarrow> NodeInfo_IsValid G np \<and> \<not> isMyAddress G np n
      | _ \<Rightarrow> True)"

lemma search_ok_step:
  assumes "net_step G S others n n'" "search_ok G n"
  shows "search_ok G n'"
  using step_search [OF assms(1)]
proof (elim disjE exE)
  assume "same_search n n'"
  then show ?thesis using assms(2) by (simp add: search_ok_def same_search_def isMyAddress_def split: find_pc.splits)
next
  fix ev assume f: "findPeers G S ev n = Some n'"
  show ?thesis
  proof (cases "findPc n")
    case (FLock np b)
    have "isMyAddress G np n' = isMyAddress G np n" using find_frame [OF f] by (simp add: isMyAddress_def)
    then show ?thesis using find_lock [OF f FLock] assms(2) FLock by (simp add: search_ok_def)
  qed (use f in \<open>auto simp: findPeers_def choosePeer_def search_ok_def
        split: if_splits task_event.splits prod.splits bool.splits list.splits option.splits\<close>)
qed

lemma search_ok_started: "net_started n \<Longrightarrow> search_ok G n"
  by (auto simp: net_started.simps NetService_Run_def NetService_New_def search_ok_def)

lemma net_reachable_search: "net_reachable G S others n \<Longrightarrow> store_typed S \<Longrightarrow> search_ok G n"
  by (erule (1) net_reachable_induct) (blast intro: search_ok_started search_ok_step)+

text \<open>The step in which the search for peers decides to dial.\<close>

definition starts_dial :: "nodeInfo \<Rightarrow> 's net \<Rightarrow> 's net \<Rightarrow> bool" where
  "starts_dial np n n' \<longleftrightarrow> (\<exists>b b'. findPc n = FLock np b \<and> findPc n' = FDial np b')"

lemma starts_dial_locks:
  assumes "net_step G S others n n'" "starts_dial np n n'"
  shows "map_of (lockedPeers n') (niPubKey np) = Some (clock n' + PeerLockTime) \<and>
    (\<forall>u. map_of (lockedPeers n) (niPubKey np) = Some u \<longrightarrow> u \<le> clock n)"
proof -
  obtain b b' where pc: "findPc n = FLock np b" "findPc n' = FDial np b'"
    using assms(2) by (auto simp: starts_dial_def)
  then obtain ev where f: "findPeers G S ev n = Some n'"
    using step_search [OF assms(1)] by (auto simp: same_search_def)
  obtain l n1 where l: "lockPeer (niPubKey np) n = (l, n1)" by fastforce
  have "l" "lockedPeers n' = lockedPeers n1" using find_lock [OF f pc(1)] l pc(2) by (auto split: if_splits)
  then show ?thesis using lockPeer_locks(1) [OF l] find_frame [OF f] by auto
qed

text \<open>After a dial that was decided at \<open>t0\<close> the search sleeps for five seconds.\<close>

definition rests :: "int \<Rightarrow> 's net \<Rightarrow> bool" where
  "rests t0 n \<longleftrightarrow> t0 \<le> clock n \<and>
     (stopping n \<or> t0 + 5 * Second \<le> clock n \<or>
      (case findPc n of FDial np b \<Rightarrow> True | FSleep t \<Rightarrow> t0 + 5 * Second \<le> t | FDone \<Rightarrow> True | _ \<Rightarrow> False))"

lemma rests_step:
  assumes "net_step G S others n n'" "rests t0 n"
  shows "rests t0 n'"
  using step_search [OF assms(1)]
proof (elim disjE exE)
  assume "same_search n n'"
  then show ?thesis using assms(2) by (auto simp: rests_def same_search_def split: find_pc.splits)
next
  fix ev assume f: "findPeers G S ev n = Some n'"
  have fr: "clock n' = clock n" "stopping n' = stopping n" using find_frame [OF f] by simp_all
  have "findPc n' = FDone \<or> (\<exists>t. findPc n' = FSleep t \<and> clock n + 5 * Second \<le> t)" if "findPc n = FDial np b" for np b
    using f that by (auto simp: findPeers_def same_service_def dest!: open_peer_service
        split: task_event.splits prod.splits bool.splits)
  moreover have "t \<le> clock n \<or> stopping n" if "findPc n = FSleep t" for t
    using f that by (simp add: findPeers_def awake_def split: if_splits)
  moreover have "findPc n \<noteq> FDone" using f by (auto simp: findPeers_def)
  ultimately show ?thesis using assms(2) fr by (fastforce simp: rests_def split: find_pc.splits)
qed

lemma rests_steps:
  assumes "(net_step G S others)\<^sup>*\<^sup>* n n'" "rests t0 n"
  shows "rests t0 n'"
  using assms by (induction rule: rtranclp_induct) (blast intro: rests_step)+

text \<open>
  C13: dials are spaced. Whenever the search for peers decides to dial a node, the node is
  valid, its address is none this node listens on, and its key gets locked; however the
  service goes on, unless it is stopping it does not decide to dial any other node before
  five seconds have passed, and in no case one with the same key before \<open>PeerLockTime\<close>,
  thirty seconds.
\<close>

theorem dials_are_spaced:
  assumes "net_reachable G S others n0" "store_typed S" "net_step G S others n0 n1" "starts_dial np n0 n1"
    and "(net_step G S others)\<^sup>*\<^sup>* n1 n2" "net_step G S others n2 n3" "starts_dial np' n2 n3"
  shows "NodeInfo_IsValid G np \<and> \<not> isMyAddress G np n1 \<and>
    (stopping n2 \<or> clock n1 + 5 * Second \<le> clock n2) \<and>
    (niPubKey np' = niPubKey np \<longrightarrow> clock n1 + 30 * Second \<le> clock n2)"
proof -
  have "search_ok G n1" using net_reachable_search [OF net_reachable_step [OF assms(1,3)] assms(2)] .
  moreover obtain b where "findPc n1 = FDial np b" using assms(4) by (auto simp: starts_dial_def)
  moreover have "clock n1 + PeerLockTime \<le> clock n2" if "niPubKey np' = niPubKey np"
    using starts_dial_locks [OF assms(3,4)] lock_steps [OF assms(5)] starts_dial_locks [OF assms(6,7)] that
    by fastforce
  moreover have "stopping n2 \<or> clock n1 + 5 * Second \<le> clock n2"
  proof -
    have "rests (clock n1) n1" using \<open>findPc n1 = FDial np b\<close> by (simp add: rests_def)
    from rests_steps [OF assms(5) this] show ?thesis using assms(7) by (auto simp: rests_def starts_dial_def)
  qed
  ultimately show ?thesis by (simp add: search_ok_def PeerLockTime_def)
qed

lemma FDone_stays:
  assumes "(net_step G S others)\<^sup>*\<^sup>* n n'" "findPc n = FDone"
  shows "findPc n' = FDone"
  using assms
proof (induction rule: rtranclp_induct)
  case (step y z)
  then show ?case using step_search [OF step.hyps(2)] by (auto simp: same_search_def findPeers_def)
qed

text \<open>Without the search for peers nothing leaves the queue of peers to try.\<close>

lemma step_queue:
  assumes "net_step G S others n n'" "findPc n = FDone"
  shows "\<exists>q. newPeers n' = newPeers n @ q"
  using assms
proof (induction rule: net_step.induct)
  case (AcceptHandler n tev n')
  then show ?case
    by (auto simp: acceptHandlers_def trackHandler_def Let_def
        split: accept_pc.splits if_splits task_event.splits prod.splits bool.splits)
next
  case (GossipAddress n tev n')
  then show ?case
    by (auto simp: gossipRandomAddresses_def split: gossip_pc.splits task_event.splits if_splits option.splits prod.splits)
next
  case (AddPeer n np n')
  then show ?case by (auto simp: AddPeer_def chan_send_def split: if_splits)
next
  case (Find n tev n')
  then show ?case by (simp add: findPeers_def)
qed (auto dest!: receive_service send_service handler_service send_handler_service accept_service seed_service
    simp: same_service_def ns_setAnnounce_def Stop_eq)

lemma queue_stays:
  assumes "(net_step G S others)\<^sup>*\<^sup>* n n'" "findPc n = FDone"
  shows "length (newPeers n) \<le> length (newPeers n')"
  using assms
proof (induction rule: rtranclp_induct)
  case (step y z)
  from step_queue [OF step.hyps(2) FDone_stays [OF step.hyps(1) step.prems]] obtain q where "newPeers z = newPeers y @ q" by blast
  then show ?case using step.IH [OF step.prems] by simp
qed simp

text \<open>
  C35: one refused dial ends the search for peers. If a peer connects to this node while the
  node is dialling it, \<open>trackPeer\<close> refuses the new connection; the connection is closed but
  stays in the list of tracked connections, and although the node is not stopping the
  goroutine returns: whatever happens later, the node never looks for peers again.
\<close>

theorem refused_dial_ends_search:
  assumes "\<not> crashed n" "\<not> stopping n" "findPc n = FDial np b"
    and "niPubKey np \<noteq> NoPubKey" "havePeer (niPubKey np) n"
  shows "\<exists>n'. findPeers G S Connected n = Some n' \<and> net_step G S others n n' \<and> \<not> stopping n' \<and>
    nextId n \<in> closed n' \<and> nextId n \<in> set (connections n') \<and> peers n' = peers n \<and>
    (\<forall>n''. (net_step G S others)\<^sup>*\<^sup>* n' n'' \<longrightarrow> findPc n'' = FDone)"
proof -
  let ?n' = "(close_conn (nextId n) (n\<lparr>nextId := Suc (nextId n), connections := connections n @ [nextId n]\<rparr>))\<lparr>findPc := FDone\<rparr>"
  have f: "findPeers G S Connected n = Some ?n'"
    using assms by (auto simp: findPeers_def open_peer_def trackPeer_def havePeer_def Let_def)
  have "net_step G S others n ?n'" using net_step.Find [OF assms(1) f] .
  then show ?thesis using f assms(2) FDone_stays [of G S others ?n'] by (intro exI [of _ ?n']) (auto simp: close_conn_def)
qed

section \<open>Shutdown\<close>

text \<open>Connections are not opened again, and only its own goroutine changes the socket.\<close>

definition same_socket :: "'s net \<Rightarrow> 's net \<Rightarrow> bool" where
  "same_socket n n' \<longleftrightarrow> socket n' = socket n \<and> acceptPc n' = acceptPc n \<and> stopped n' = stopped n \<and> closed n \<subseteq> closed n'"

lemma same_socket_basic [simp]:
  "same_socket n n" "same_socket n (set_peer p f m) = same_socket n m" "same_socket n (set_hand h g m) = same_socket n m"
  "same_socket n (conn_write c b m) = same_socket n m" "same_socket n (goto p pc m) = same_socket n m"
  "same_socket n (sender_goto p spc m) = same_socket n m" "same_socket n m \<Longrightarrow> same_socket n (closePeer p m)"
  "same_socket n m \<Longrightarrow> same_socket n (closeHandler h m)" "same_socket n m \<Longrightarrow> same_socket n (close_conn c m)"
  "same_socket n (forwardToPeers msg m) = same_socket n m" "same_socket n (m\<lparr>stState := s\<rparr>) = same_socket n m"
  "same_socket n (hgoto h hpc m) = same_socket n m" "same_socket n (hsender_goto h spc m) = same_socket n m"
  "same_socket n (snd (forwardToHandlers ch hdr pl m)) = same_socket n m"
  by (auto simp: same_socket_def goto_def sender_goto_def conn_write_def forwardToHandlers_def forward_handlers_eq
      closePeer_def closeHandler_def close_conn_def Let_def hgoto_def hsender_goto_def split: option.splits)

lemma same_socket_peer [simp]:
  "same_socket n (outbound_self p m x n1) = same_socket n n1" "same_socket n (copy_pub p m n1) = same_socket n n1"
  "same_socket n (outbound_reply G p m x n1) = same_socket n n1" "same_socket n (inbound_first p m x n1) = same_socket n n1"
  "same_socket n (relay_message G p m x n1) = same_socket n n1" "same_socket n (relay_to_handlers p m n1) = same_socket n n1"
  "same_socket n (ingest_return p who e n1) = same_socket n n1" "same_socket n (ingest_forward p who m e n1) = same_socket n n1"
  "same_socket n (sendMyAddress_poll p r n1) = same_socket n n1" "same_socket n (sendMyAddress_done p x n1) = same_socket n n1"
  by (simp_all add: outbound_self_def copy_pub_def outbound_reply_def inbound_first_def relay_message_def
      relay_to_handlers_def ingest_return_def ingest_forward_def sendMyAddress_poll_def sendMyAddress_done_def
      Let_def case_prod_beta split: option.splits caller.splits)

lemma same_socket_adopt: "adoptPeer p k n = (b, n1) \<Longrightarrow> same_socket n n1"
  by (auto simp: adoptPeer_def same_socket_def split: if_splits)

lemma same_socket_receive: "receiveFromPeer G S ev p n = Some n' \<Longrightarrow> same_socket n n'"
  by (auto simp: receiveFromPeer_def on_tau_Some outbound_adopt_def inbound_adopt_def ingest_store_def Let_def
      dest!: on_write_Some on_read_Some same_socket_adopt
      split: option.splits recv_pc.splits if_splits sum.splits prod.splits bool.splits)

lemma same_socket_send: "sendToPeer ev p n = Some n' \<Longrightarrow> same_socket n n'"
  by (auto simp: sendToPeer_def on_tau_Some dest!: on_write_Some
      split: option.splits send_pc.splits event.splits list.splits if_splits)

lemma same_socket_receiveHandler: "receiveFromHandler G S ev h n = Some n' \<Longrightarrow> same_socket n n'"
  by (auto simp: receiveFromHandler_def on_tau_Some handler_bound_def handler_add_channel_def send_change_def
      same_socket_def hgoto_def hsender_goto_def closeHandler_def close_conn_def conn_write_def Let_def
      dest!: on_write_Some on_read_Some
      split: option.splits hand_pc.splits event.splits if_splits sum.splits prod.splits)

lemma same_socket_sendHandler: "sendToHandler ev h n = Some n' \<Longrightarrow> same_socket n n'"
  by (auto simp: sendToHandler_def on_tau_Some dest!: on_write_Some
      split: option.splits send_pc.splits event.splits if_splits)

lemma same_socket_open: "open_peer a k b1 b2 n = (b, n') \<Longrightarrow> same_socket n n'"
  by (auto simp: open_peer_def trackPeer_def same_socket_def close_conn_def Let_def split: if_splits)

lemma same_socket_accept: "acceptIncoming G ev l n = Some n' \<Longrightarrow> same_socket n n'"
  by (auto simp: acceptIncoming_def accept_ends_def same_socket_def close_conn_def dest!: same_socket_open
      split: if_splits task_event.splits prod.splits bool.splits)

lemma same_socket_find: "findPeers G S ev n = Some n' \<Longrightarrow> same_socket n n'"
  by (auto simp: findPeers_def choosePeer_def same_socket_def dest!: same_socket_open lockPeer_fields
      split: find_pc.splits if_splits task_event.splits prod.splits bool.splits list.splits option.splits)

lemma same_socket_seed: "seedFromDNS G ev n = Some n' \<Longrightarrow> same_socket n n'"
  by (auto simp: seedFromDNS_def same_socket_def dest!: same_socket_open
      split: seed_pc.splits if_splits task_event.splits prod.splits bool.splits)

lemma same_socket_gossip: "gossipRandomAddresses G S ev n = Some n' \<Longrightarrow> same_socket n n'"
  by (auto simp: gossipRandomAddresses_def same_socket_def
      split: gossip_pc.splits task_event.splits if_splits option.splits prod.splits)

text \<open>The accept loop for handlers waits on a socket, which a shutdown has closed.\<close>

definition socket_ok :: "'s net \<Rightarrow> bool" where
  "socket_ok n \<longleftrightarrow>
     (acceptPc n = ATop \<or> acceptPc n = AAccept \<longrightarrow> socket n \<noteq> None) \<and>
     (acceptPc n = AAccept \<and> stopped n \<longrightarrow> set_option (socket n) \<subseteq> closed n)"

lemma socket_frame [simp]:
  "socket_ok (n\<lparr>announceChanges := q\<rparr>) = socket_ok n" "socket_ok (n\<lparr>stState := s\<rparr>) = socket_ok n"
  "socket_ok (n\<lparr>clock := t\<rparr>) = socket_ok n" "socket_ok (n\<lparr>stopping := b\<rparr>) = socket_ok n"
  "socket_ok (n\<lparr>encAnnounce := e\<rparr>) = socket_ok n" "socket_ok (n\<lparr>newPeers := np\<rparr>) = socket_ok n"
  "socket_ok (forwardToPeers msg n) = socket_ok n"
  by (simp_all add: socket_ok_def)

lemma socket_ok_same: "same_socket n n' \<Longrightarrow> socket_ok n \<Longrightarrow> socket_ok n'"
  by (auto simp: same_socket_def socket_ok_def)

lemma socket_ok_step:
  assumes "net_step G S others n n'" "net_ok n" "socket_ok n"
  shows "socket_ok n'"
  using assms
proof (induction rule: net_step.induct)
  case (AcceptHandler n tev n')
  then have "stopped n \<longrightarrow> stopping n" by (simp add: net_ok_def tracked_ok_def)
  then show ?case using AcceptHandler
    by (auto simp: acceptHandlers_def trackHandler_def socket_ok_def close_conn_def Let_def
        split: accept_pc.splits if_splits task_event.splits prod.splits bool.splits)
next
  case (Shutdown n)
  then show ?case by (auto simp: Stop_eq socket_ok_def)
next
  case (AddPeer n np n')
  then show ?case by (auto simp: AddPeer_def socket_ok_def)
qed (auto dest!: same_socket_receive same_socket_send same_socket_receiveHandler same_socket_sendHandler
    same_socket_accept same_socket_find same_socket_seed same_socket_gossip
    intro: socket_ok_same simp: ns_setAnnounce_def)

lemma socket_ok_started: "net_started n \<Longrightarrow> socket_ok n"
  by (auto simp: net_started.simps NetService_Run_def NetService_New_def socket_ok_def)

lemma net_reachable_socket: "net_reachable G S others n \<Longrightarrow> store_typed S \<Longrightarrow> socket_ok n"
  by (erule (1) net_reachable_induct) (blast intro: socket_ok_started socket_ok_step)+

text \<open>
  C36: a regular shutdown ends the process by \<open>log.Fatal\<close>. In every reachable state after
  \<open>Stop\<close> in which the accept loop for handlers is waiting, as it does in a running node, its
  socket is closed; the loop can go on, and however it does, the process ends there, before
  the other goroutines and services have finished.
\<close>

theorem shutdown_is_fatal:
  assumes "net_reachable G S others n" "store_typed S" "stopped n" "acceptPc n = AAccept"
  shows "(\<exists>s. socket n = Some s \<and> s \<in> closed n) \<and>
    (\<exists>ev n'. acceptHandlers ev n = Some n') \<and>
    (\<forall>ev n'. acceptHandlers ev n = Some n' \<longrightarrow> crashed n' \<and> (\<forall>n''. \<not> net_step G S others n' n''))"
proof -
  obtain s where s: "socket n = Some s" "s \<in> closed n"
    using net_reachable_socket [OF assms(1,2)] assms(3,4) by (auto simp: socket_ok_def)
  have "crashed n'" if "acceptHandlers ev n = Some n'" for ev n'
    using that assms(4) s by (auto simp: acceptHandlers_def split: task_event.splits)
  moreover have "\<not> net_step G S others n' n''" if "crashed n'" for n' n''
    using that by (auto elim: net_step.cases)
  moreover have "acceptHandlers (Failed e) n \<noteq> None" for e
    using assms(4) by (simp add: acceptHandlers_def)
  ultimately show ?thesis using s by blast
qed

section \<open>Witnesses\<close>

definition sample_node :: "pubkey \<Rightarrow> nodeInfo" where
  "sample_node k = \<lparr>niPubKey = k, niAddr = \<lparr>Host = [8, 8, 8, 8], Port = 22\<rparr>\<rparr>"

lemma sample_node_valid: "NodeInfo_IsValid sample_gossip (sample_node k)"
  by (simp add: NodeInfo_IsValid_def sample_gossip_def sample_node_def)

text \<open>A peer is added and chosen; then its key is locked and it is dialled.\<close>

lemma dial_reached:
  assumes "\<not> crashed n" "\<not> stopping n" "findPc n = FTop" "newPeers n = []"
    and "length (niPubKey np) = 32" "NodeInfo_IsValid G np" "\<not> havePeer (niPubKey np) n"
  shows "(net_step G S others)\<^sup>*\<^sup>* n (n\<lparr>findPc := FLock np True\<rparr>)"
proof -
  let ?R = "net_step G S others"
  have 1: "?R n (n\<lparr>newPeers := [np]\<rparr>)"
    using assms by (intro net_step.AddPeer [of n np]) (auto simp: AddPeer_def chan_send_def)
  have 2: "?R (n\<lparr>newPeers := [np]\<rparr>) (n\<lparr>newPeers := [np], findPc := FPick\<rparr>)"
    using assms by (intro net_step.Find [where tev = Go]) (auto simp: findPeers_def)
  have 3: "?R (n\<lparr>newPeers := [np], findPc := FPick\<rparr>) (n\<lparr>findPc := FGot np True\<rparr>)"
    using assms by (intro net_step.Find [where tev = Go]) (auto simp: findPeers_def choosePeer_def)
  have 4: "?R (n\<lparr>findPc := FGot np True\<rparr>) (n\<lparr>findPc := FLock np True\<rparr>)"
    using assms by (intro net_step.Find [where tev = Go]) (auto simp: findPeers_def havePeer_def)
  show ?thesis using 1 2 3 4 by (meson rtranclp.rtrancl_into_rtrancl rtranclp.rtrancl_refl)
qed

lemma dial_starts:
  assumes "\<not> crashed n" "findPc n = FLock np b" "\<not> isMyAddress G np n"
    and "\<forall>u. map_of (lockedPeers n) (niPubKey np) = Some u \<longrightarrow> u \<le> clock n"
  shows "\<exists>l. net_step G S others n (n\<lparr>lockedPeers := l, findPc := FDial np b\<rparr>) \<and>
    starts_dial np n (n\<lparr>lockedPeers := l, findPc := FDial np b\<rparr>) \<and>
    map_of l (niPubKey np) = Some (clock n + PeerLockTime)"
proof -
  let ?l = "AList.update (niPubKey np) (clock n + PeerLockTime) (lockedPeers n)"
  have "lockPeer (niPubKey np) n = (True, n\<lparr>lockedPeers := ?l\<rparr>)"
    using assms(4) by (auto simp: lockPeer_def Let_def split: option.splits)
  then have "findPeers G S Go n = Some (n\<lparr>lockedPeers := ?l, findPc := FDial np b\<rparr>)"
    using assms(2,3) by (auto simp: findPeers_def isMyAddress_def)
  from net_step.Find [OF assms(1) this] show ?thesis
    using assms(2) by (intro exI [of _ ?l]) (auto simp: starts_dial_def)
qed

lemma sample_net_search [simp]: "newPeers sample_net = []" "bindAddrs sample_net = []" "stopped sample_net = False"
  "acceptPc sample_net = AStart"
  by (simp_all add: sample_net_def ReceiveAnnounce_def ns_setAnnounce_def forwardToPeers_eq)

lemma sample_dial:
  assumes "length k = 32"
  shows "\<exists>l. (net_step sample_gossip S others)\<^sup>*\<^sup>* sample_net (sample_net\<lparr>findPc := FLock (sample_node k) True\<rparr>) \<and>
    net_step sample_gossip S others (sample_net\<lparr>findPc := FLock (sample_node k) True\<rparr>)
      (sample_net\<lparr>lockedPeers := l, findPc := FDial (sample_node k) True\<rparr>) \<and>
    map_of l k = Some (37 * Second)"
proof -
  have np: "niPubKey (sample_node k) = k" by (simp add: sample_node_def)
  have "(net_step sample_gossip S others)\<^sup>*\<^sup>* sample_net (sample_net\<lparr>findPc := FLock (sample_node k) True\<rparr>)"
    using assms by (intro dial_reached) (auto simp: sample_node_valid np havePeer_def)
  moreover obtain l where "net_step sample_gossip S others (sample_net\<lparr>findPc := FLock (sample_node k) True\<rparr>)
      (sample_net\<lparr>lockedPeers := l, findPc := FDial (sample_node k) True\<rparr>)"
    "map_of l k = Some (7 * Second + PeerLockTime)"
    using dial_starts [of "sample_net\<lparr>findPc := FLock (sample_node k) True\<rparr>" "sample_node k" True sample_gossip S others]
    by (auto simp: isMyAddress_def np)
  ultimately show ?thesis by (auto simp: PeerLockTime_def)
qed

lemma node_running_steps:
  "node_running G n \<Longrightarrow> (net_step G (sqliteStore G) (other_service G))\<^sup>*\<^sup>* n n' \<Longrightarrow> node_running G n'"
  unfolding node_running_def by (meson rtranclp_trans)

theorem dials_are_spaced_witness:
  "\<exists>n0 n1 n2. node_running sample_gossip n0 \<and> starts_dial (sample_node (replicate 32 9)) n0 n1 \<and>
     (net_step sample_gossip (sqliteStore sample_gossip) (other_service sample_gossip))\<^sup>*\<^sup>* n1 n2 \<and>
     clock n1 = 7 * Second \<and> clock n2 = 37 * Second \<and> NodeInfo_IsValid sample_gossip (sample_node (replicate 32 9))"
proof -
  let ?R = "net_step sample_gossip (sqliteStore sample_gossip) (other_service sample_gossip)"
  let ?np = "sample_node (replicate 32 9)"
  have np: "niPubKey ?np = replicate 32 9" by (simp add: sample_node_def)
  let ?start = "sample_net\<lparr>findPc := FLock ?np True\<rparr>"
  obtain l where r: "?R\<^sup>*\<^sup>* sample_net ?start" "?R ?start (sample_net\<lparr>lockedPeers := l, findPc := FDial ?np True\<rparr>)"
    "map_of l (replicate 32 9) = Some (37 * Second)"
    using sample_dial [of "replicate 32 9"] by fastforce
  let ?dialled = "sample_net\<lparr>lockedPeers := l, findPc := FDial ?np True\<rparr>"
  let ?asleep = "sample_net\<lparr>lockedPeers := l, findPc := FSleep (12 * Second)\<rparr>"
  let ?later = "sample_net\<lparr>lockedPeers := l, findPc := FTop, clock := 37 * Second\<rparr>"
  have t: "7 * Second \<le> 37 * Second" by (simp add: time_units)
  have "?R ?dialled ?asleep"
    by (intro net_step.Find [where tev = "Failed (OpaqueError ''closed'')"]) (auto simp: findPeers_def)
  moreover have "?R ?asleep (?asleep\<lparr>clock := 37 * Second\<rparr>)"
    using net_step.Time [of ?asleep "37 * Second"] t by simp
  moreover have "?R (?asleep\<lparr>clock := 37 * Second\<rparr>) ?later"
    by (intro net_step.Find [where tev = Go]) (auto simp: findPeers_def awake_def time_units)
  moreover have "?R\<^sup>*\<^sup>* ?later (?later\<lparr>findPc := FLock ?np True\<rparr>)"
    by (intro dial_reached) (auto simp: sample_node_valid np havePeer_def)
  ultimately have s: "?R\<^sup>*\<^sup>* ?dialled (?later\<lparr>findPc := FLock ?np True\<rparr>)"
    by (meson rtranclp.rtrancl_into_rtrancl rtranclp.rtrancl_refl rtranclp_trans)
  obtain l' where d: "?R (?later\<lparr>findPc := FLock ?np True\<rparr>) (?later\<lparr>lockedPeers := l', findPc := FDial ?np True\<rparr>)"
    "starts_dial ?np (?later\<lparr>findPc := FLock ?np True\<rparr>) (?later\<lparr>lockedPeers := l', findPc := FDial ?np True\<rparr>)"
    using dial_starts [of "?later\<lparr>findPc := FLock ?np True\<rparr>" ?np True sample_gossip "sqliteStore sample_gossip" "other_service sample_gossip"] r(3)
    by (auto simp: isMyAddress_def np)
  have run: "node_running sample_gossip ?start"
    using node_running_steps [OF sample_running r(1)] .
  have sd: "starts_dial ?np ?start ?dialled" by (auto simp: starts_dial_def)
  from dials_are_spaced [OF node_running_reachable [OF run] sqlite_typed r(2) sd s d] run sd s
  show ?thesis by (intro exI [of _ ?start] exI [of _ ?dialled] exI [of _ "?later\<lparr>findPc := FLock ?np True\<rparr>"]) simp
qed

text \<open>While a peer is being dialled, it connects to this node and is adopted.\<close>

theorem refused_dial_ends_search_witness:
  "\<exists>n n'. node_running sample_gossip n \<and> findPc n = FDial (sample_node (replicate 32 7)) True \<and>
     net_step sample_gossip (sqliteStore sample_gossip) (other_service sample_gossip) n n' \<and>
     \<not> stopping n' \<and> findPc n' = FDone"
proof -
  let ?R = "net_step sample_gossip (sqliteStore sample_gossip) (other_service sample_gossip)"
  let ?np = "sample_node (replicate 32 7)"
  let ?x = "newPeer 1 zero_address NoPubKey False False sample_start"
  let ?y = "?x\<lparr>pPub := replicate 32 7, pRecv := RAdoptIn sample_msg\<rparr>"
  have np: "niPubKey ?np = replicate 32 7" by (simp add: sample_node_def)
  obtain l where r: "?R\<^sup>*\<^sup>* sample_net (sample_net\<lparr>findPc := FLock ?np True\<rparr>)"
      "?R (sample_net\<lparr>findPc := FLock ?np True\<rparr>) (sample_net\<lparr>lockedPeers := l, findPc := FDial ?np True\<rparr>)"
    using sample_dial [of "replicate 32 7"] by fastforce
  define a where "a = sample_net\<lparr>lockedPeers := l, findPc := FDial ?np True\<rparr>"
  have x: "peers a 1 = Some ?x" "pRecv ?x = RAwaitFirst" "length (pPub ?x) = 32" "pNodeKey ?x = sample_key"
    by (simp_all add: a_def newPeer_def NoPubKey_def)
  have m: "length (mPubKey sample_msg) = 32" "mPubKey sample_msg = replicate 32 7" "mPubKey sample_msg \<noteq> Pub sample_key"
    by (simp_all add: sample_msg_def sample_key_def)
  define b where "b = inbound_first 1 sample_msg ?x a"
  have "receiveFromPeer sample_gossip (sqliteStore sample_gossip) (ReadMsg sample_msg) 1 a = Some b"
    using x m by (simp add: receiveFromPeer_def on_read_def b_def)
  moreover have "\<not> crashed a" by (simp add: a_def)
  ultimately have 1: "?R a b" by (rule net_step.Receive [rotated])
  have b: "b = set_peer 1 (\<lambda>z. z\<lparr>pPub := go_copy (pPub z) 0 32 (replicate 32 7), pRecv := RAdoptIn sample_msg\<rparr>) a"
    using x m by (simp add: b_def inbound_first_def gotos)
  have y: "peers b 1 = Some ?y" using x by (simp add: b)
  define c where "c = inbound_adopt sample_gossip 1 sample_msg ?y b"
  have "receiveFromPeer sample_gossip (sqliteStore sample_gossip) Tau 1 b = Some c"
    using y by (simp add: receiveFromPeer_def on_tau_def c_def)
  moreover have "\<not> crashed b" by (simp add: b a_def)
  ultimately have 2: "?R b c" by (rule net_step.Receive [rotated])
  have "connectedPeers b = []" by (simp add: b a_def)
  then have "havePeer (replicate 32 7) c" "findPc c = FDial ?np True" "\<not> crashed c" "\<not> stopping c"
    using m by (auto simp: c_def inbound_adopt_def adoptPeer_def is_address_def sample_msg_def havePeer_def goto_def b a_def)
  moreover have k: "niPubKey ?np \<noteq> NoPubKey" "havePeer (niPubKey ?np) c"
    unfolding np using calculation(1) by (simp_all add: NoPubKey_def)
  ultimately have "\<exists>n'. findPeers sample_gossip (sqliteStore sample_gossip) Connected c = Some n' \<and> ?R c n' \<and> \<not> stopping n' \<and>
      nextId c \<in> closed n' \<and> nextId c \<in> set (connections n') \<and> peers n' = peers c \<and>
      (\<forall>n''. ?R\<^sup>*\<^sup>* n' n'' \<longrightarrow> findPc n'' = FDone)"
    using k by (intro refused_dial_ends_search [of c ?np True]) simp_all
  moreover have "node_running sample_gossip c"
    using node_running_steps [OF sample_running] r 1 2 unfolding a_def
    by (meson rtranclp.rtrancl_into_rtrancl)
  ultimately show ?thesis using \<open>findPc c = FDial ?np True\<close> by (meson rtranclp.rtrancl_refl)
qed

theorem shutdown_is_fatal_witness:
  "\<exists>n n'. node_running sample_gossip n \<and> stopped n \<and>
     acceptHandlers (Failed (OpaqueError ''closed'')) n = Some n' \<and> crashed n'"
proof -
  let ?R = "net_step sample_gossip (sqliteStore sample_gossip) (other_service sample_gossip)"
  let ?a = "sample_net\<lparr>socket := Some 2, nextId := 3, acceptPc := ATop\<rparr>"
  let ?b = "?a\<lparr>acceptPc := AAccept\<rparr>"
  let ?c = "?b\<lparr>stopping := True\<rparr>"
  have i: "nextId sample_net = 2"
    by (simp add: sample_net_def ReceiveAnnounce_def ns_setAnnounce_def forwardToPeers_eq)
  have 1: "?R sample_net ?a"
    by (intro net_step.AcceptHandler [where tev = Listening]) (auto simp: acceptHandlers_def i)
  have 2: "?R ?a ?b"
    by (intro net_step.AcceptHandler [where tev = Go]) (auto simp: acceptHandlers_def)
  have 3: "?R ?b ?c" by (rule net_step.Cancel) simp
  have 4: "?R ?c (Stop ?c)" by (rule net_step.Shutdown) simp_all
  have run: "node_running sample_gossip (Stop ?c)"
    using node_running_steps [OF sample_running] 1 2 3 4
    by (meson rtranclp.rtrancl_into_rtrancl rtranclp.rtrancl_refl)
  have s: "stopped (Stop ?c)" "acceptPc (Stop ?c) = AAccept" by (simp_all add: Stop_eq)
  have e: "acceptHandlers (Failed (OpaqueError ''closed'')) (Stop ?c) = Some (Stop ?c\<lparr>crashed := True\<rparr>)"
    using s(2) by (simp add: acceptHandlers_def)
  from shutdown_is_fatal [OF node_running_reachable [OF run] sqlite_typed s] run s(1) e show ?thesis by blast
qed


end
