(* ===== verification/WebProps.thy ===== *)
theory WebProps
  imports DogeNode NetRuns
begin

text \<open>
  Properties of the web API in the program: the list of nodes it returns, its shutdown, and
  what becomes of requests that the net service no longer takes.
\<close>

section \<open>The list of nodes\<close>

text \<open>What \<open>json.Unmarshal\<close> makes of a body, as a list of \<open>NetNode\<close>.\<close>

definition unmarshal_netNodes :: "string \<Rightarrow> netNode list option" where
  "unmarshal_netNodes text =
     Option.bind (unmarshal_slice [''pubkey'', ''address'', ''identity''] text)
       (\<lambda>rows. those (map (\<lambda>row. case row of
            [k, a, i] \<Rightarrow> Some \<lparr>nnPubKey = k, nnAddress = a, nnIdentity = i\<rparr> | _ \<Rightarrow> None) rows))"

definition ascii_node :: "netNode \<Rightarrow> bool" where
  "ascii_node n \<longleftrightarrow> ascii (nnPubKey n) \<and> ascii (nnAddress n) \<and> ascii (nnIdentity n)"

lemma netNode_names:
  "ascii ''pubkey''" "ascii ''address''" "ascii ''identity''"
  "distinct (map fold_name [''pubkey'', ''address'', ''identity''])"
  by code_simp+

lemma netNodes_read_back:
  assumes "\<forall>n \<in> set ns. ascii_node n"
  shows "unmarshal_netNodes (json_netNodes ns) = Some ns"
proof -
  let ?row = "\<lambda>n. [(''pubkey'', nnPubKey n), (''address'', nnAddress n), (''identity'', nnIdentity n)]"
  have "unmarshal_slice [''pubkey'', ''address'', ''identity''] (json_print (JArray (map json_object (map ?row ns)))) =
      Some (map (map snd) (map ?row ns))"
  proof (rule unmarshal_marshal_slice)
    fix fields assume "fields \<in> set (map ?row ns)"
    then show "plain_fields fields \<and> map fst fields = [''pubkey'', ''address'', ''identity'']"
      using assms netNode_names by (auto simp: plain_fields_def ascii_node_def)
  qed
  moreover have "map json_netNode ns = map json_object (map ?row ns)" by (simp add: json_netNode_def)
  ultimately have "unmarshal_slice [''pubkey'', ''address'', ''identity''] (json_netNodes ns) = Some (map (map snd) (map ?row ns))"
    unfolding json_netNodes_def by presburger
  moreover have "those (map (\<lambda>n. Some \<lparr>nnPubKey = nnPubKey n, nnAddress = nnAddress n, nnIdentity = nnIdentity n\<rparr>) ns) = Some ns"
    using those_map [of ns "\<lambda>n. Some \<lparr>nnPubKey = nnPubKey n, nnAddress = nnAddress n, nnIdentity = nnIdentity n\<rparr>" "\<lambda>n. n"] by simp
  ultimately show ?thesis by (simp add: unmarshal_netNodes_def o_def)
qed

text \<open>The entry of the list for a row of the table \<open>node\<close>.\<close>

definition listed_node :: "gossip \<Rightarrow> nodeRow \<Rightarrow> netNode" where
  "listed_node G r =
     \<lparr>nnPubKey = EncodeToString (ndKey r),
      nnAddress = AddressString G (normalizeIP4 (fst (AddressFromBytes G (ndAddress r)))),
      nnIdentity = (if ndOwner r = ZeroIdentity then [] else EncodeToString (ndOwner r))\<rparr>"

abbreviation list_rows :: "gossip \<Rightarrow> (bytes \<times> bytes \<times> bytes) list \<Rightarrow> netNode list" where
  "list_rows G rows \<equiv> map (\<lambda>(key, address, owner).
       \<lparr>nnPubKey = EncodeToString key, nnAddress = AddressString G (normalizeIP4 (fst (AddressFromBytes G address))),
        nnIdentity = (if owner = ZeroIdentity then [] else EncodeToString owner)\<rparr>) rows"

lemma EncodeToString_Nil: "EncodeToString [] = []"
  by (simp add: EncodeToString_def)

lemma NodeList_rows_result:
  assumes "NodeList_rows G rows (case e of Some x \<Rightarrow> raise_fmt p x | None \<Rightarrow> ret_ok) r tx = (None, r', tx')"
  shows "r' = r @ list_rows G rows \<and> tx' = tx \<and> e = None"
  using assms
proof (induction rows arbitrary: r)
  case Nil
  then show ?case by (cases e) (simp_all add: ret_ok_def ret_err_def)
next
  case (Cons row rows)
  obtain key address owner where row: "row = (key, address, owner)" by (cases row)
  obtain addr err where a: "AddressFromBytes G address = (addr, err)" by fastforce
  have "err = None" using Cons.prems row a by (cases err) (simp_all add: ret_err_def)
  then have "NodeList_rows G rows (case e of Some x \<Rightarrow> raise_fmt p x | None \<Rightarrow> ret_ok) (r @ list_rows G [row]) tx = (None, r', tx')"
    using Cons.prems row a by (auto simp: Let_def assign_def EncodeToString_Nil)
  from Cons.IH [OF this] show ?case by simp
qed

lemma NodeList_work_result:
  assumes "NodeList_work G r (d, fs) = (None, r', d', fs')"
  shows "r' = r @ map (listed_node G) (node d) \<and> d' = d \<and> (fs = [] \<longrightarrow> fs' = [])"
proof -
  obtain x tx where q: "query_rows sql_select_nodes (d, fs) = (x, tx)" by (metis prod.exhaust)
  obtain rows e where x: "x = Inr (rows, e)"
    using assms q by (cases x) (auto simp: NodeList_work_def on_rows_def ret_err_def)
  then have "NodeList_rows G rows (case e of Some e \<Rightarrow> raise_fmt ''[Store] query: '' e | None \<Rightarrow> ret_ok) r tx = (None, r', (d', fs'))"
    using assms q by (simp add: NodeList_work_def on_rows_def)
  from NodeList_rows_result [OF this] have "r' = r @ list_rows G rows \<and> tx = (d', fs') \<and> e = None" by simp
  moreover have "d' = d \<and> (fs = [] \<longrightarrow> fs' = []) \<and> rows = map (\<lambda>r. (ndKey r, ndAddress r, ndOwner r)) (node d)" if "e = None" "tx = (d', fs')"
    using q that x by (auto simp: query_rows_def exec_sql_def sql_select_nodes_def map_sum.simps split: sum.splits prod.splits option.splits if_splits)
  ultimately show ?thesis by (auto simp: listed_node_def)
qed

text \<open>
  A body that appends the same rows in every attempt leaves them once for each attempt that
  reached the commit.
\<close>

lemma doTxn_loop_appends:
  assumes "doTxn_loop n held name work r w = Some (None, r', w')"
    and "\<And>r fs r' d fs'. work r (disk w, fs) = (None, r', d, fs') \<Longrightarrow> r' = r @ xs \<and> d = disk w"
  shows "\<exists>k. r' = r @ concat (replicate (Suc k) xs)"
  using assms
proof (induction n arbitrary: held r w)
  case (Suc limit)
  have held: "\<not> held" using Suc.prems(1) by (auto split: if_splits)
  obtain f fs where f: "next_fault (faults w) = (f, fs)" by fastforce
  show ?case
  proof (cases f)
    case (Some ef)
    then have "doTxn_loop limit False name work r (w\<lparr>faults := fs\<rparr>) = Some (None, r', w')"
      using Suc.prems(1) held f by (auto split: prod.splits if_splits)
    then show ?thesis by (rule Suc.IH) (use Suc.prems(2) in simp)
  next
    case None
    obtain e r1 d fs1 where wk: "work r (disk w, fs) = (e, r1, d, fs1)" by (metis prod.exhaust)
    have e: "e = None"
    proof (rule ccontr)
      assume "e \<noteq> None"
      then have "doTxn_loop limit True name work r1 (w\<lparr>faults := fs1\<rparr>) = Some (None, r', w')"
        using Suc.prems(1) held f None wk by (auto split: if_splits)
      then show False by (cases limit) simp_all
    qed
    then have r1: "r1 = r @ xs" using Suc.prems(2) wk by blast
    show ?thesis
    proof (cases "fst (next_fault fs1)")
      case None
      then have "r' = r1" using Suc.prems(1) held f \<open>f = None\<close> wk e by (auto split: prod.splits)
      then show ?thesis using r1 by (intro exI [of _ 0]) simp
    next
      case (Some ef)
      then obtain gs where "doTxn_loop limit False name work r1 (w\<lparr>faults := gs\<rparr>) = Some (None, r', w')"
        using Suc.prems(1) held f \<open>f = None\<close> wk e by (auto split: prod.splits if_splits)
      then have "\<exists>k. r' = r1 @ concat (replicate (Suc k) xs)" by (rule Suc.IH) (use Suc.prems(2) in simp)
      then obtain k where "r' = r1 @ concat (replicate (Suc k) xs)" by blast
      then show ?thesis using r1 by (intro exI [of _ "Suc k"]) simp
    qed
  qed
qed simp

lemma NodeList_result:
  assumes "NodeList G w = Some ((nodes, None), w')"
  shows "\<exists>k. nodes = concat (replicate (Suc k) (map (listed_node G) (node (disk w)))) \<and> (faults w = [] \<longrightarrow> k = 0)"
proof -
  have run: "doTxn ''NodeList'' (NodeList_work G) [] w = Some (None, nodes, w')"
    using assms by (simp add: NodeList_def results_Some)
  then obtain k where k: "nodes = [] @ concat (replicate (Suc k) (map (listed_node G) (node (disk w))))"
    using doTxn_loop_appends [OF run [unfolded doTxn_def]] NodeList_work_result by blast
  show ?thesis
  proof (cases "faults w = []")
    case True
    obtain e r d fs where wk: "NodeList_work G [] (disk w, []) = (e, r, d, fs)" by (metis prod.exhaust)
    then have "e = None" using run True by (cases e) (auto simp: doTxn_first split: if_splits)
    moreover from this have "fs = []" using NodeList_work_result wk by blast
    ultimately have "e = None \<and> nodes = r" using run True wk by (auto simp: doTxn_first)
    then have "nodes = map (listed_node G) (node (disk w))" using NodeList_work_result [of G "[]"] wk by simp
    then show ?thesis by (intro exI [of _ 0]) simp
  qed (use k in auto)
qed


definition sample_listed :: world where
  "sample_listed = sample_world\<lparr>disk := sample_db\<lparr>node :=
     [\<lparr>ndOid = 1, ndKey = replicate 32 7, ndAddress = To16 [1, 2, 3, 4] @ [0, 80], ndTime = 0, ndOwner = ZeroIdentity,
       ndPayload = [], ndSig = [], ndDayc = 30\<rparr>]\<rparr>\<rparr>"

lemma sample_listing:
  "\<exists>ns. NodeList sample_gossip sample_listed = Some ((ns, None), sample_listed)"
proof -
  have "schema sample_db" by (simp add: sample_db_def empty_db_def)
  then obtain ns where "NodeList_work sample_gossip [] (disk sample_listed, []) = (None, ns, disk sample_listed, [])"
    by (simp add: NodeList_work_def stmt_defs sample_listed_def query_rows_def exec_sql_def sql_select_nodes_def
        sample_gossip_def To16_def assign_def ret_ok_def Let_def)
  from doTxn_ok [of sample_listed "NodeList_work sample_gossip", OF _ this] show ?thesis
    by (simp add: NodeList_def results_def) (simp add: sample_listed_def)
qed


section \<open>Shutdown\<close>



section \<open>Requests that wait for the net service\<close>

text \<open>A connection whose handler waits stays as it is, whatever else the API does.\<close>

lemma waiting_conn:
  assumes "web_step G S cancelled now a n a' n'" "web_ok a"
    and "(i, CActive r) \<in> set (waConns a)" "web_handle G S r n = None"
  shows "(i, CActive r) \<in> set (waConns a')"
  using assms
proof (induction rule: web_step.induct)
  case (Run ev a')
  then show ?case using Run_cases [OF Run(1)] by auto
next
  case (Conn cev j a' n')
  have i: "map_of (waConns a) i = Some (CActive r)"
    using Conn.prems(1,2) by (simp add: web_ok_def map_of_is_SomeI)
  then have "j \<noteq> i" using Conn.hyps Conn.prems(3) by (cases cev) (auto simp: web_conn_step_simps(2-4) [OF i])
  then have "(i, CActive r) \<in> set (waConns (set_conn j c a))" "(i, CActive r) \<in> set (waConns (end_conn j a))" for c
    using Conn.prems(2) by (auto simp: set_conn_def end_conn_def image_iff intro!: bexI [of _ "(i, CActive r)"])
  then show ?case using web_conn_shape [OF Conn.hyps] by auto
next
  case (StopTask sev a')
  let ?cs = "filter (\<lambda>(i, c). \<not> is_idle now c) (waConns a)"
  have m: "(i, CActive r) \<in> set ?cs" using StopTask.prems(2) by (simp add: is_idle_def)
  then have "?cs \<noteq> []" by (metis empty_iff list.set(1))
  with m show ?case using StopTask.hyps StopTask.prems(2)
    by (cases "waStop a"; cases sev) (auto simp: web_stop_step_def closeIdleConns_def Let_def split: if_splits)
qed (auto simp: WebAPI_Stop_def)

lemma dogenet_webs:
  "dogenet_step G d d' \<Longrightarrow> length (dnWeb d') = length (dnWeb d) \<and>
   (\<forall>k < length (dnWeb d). dnWeb d' ! k = dnWeb d ! k \<or>
      web_step G (sqliteStore G) (stopping (dnNet d)) (clock (dnNet d)) (dnWeb d ! k) (dnNet d) (dnWeb d' ! k) (dnNet d'))"
proof (induction rule: dogenet_step.induct)
  case (WebTask d k wa n)
  then show ?case by (auto simp: nth_list_update)
qed auto

lemma DogeNet_webs: "DogeNet G cfg e now w = Some (Inr d) \<Longrightarrow> dnWeb d = map (Web_New G) (cfgBindWeb cfg)"
  by (auto simp: DogeNet_def split: option.splits prod.splits)

lemma dogenet_web_ok:
  assumes "dogenet_reachable G cfg w d" "k < length (dnWeb d)"
  shows "web_ok (dnWeb d ! k)"
proof -
  obtain d0 where d0: "dogenet_started G cfg w d0" "(dogenet_step G)\<^sup>*\<^sup>* d0 d"
    using assms(1) by (auto simp: dogenet_reachable_def)
  from d0(2) assms(2) show ?thesis
  proof (induction rule: rtranclp_induct)
    case base
    have "dnWeb d0 = map (Web_New G) (cfgBindWeb cfg)"
      using d0(1) DogeNet_webs by (auto simp: dogenet_started_def)
    then show ?case using base by (simp add: web_ok_def Web_New_def)
  next
    case (step y z)
    from dogenet_webs [OF step.hyps(2)] step.prems have k: "k < length (dnWeb y)"
      and "dnWeb z ! k = dnWeb y ! k \<or> web_step G (sqliteStore G) (stopping (dnNet y)) (clock (dnNet y)) (dnWeb y ! k) (dnNet y) (dnWeb z ! k) (dnNet z)"
      by auto
    then show ?case using step.IH [OF k] web_ok_step by metis
  qed
qed

lemma dogenet_run_net:
  assumes "dogenet_reachable G cfg w d" "(dogenet_step G)\<^sup>*\<^sup>* d d'"
  shows "dogenet_reachable G cfg w d' \<and> net_run G (dnNet d) (dnNet d')"
  using assms(2)
proof (induction rule: rtranclp_induct)
  case base
  show ?case using assms(1) by simp
next
  case (step y z)
  then have "dogenet_reachable G cfg w z" unfolding dogenet_reachable_def by (meson rtranclp.rtrancl_into_rtrancl)
  moreover have "length (Pub (anNodeKey (dnAnn y))) = 32" using dogenet_net [of G cfg w y] step.IH by simp
  ultimately show ?case using step.IH dogenet_step_net [OF step.hyps(2)] by (meson rtranclp_trans)
qed

text \<open>
  C34: a full queue outlives the search for peers. Once the search has ended and ten peers are
  queued, a request to \<open>/addpeer\<close> that names a peer is never answered: in every later state of
  the program its handler still waits, whether or not the program is being shut down. Its
  connection stays active, so the shutdown of the web API can only run into its deadline.
\<close>

theorem addpeer_never_answered:
  assumes "dogenet_reachable G cfg w d" "findPc (dnNet d) = FDone" "10 \<le> length (newPeers (dnNet d))"
    and "k < length (dnWeb d)" "(i, CActive r) \<in> set (waConns (dnWeb d ! k))"
    and "rqPath r = ''/addpeer''" "names_peer G r np"
    and "(dogenet_step G)\<^sup>*\<^sup>* d d'"
  shows "(i, CActive r) \<in> set (waConns (dnWeb d' ! k)) \<and> web_handle G (sqliteStore G) r (dnNet d') = None \<and>
    waStop (dnWeb d' ! k) \<noteq> SEnded True"
proof -
  have waits: "web_handle G (sqliteStore G) r (dnNet e) = None" if "(dogenet_step G)\<^sup>*\<^sup>* d e" for e
  proof -
    have "length (newPeers (dnNet d)) \<le> length (newPeers (dnNet e))"
      using dogenet_run_net [OF assms(1) that] queue_stays assms(2) by blast
    then have "addpeer G AddPeer r (dnNet e) = None"
      using netsvc.addpeer_waits [of G r "dnNet e"] assms(3,7) by auto
    then show ?thesis using assms(6) by (simp add: web_handle_def)
  qed
  from assms(8) have "(i, CActive r) \<in> set (waConns (dnWeb d' ! k)) \<and> k < length (dnWeb d')"
  proof (induction rule: rtranclp_induct)
    case (step y z)
    then have y: "dogenet_reachable G cfg w y" using dogenet_run_net [OF assms(1)] by blast
    from dogenet_webs [OF step.hyps(2)] step.IH
    have "dnWeb z ! k = dnWeb y ! k \<or> web_step G (sqliteStore G) (stopping (dnNet y)) (clock (dnNet y)) (dnWeb y ! k) (dnNet y) (dnWeb z ! k) (dnNet z)"
      and "length (dnWeb z) = length (dnWeb y)" by auto
    then show ?case
      using step.IH waiting_conn [OF _ dogenet_web_ok [OF y]] waits [OF step.hyps(1)] by metis
  qed (use assms(4,5) in simp)
  moreover from this have "web_ok (dnWeb d' ! k)"
    using dogenet_web_ok dogenet_run_net [OF assms(1,8)] by blast
  ultimately show ?thesis using waits [OF assms(8)] by (auto simp: web_ok_def)
qed

text \<open>The program is being shut down while a client asks for the same peer again and again.\<close>

lemma sample_accepts:
  assumes "length (newPeers n) < 10"
  shows "\<exists>w. web_handle sample_gossip S sample_request n =
      Some (w, n\<lparr>newPeers := newPeers n @ [\<lparr>niPubKey = replicate 32 7, niAddr = \<lparr>Host = [1, 2, 3, 4], Port = 80\<rparr>\<rparr>]\<rparr>)"
proof -
  have "rqPath sample_request = ''/addpeer''" by (simp add: sample_request_def)
  then show ?thesis
    using netsvc.addpeer_accepts [OF sample_names, of n] assms by (simp add: web_handle_def)
qed

theorem addpeer_never_answered_witness:
  "\<exists>d. dogenet_reachable sample_gossip sample_config new_world d \<and> findPc (dnNet d) = FDone \<and>
     web_handle sample_gossip (sqliteStore sample_gossip) sample_request (dnNet d) = None \<and>
     (0, CActive sample_request) \<in> set (waConns (dnWeb d ! 0))"
proof -
  let ?G = "sample_gossip" and ?S = "sqliteStore sample_gossip" and ?D = "dogenet_step sample_gossip"
  let ?np = "\<lparr>niPubKey = replicate 32 7, niAddr = \<lparr>Host = [1, 2, 3, 4], Port = 80\<rparr>\<rparr>"
  obtain d0 where d0: "dogenet_started ?G sample_config new_world d0"
     "dnNet d0 = NetService_New [] (cfgHandlerBind sample_config) sample_key False 0 sample_world"
     "dnWeb d0 = [Web_New ?G zero_address]" "anPc (dnAnn d0) = ALoad"
    using sample_starts by blast
  have n0: "\<not> crashed (dnNet d0)" "findPc (dnNet d0) = FTop" "newPeers (dnNet d0) = []"
    by (simp_all add: d0(2) NetService_New_def)
  define N where "N = (\<lambda>k. (dnNet d0)\<lparr>stopping := True, findPc := FDone, newPeers := replicate k ?np\<rparr>)"
  define D where "D = (\<lambda>a k. d0\<lparr>dnWeb := [a], dnNet := N k\<rparr>)"
  have web: "?D (D a k) (D b j)" if "web_step ?G ?S (stopping (N k)) (clock (N k)) a (N k) b (N j)" for a b k j
  proof -
    have "alive (D a k)" using n0 d0(4) by (simp add: alive_def D_def N_def)
    from dogenet_step.WebTask [OF this, of 0 _ b "N j"] that show ?thesis by (simp add: D_def)
  qed
  have "?D d0 (d0\<lparr>dnNet := (dnNet d0)\<lparr>stopping := True\<rparr>\<rparr>)"
    using n0 d0(4) by (intro dogenet_step.Cancel) (simp add: alive_def)
  moreover have "?D (d0\<lparr>dnNet := (dnNet d0)\<lparr>stopping := True\<rparr>\<rparr>) (D (Web_New ?G zero_address) 0)"
  proof -
    have "net_task ?G ?S ((dnNet d0)\<lparr>stopping := True\<rparr>) (N 0)"
      using n0 by (intro net_task.intros(7) [where tev = Go]) (simp add: findPeers_def N_def)
    moreover have "D (Web_New ?G zero_address) 0 = d0\<lparr>dnNet := N 0\<rparr>" using d0(3) by (cases d0) (simp add: D_def)
    ultimately show ?thesis
      using dogenet_step.NetTask [of "d0\<lparr>dnNet := (dnNet d0)\<lparr>stopping := True\<rparr>\<rparr>" ?G "N 0"] n0 d0(4)
      by (simp add: alive_def)
  qed
  ultimately have r0: "?D\<^sup>*\<^sup>* d0 (D (Web_New ?G zero_address) 0)" by (meson rtranclp.rtrancl_into_rtrancl rtranclp.rtrancl_refl)
  let ?serve = "(Web_New ?G zero_address)\<lparr>waPc := WServe, waListening := True\<rparr>"
  let ?busy = "\<lambda>sent. ?serve\<lparr>waConns := [(0, CActive sample_request)], waNext := 1, waSent := sent\<rparr>"
  have "?D (D (Web_New ?G zero_address) 0) (D ((Web_New ?G zero_address)\<lparr>waPc := WListen\<rparr>) 0)"
    by (intro web web_step.Run [where ev = WGo]) (simp add: WebAPI_Run_def Web_New_def)
  moreover have "?D (D ((Web_New ?G zero_address)\<lparr>waPc := WListen\<rparr>) 0) (D ?serve 0)"
    by (intro web web_step.Run [where ev = WGo]) (simp add: WebAPI_Run_def Web_New_def)
  moreover have "?D (D ?serve 0) (D (?serve\<lparr>waConns := [(0, CNew (clock (N 0)))], waNext := 1\<rparr>) 0)"
    by (intro web web_step.Run [where ev = WConnect]) (simp add: WebAPI_Run_def Web_New_def)
  moreover have "?D (D (?serve\<lparr>waConns := [(0, CNew (clock (N 0)))], waNext := 1\<rparr>) 0) (D (?busy []) 0)"
    by (intro web web_step.Conn [where i = 0 and cev = "ReadRequest sample_request"])
      (simp add: web_conn_step_def set_conn_def Web_New_def)
  ultimately have r1: "?D\<^sup>*\<^sup>* d0 (D (?busy []) 0)" using r0 by (meson rtranclp.rtrancl_into_rtrancl)
  have again: "\<exists>sent. ?D\<^sup>*\<^sup>* d0 (D (?busy sent) k)" if "k \<le> 10" for k
    using that
  proof (induction k)
    case (Suc k)
    then obtain sent where s: "?D\<^sup>*\<^sup>* d0 (D (?busy sent) k)" by auto
    have "length (newPeers (N k)) < 10" using Suc.prems by (simp add: N_def)
    from sample_accepts [OF this] obtain w where w: "web_handle ?G ?S sample_request (N k) = Some (w, N (Suc k))"
      by (auto simp: N_def replicate_append_same)
    let ?idle = "?serve\<lparr>waConns := [(0, CIdle)], waNext := 1, waSent := sent @ [(0, w)]\<rparr>"
    have "?D (D (?busy sent) k) (D ?idle (Suc k))"
      by (intro web web_step.Conn [where i = 0 and cev = "Handle True"])
        (simp add: web_conn_step_simps(2) w set_conn_def Web_New_def)
    moreover have "?D (D ?idle (Suc k)) (D (?busy (sent @ [(0, w)])) (Suc k))"
      by (intro web web_step.Conn [where i = 0 and cev = "ReadRequest sample_request"])
        (simp add: web_conn_step_def set_conn_def)
    ultimately show ?case using s by (meson rtranclp.rtrancl_into_rtrancl)
  qed (use r1 in blast)
  then obtain sent where "?D\<^sup>*\<^sup>* d0 (D (?busy sent) 10)" by auto
  then have r: "dogenet_reachable ?G sample_config new_world (D (?busy sent) 10)"
    using d0(1) unfolding dogenet_reachable_def by blast
  have f: "findPc (dnNet (D (?busy sent) 10)) = FDone" "10 \<le> length (newPeers (dnNet (D (?busy sent) 10)))"
    "0 < length (dnWeb (D (?busy sent) 10))" "(0, CActive sample_request) \<in> set (waConns (dnWeb (D (?busy sent) 10) ! 0))"
    "rqPath sample_request = ''/addpeer''"
    by (simp_all add: D_def N_def sample_request_def)
  from addpeer_never_answered [OF r f sample_names rtranclp.rtrancl_refl] r f show ?thesis by blast
qed

end
