(* ===== verification/Spec2Isabelle.thy ===== *)
theory Spec2Isabelle
  imports AnnounceProps MainCmd WebProps
begin

text \<open>
  DogeNet: a gossip node of the Dogebox network, written in Go. This development models the
  whole program (\<open>cmd\<close>, \<open>internal\<close> and \<open>pkg\<close>) and states what makes it correct.

  The program and how its parts interact. \<open>main\<close> reads flags and the environment and builds a
  configuration; \<open>DogeNet\<close> opens the SQLite store and gives it to four services that run
  concurrently under a supervisor. The net service accepts and dials peers, checks and
  stores the signed announcements they send, relays them, and connects local protocol
  handlers. The announce service finds the node's public address, signs the node's own
  announcement, renews it every day and after changes, and hands it to the net service. The
  web API lists the known nodes and adds peers. The trimmer expires nodes. The services
  share the store, and a queue of changes leads from the handlers to the announce service.

  Which theory models what.
  Prelude: byte and tag types, slices as unordered arrays, Go maps as association lists,
  buffered channels, truncating division, and the lemma collections.
  GoNet, GoParse: what the program uses of Go's \<open>net.IP\<close>, \<open>encoding/hex\<close>, \<open>strings\<close> and
  \<open>net.ParseIP\<close>. GoJson, JsonTrips: what it uses of \<open>encoding/json\<close> (the scanner, strings with
  their escapes, decoding into a struct of strings and encoding), and the round trips.
  SpecErrors, Gossip, DogeSpec: \<open>pkg/spec\<close>. SpecErrors has the errors (\<open>errors.go\<close>), Gossip
  the interface of the message libraries, DogeSpec the addresses, node identifiers, records
  and the \<open>Store\<close> interface as a record of functions on a store state.
  SqliteDb, StoreTxn, StoreOps: \<open>internal/store/sqlite.go\<close>, from the tables and the SQL
  statements over the transaction loop \<open>doTxn\<close> to one definition per operation. A body of a
  transaction is a function on captured variables and tables; a schedule of driver faults
  says which calls of the driver fail.
  StoreProps, StoreSpec, StoreExpiry, StoreQueries: the invariant of the tables, the abstract
  store of announcements that the operations refine, expiry with the trimmer
  (\<open>internal/store/trimmer.go\<close>), and the remaining operations.
  NetState: the fields of \<open>NetService\<close> and its critical sections (\<open>internal/netsvc/service.go\<close>).
  PeerConn, HandlerConn, NetTasks: every goroutine of \<open>peer.go\<close>, \<open>handler.go\<close> and
  \<open>service.go\<close> as a function that does one step from its program point under an event of
  the environment; a step ends where the next call blocks, writes or takes the lock.
  NetInv, NetTracked: the invariant of the service and that each goroutine keeps it.
  NetSystem: all goroutines interleaved in any order (\<open>net_step\<close>), the reachable states, and
  the properties of the registry, the queues and the shutdown. NetHandshake: an inbound
  handshake. NetWire: messages are written whole. NetRuns: dialling and shutdown.
  NetGossip: the service over any store that keeps its contract.
  StoreIface, StoreContract: the contracts \<open>node_registry\<close> and \<open>announce_store\<close> the services
  rely on, as locales, and their interpretation on the SQLite store.
  NetProps: the net service over the SQLite store.
  Announce, AnnounceLoop, AnnounceProps: \<open>internal/announce/announce.go\<close>, with its timer, over
  any store that keeps the contract, and over the SQLite store.
  Web, WebServer: the handlers of \<open>internal/web/web.go\<close>, and its \<open>Run\<close> and \<open>Stop\<close> with the
  connections of the HTTP server. The handlers rely on the net service through the interface
  \<open>net_svc\<close> of DogeSpec, interpreted on \<open>AddPeer\<close> in NetState.
  Trimmer: the goroutine of \<open>internal/store/trimmer.go\<close>.
  DogeNode: \<open>pkg/dogenet/service.go\<close>; all services interleaved over one store
  (\<open>dogenet_step\<close>), and a simulation that maps every step of the program to steps of the
  net service with an environment. WebProps: the web API over the SQLite store and inside
  the program.
  MainCmd: \<open>cmd/dogenet/main.go\<close>.

  What the lemmas show. For the store: every sequence of operations under any driver faults
  keeps the tables well formed, a failed transaction changes nothing, \<open>AddNetNode\<close> and
  \<open>TrimNodes\<close> refine an abstract map, migrations keep every row, a node lives for thirty to
  thirty-one days. For the net service: at most one connection per key and none to the node
  itself, an honest inbound peer completes the handshake, a known announcement is never
  broadcast again, queues are bounded, messages are written whole, dials are spaced, and a
  shutdown closes every connection. For the web API: the list of nodes decodes to the table,
  a posted peer is queued, a shutdown ends. The trimmer runs once an hour. For the announce service: the timer is always due, what
  is signed describes the node, and a restart repeats the stored announcement. For the
  program: the net service inside it behaves as it does alone, and it announces only itself.
  Several theorems state what the code does and was not meant to do: the first
  announcement is never stored, a transaction whose body meets a bare conflict waits for
  ever, the search for peers can end and then requests to add peers hang, a shutdown is
  fatal, the flag for peers is useless.

  Conventions. Errors are values of \<open>goerr\<close>. A store call is \<open>None\<close> where it never returns; a
  goroutine's step is \<open>None\<close> where it waits. Integers of the source that cannot overflow are
  \<open>int\<close> or \<open>nat\<close>; bytes, ports and channel tags are words. Times are nanoseconds as in
  \<open>time.Duration\<close>. Pointers to connections are numbers never used twice.

  Bounds and fuel. \<open>doTxn\<close> makes at most 120 attempts in the source, and \<open>doTxn_loop\<close> recurses
  on that number, so it needs no other fuel; its \<open>None\<close> is the attempt that waits for the
  connection the first attempt still holds. The queues have the sizes of the source: ten
  peers to try, ten changes, a hundred messages per peer, none for a handler.

  What is modelled in parts or not at all.
  The libraries \<open>code.dogecoin.org/gossip\<close> and \<open>governor\<close> are not part of the repository. The
  codec and the signatures are the fields of the record \<open>gossip\<close>, an argument of every
  definition that calls them; what is needed of them (the decoder reads what the encoder
  wrote, a key pair has a 32-byte public key) is a hypothesis of the theorem. That a
  received message carries a verified signature is the library's promise and no theorem
  depends on it. The supervisor's restart of a failed service and its recovery of panics are
  not modelled: a panic ends the run.
  Of \<open>encoding/json\<close> the model has what decoding into structs of strings and encoding strings
  reach; a Go string is its list of characters below 256, that is, of bytes, and member names
  are folded as for the ASCII field names of the program.
  SQLite is modelled by the statements the program executes, on typed tables; its file
  format, its locking and a crash in the middle of a commit are not.
  The removal of the Unix socket's file by the net service and logging are input and output
  only; of the HTTP server the model has what \<open>ListenAndServe\<close> and \<open>Shutdown\<close> document. A
  sleep of the search for peers, the seeds, the gossip, the trimmer and the announce service
  ends no earlier than its instant, or when the service is stopping; a random choice is any
  choice.
  One step covers what runs under the mutex at once, so \<open>ReceiveAnnounce\<close>, which locks twice, is
  two. A store call is one step, which the pool of one database connection justifies.
  The multiplication of a remaining time by a second cannot overflow for the times the
  program stores, and is modelled without wrap-around.

  What could be added: fairness, so that handshakes complete and not only can complete; the
  supervisor; several nodes that exchange messages, with the spread of an announcement over
  a network of them.
\<close>

section \<open>Properties of the whole program\<close>




lemma sample_codec_total: "codec_total sample_gossip"
  unfolding codec_total_def using sample_codec(1) by fastforce


end
